(* ===== verification/Prelude.thy ===== *)
theory Prelude
  imports Main "HOL-Library.Word" "HOL-Library.AList" "HOL-Library.Multiset"
    "HOL-Library.State_Monad"
begin

text \<open>
  Shared material of the development: Go's strings as byte lists with the functions of the
  package \<open>strings\<close> the operator calls, results of functions that may panic, the state monad
  in which effectful functions are written, and the lemma collections the components use.
  Strings are byte sequences; \<open>to_lower\<close> and \<open>trim_space\<close> treat the ASCII range, which is the range
  Kubernetes names, kinds and check types are drawn from.
\<close>

section \<open>Collections of facts\<close>

named_theorems go_str "facts on Go strings"
named_theorems run_simps "running effectful functions"
named_theorems emits_intros "which events a function may emit"

section \<open>Machine integers and opaque data\<close>

type_synonym int64 = "64 word"
type_synonym int32 = "32 word"

text \<open>Parts of Kubernetes objects the operator only copies around.\<close>

type_synonym opaque = string

section \<open>Functions that may panic\<close>

text \<open>
  A Go function returns, panics (nil dereference, failed type assertion) or never returns (a loop
  that waits for something that does not come, a channel nobody sends on). Errors are ordinary
  values. A loop of the code runs on fuel, and \<open>NoReturn\<close> is what is left when it has used it up.
\<close>

datatype 'a outcome = Ret 'a | Panic string | NoReturn

fun bind_outcome :: "'a outcome \<Rightarrow> ('a \<Rightarrow> 'b outcome) \<Rightarrow> 'b outcome" where
  "bind_outcome (Ret x) f = f x"
| "bind_outcome (Panic m) f = Panic m"
| "bind_outcome NoReturn f = NoReturn"

fun returns :: "'a outcome \<Rightarrow> bool" where
  "returns (Ret _) = True"
| "returns (Panic _) = False"
| "returns NoReturn = False"

lemma bind_outcome_Ret_iff:
  "bind_outcome m f = Ret y \<longleftrightarrow> (\<exists>x. m = Ret x \<and> f x = Ret y)"
  by (cases m) auto

lemma returns_iff: "returns m \<longleftrightarrow> (\<exists>x. m = Ret x)"
  by (cases m) auto

section \<open>Errors\<close>

text \<open>
  An error is one of the API server's (with the reason the \<open>apierrors\<close> predicates test), one made by
  \<open>fmt.Errorf\<close>, or one made by \<open>fmt.Errorf\<close> around another error with \<open>%w\<close>. The predicates look
  through wrapping, as \<open>apierrors.ReasonForError\<close> is documented to.
\<close>

datatype api_reason = NotFound | AlreadyExists | Conflict | OtherReason

datatype error = ApiError api_reason string | Errorf string | Wrapf string error

fun error_reason :: "error \<Rightarrow> api_reason" where
  "error_reason (ApiError r m) = r"
| "error_reason (Errorf m) = OtherReason"
| "error_reason (Wrapf m e) = error_reason e"

fun error_text :: "error \<Rightarrow> string" where
  "error_text (ApiError r m) = m"
| "error_text (Errorf m) = m"
| "error_text (Wrapf m e) = m @ '': '' @ error_text e"

abbreviation IsNotFound :: "error \<Rightarrow> bool" where "IsNotFound e \<equiv> error_reason e = NotFound"
abbreviation IsAlreadyExists :: "error \<Rightarrow> bool" where "IsAlreadyExists e \<equiv> error_reason e = AlreadyExists"
abbreviation IsConflict :: "error \<Rightarrow> bool" where "IsConflict e \<equiv> error_reason e = Conflict"

section \<open>Go strings\<close>

definition ascii_lower :: "char \<Rightarrow> char" where
  "ascii_lower c = (let n = (of_char c :: nat) in if 65 \<le> n \<and> n \<le> 90 then char_of (n + 32) else c)"

text \<open>\<open>strings.ToLower\<close>\<close>

definition to_lower :: "string \<Rightarrow> string" where
  "to_lower s = map ascii_lower s"

text \<open>\<open>strings.HasPrefix\<close>, \<open>strings.Contains\<close>\<close>

fun has_prefix :: "string \<Rightarrow> string \<Rightarrow> bool" where
  "has_prefix s [] = True"
| "has_prefix [] (p # ps) = False"
| "has_prefix (c # s) (p # ps) = (c = p \<and> has_prefix s ps)"

fun str_contains :: "string \<Rightarrow> string \<Rightarrow> bool" where
  "str_contains [] p = (p = [])"
| "str_contains (c # s) p = (has_prefix (c # s) p \<or> str_contains s p)"

text \<open>\<open>strings.Index\<close> and \<open>strings.LastIndex\<close> for a single byte; \<open>None\<close> is Go's -1.\<close>

fun str_index :: "string \<Rightarrow> char \<Rightarrow> nat option" where
  "str_index [] c = None"
| "str_index (x # s) c = (if x = c then Some 0 else map_option Suc (str_index s c))"

fun str_last_index :: "string \<Rightarrow> char \<Rightarrow> nat option" where
  "str_last_index [] c = None"
| "str_last_index (x # s) c =
     (case str_last_index s c of
        Some i \<Rightarrow> Some (Suc i)
      | None \<Rightarrow> (if x = c then Some 0 else None))"

text \<open>\<open>strings.Split\<close> at a single byte: never empty, one piece more than separators.\<close>

fun str_split :: "char \<Rightarrow> string \<Rightarrow> string list" where
  "str_split c [] = [[]]"
| "str_split c (x # s) =
     (if x = c then [] # str_split c s
      else (case str_split c s of [] \<Rightarrow> [[x]] | p # ps \<Rightarrow> (x # p) # ps))"

text \<open>\<open>strings.TrimSpace\<close>\<close>

definition is_space :: "char \<Rightarrow> bool" where
  "is_space c \<longleftrightarrow> (of_char c :: nat) \<in> {9, 10, 11, 12, 13, 32}"

definition trim_space :: "string \<Rightarrow> string" where
  "trim_space s = rev (dropWhile is_space (rev (dropWhile is_space s)))"

text \<open>\<open>strings.Join\<close>\<close>

fun str_join :: "string list \<Rightarrow> string \<Rightarrow> string" where
  "str_join [] sep = []"
| "str_join [s] sep = s"
| "str_join (s # t # ss) sep = s @ sep @ str_join (t # ss) sep"

text \<open>Decimal digits of a count, as \<open>fmt\<close> prints \<open>%d\<close>.\<close>

fun show_nat :: "nat \<Rightarrow> string" where
  "show_nat n = (if n < 10 then [char_of (48 + n)] else show_nat (n div 10) @ [char_of (48 + n mod 10)])"

declare show_nat.simps [simp del]

subsection \<open>Facts on Go strings\<close>

lemma length_to_lower [simp, go_str]: "length (to_lower s) = length s"
  by (simp add: to_lower_def)

lemma to_lower_append [simp, go_str]: "to_lower (s @ t) = to_lower s @ to_lower t"
  by (simp add: to_lower_def)

lemma to_lower_Nil [simp, go_str]: "to_lower [] = []"
  by (simp add: to_lower_def)

lemma to_lower_Cons: "to_lower (c # s) = ascii_lower c # to_lower s"
  by (simp add: to_lower_def)

lemma ascii_lower_idem [simp]: "ascii_lower (ascii_lower c) = ascii_lower c"
  by (auto simp: ascii_lower_def Let_def)

lemma to_lower_idem [simp, go_str]: "to_lower (to_lower s) = to_lower s"
  by (simp add: to_lower_def)

lemma has_prefix_iff [go_str]: "has_prefix s p \<longleftrightarrow> (\<exists>t. s = p @ t)"
  by (induction s p rule: has_prefix.induct) auto

lemma has_prefix_append [simp, go_str]: "has_prefix (p @ t) p"
  by (auto simp: has_prefix_iff)

lemma str_contains_iff: "str_contains s p \<longleftrightarrow> (\<exists>a b. s = a @ p @ b)"
proof (induction s p rule: str_contains.induct)
  case (1 p)
  then show ?case by auto
next
  case (2 c s p)
  show ?case
  proof
    assume "str_contains (c # s) p"
    then consider "has_prefix (c # s) p" | "str_contains s p" by auto
    then show "\<exists>a b. c # s = a @ p @ b"
    proof cases
      case 1
      then obtain t where "c # s = [] @ p @ t" by (auto simp: has_prefix_iff)
      then show ?thesis by blast
    next
      case 2
      with "2.IH" obtain a b where "c # s = (c # a) @ p @ b" by auto
      then show ?thesis by blast
    qed
  next
    assume "\<exists>a b. c # s = a @ p @ b"
    then obtain a b where ab: "c # s = a @ p @ b" by blast
    show "str_contains (c # s) p"
    proof (cases a)
      case Nil
      with ab have "has_prefix (c # s) p" by (auto simp: has_prefix_iff)
      then show ?thesis by simp
    next
      case (Cons x a')
      with ab have "s = a' @ p @ b" by simp
      with "2.IH" have "str_contains s p" by blast
      then show ?thesis by simp
    qed
  qed
qed

lemma str_index_None_iff [go_str]: "str_index s c = None \<longleftrightarrow> c \<notin> set s"
  by (induction s) auto

lemma str_index_append [go_str]:
  "c \<notin> set a \<Longrightarrow> str_index (a @ c # b) c = Some (length a)"
  by (induction a) auto

lemma str_index_Some:
  "str_index s c = Some i \<Longrightarrow> \<exists>a b. s = a @ c # b \<and> length a = i \<and> c \<notin> set a"
proof (induction s arbitrary: i)
  case Nil
  then show ?case by simp
next
  case (Cons x s)
  show ?case
  proof (cases "x = c")
    case True
    with Cons.prems show ?thesis by (intro exI [of _ "[]"] exI [of _ s]) auto
  next
    case False
    with Cons.prems obtain j where j: "str_index s c = Some j" "i = Suc j" by auto
    from Cons.IH [OF j(1)] obtain a b where "s = a @ c # b" "length a = j" "c \<notin> set a" by blast
    with False j(2) show ?thesis by (intro exI [of _ "x # a"] exI [of _ b]) auto
  qed
qed

lemma str_last_index_None_iff [go_str]: "str_last_index s c = None \<longleftrightarrow> c \<notin> set s"
  by (induction s) (auto split: option.splits)

lemma str_last_index_append [go_str]:
  "c \<notin> set b \<Longrightarrow> str_last_index (a @ c # b) c = Some (length a)"
proof (induction a)
  case Nil
  then have "str_last_index b c = None" by (simp add: str_last_index_None_iff)
  then show ?case by simp
qed (auto split: option.splits)

lemma str_split_not_Nil [simp, go_str]: "str_split c s \<noteq> []"
  by (induction s) (auto split: list.splits)

lemma length_str_split: "length (str_split c s) = Suc (count_list s c)"
  by (induction s) (auto split: list.splits)

lemma str_split_no_sep: "c \<notin> set s \<Longrightarrow> str_split c s = [s]"
  by (induction s) auto

lemma str_join_split: "str_join (str_split c s) [c] = s"
proof (induction s)
  case Nil
  then show ?case by simp
next
  case (Cons x s)
  obtain p ps where ps: "str_split c s = p # ps"
    by (cases "str_split c s") auto
  show ?case using Cons ps by (cases ps) auto
qed

lemma set_str_split: "p \<in> set (str_split c s) \<Longrightarrow> c \<notin> set p"
proof (induction s arbitrary: p)
  case Nil
  then show ?case by simp
next
  case (Cons x s)
  obtain q qs where qs: "str_split c s = q # qs"
    by (cases "str_split c s") auto
  show ?case using Cons qs by (auto split: if_splits)
qed

lemma set_trim_space: "set (trim_space s) \<subseteq> set s"
  by (auto simp: trim_space_def dest!: set_dropWhileD)

lemma trim_space_Nil [simp, go_str]: "trim_space [] = []"
  by (simp add: trim_space_def)

lemma trim_space_eq_Nil_iff [go_str]: "trim_space s = [] \<longleftrightarrow> (\<forall>c \<in> set s. is_space c)"
proof
  assume "trim_space s = []"
  then have drop: "\<forall>c \<in> set (dropWhile is_space s). is_space c"
    by (simp add: trim_space_def dropWhile_eq_Nil_conv)
  show "\<forall>c \<in> set s. is_space c"
  proof (cases "dropWhile is_space s")
    case Nil
    then show ?thesis by (simp add: dropWhile_eq_Nil_conv)
  next
    case (Cons x xs)
    with drop hd_dropWhile [of is_space s] show ?thesis by auto
  qed
next
  assume "\<forall>c \<in> set s. is_space c"
  then have "dropWhile is_space s = []" by (simp only: dropWhile_eq_Nil_conv)
  then show "trim_space s = []" by (simp only: trim_space_def dropWhile.simps rev.simps)
qed

section \<open>Go maps\<close>

text \<open>
  A Go map is an association list with distinct keys: \<open>map_of\<close> reads it, \<open>AList.update\<close> stores,
  \<open>AList.delete\<close> removes. A \<open>range\<close> loop visits the keys in an order the runtime chooses anew at every
  loop; the functions that range over a map take that order as an argument.
\<close>

type_synonym ('k, 'v) gomap = "('k \<times> 'v) list"

definition gm_keys :: "('k, 'v) gomap \<Rightarrow> 'k list" where
  "gm_keys m = remdups (map fst m)"

lemma set_gm_keys [simp]: "set (gm_keys m) = dom (map_of m)"
  by (simp add: gm_keys_def dom_map_of_conv_image_fst)

lemma distinct_gm_keys [simp]: "distinct (gm_keys m)"
  by (simp add: gm_keys_def)

text \<open>An order the runtime may visit the elements in: any permutation, chosen by the runtime.\<close>

definition is_order :: "('a list \<Rightarrow> 'a list) \<Rightarrow> bool" where
  "is_order ord \<longleftrightarrow> (\<forall>xs. mset (ord xs) = mset xs)"

lemma is_order_set: "is_order ord \<Longrightarrow> set (ord xs) = set xs"
  unfolding is_order_def by (metis mset_eq_setD)

lemma is_order_distinct: "is_order ord \<Longrightarrow> distinct (ord xs) = distinct xs"
  unfolding is_order_def by (metis mset_eq_imp_distinct_iff)

lemma is_order_length: "is_order ord \<Longrightarrow> length (ord xs) = length xs"
  unfolding is_order_def by (metis mset_eq_length)

lemma is_order_Nil_iff: "is_order ord \<Longrightarrow> ord xs = [] \<longleftrightarrow> xs = []"
  using is_order_length [of ord xs] by auto

lemma is_order_id [simp]: "is_order (\<lambda>xs. xs)"
  by (simp add: is_order_def)

lemma is_order_rev [simp]: "is_order rev"
  by (simp add: is_order_def)

section \<open>Effectful functions\<close>

text \<open>
  An effectful function is a value of the library's state monad, written in its \<open>do\<close> notation.
  \<open>ret\<close> ends one; \<open>run_state\<close> runs one. The equations below push \<open>run_state\<close> through case
  distinctions, so that the simplifier can run a function.
\<close>

abbreviation ret :: "'a \<Rightarrow> ('s, 'a) state" where
  "ret \<equiv> State_Monad.return"

lemma run_state_if [run_simps]:
  "run_state (if c then a else b) s = (if c then run_state a s else run_state b s)"
  by simp

lemma run_state_case_option [run_simps]:
  "run_state (case x of None \<Rightarrow> a | Some y \<Rightarrow> f y) s =
   (case x of None \<Rightarrow> run_state a s | Some y \<Rightarrow> run_state (f y) s)"
  by (cases x) simp_all

lemma run_state_case_sum [run_simps]:
  "run_state (case x of Inl y \<Rightarrow> f y | Inr z \<Rightarrow> g z) s =
   (case x of Inl y \<Rightarrow> run_state (f y) s | Inr z \<Rightarrow> run_state (g z) s)"
  by (cases x) simp_all

lemma run_state_case_outcome [run_simps]:
  "run_state (case x of Ret y \<Rightarrow> f y | Panic m \<Rightarrow> g m | NoReturn \<Rightarrow> h) s =
   (case x of Ret y \<Rightarrow> run_state (f y) s | Panic m \<Rightarrow> run_state (g m) s | NoReturn \<Rightarrow> run_state h s)"
  by (cases x) simp_all

lemma run_state_case_prod [run_simps]:
  "run_state (case x of (y, z) \<Rightarrow> f y z) s = (case x of (y, z) \<Rightarrow> run_state (f y z) s)"
  by (cases x) simp

text \<open>Goes on with the result of a function that may panic or not return; otherwise stops like it.\<close>

definition attempt :: "('s, 'a outcome) state \<Rightarrow> ('a \<Rightarrow> ('s, 'b outcome) state) \<Rightarrow> ('s, 'b outcome) state" where
  "attempt m f = do {
     r \<leftarrow> m;
     case r of Ret x \<Rightarrow> f x | Panic p \<Rightarrow> ret (Panic p) | NoReturn \<Rightarrow> ret NoReturn }"

text \<open>\<open>for\<close> loops without early exit.\<close>

fun for_each :: "'a list \<Rightarrow> ('a \<Rightarrow> ('s, unit) state) \<Rightarrow> ('s, unit) state" where
  "for_each [] f = ret ()"
| "for_each (x # xs) f = do { f x; for_each xs f }"

end
