(* ===== verification/ApiTypes.thy ===== *)
theory ApiTypes
  imports Prelude
begin

text \<open>
  The custom resources of \<open>api/v1alpha1\<close> and the Kubernetes objects the operator reads and writes.
  A pointer field is an \<open>option\<close> (\<open>nil\<close> is \<open>None\<close>), a slice whose nilness the code tests is an optional
  list, a Go map is a \<open>gomap\<close>. Fields of Kubernetes objects the operator only copies are collected in
  one opaque field per object. The section ends with the conversions and emptiness tests of
  \<open>workloadhardeningcheck_types.go\<close> and what makes them correct.
\<close>

section \<open>Security contexts\<close>

text \<open>\<open>v1alpha1.SeccompProfile\<close> and \<open>corev1.SeccompProfile\<close>\<close>

record SeccompProfile =
  sec_Type :: string

record K8sSeccompProfile =
  ksec_Type :: string
  ksec_LocalhostProfile :: "string option"

text \<open>\<open>corev1.PodSecurityContext\<close>\<close>

record PodSecurityContext =
  psc_FSGroup :: "int64 option"
  psc_RunAsUser :: "int64 option"
  psc_RunAsGroup :: "int64 option"
  psc_RunAsNonRoot :: "bool option"
  psc_SupplementalGroups :: "int64 list option"
  psc_SupplementalGroupsPolicy :: "string option"
  psc_SeccompProfile :: "K8sSeccompProfile option"
  psc_SELinuxOptions :: "opaque option"
  psc_other :: opaque

text \<open>\<open>corev1.Capabilities\<close> and \<open>corev1.SecurityContext\<close>\<close>

record Capabilities =
  caps_Add :: "string list option"
  caps_Drop :: "string list option"

record SecurityContext =
  sc_Capabilities :: "Capabilities option"
  sc_Privileged :: "bool option"
  sc_SELinuxOptions :: "opaque option"
  sc_RunAsUser :: "int64 option"
  sc_RunAsGroup :: "int64 option"
  sc_RunAsNonRoot :: "bool option"
  sc_ReadOnlyRootFilesystem :: "bool option"
  sc_AllowPrivilegeEscalation :: "bool option"
  sc_SeccompProfile :: "K8sSeccompProfile option"
  sc_other :: opaque

text \<open>\<open>PodSecurityContextDefaults\<close>, \<open>ContainerSecurityContextDefaults\<close>, \<open>SecurityContextDefaults\<close>\<close>

record PodSecurityContextDefaults =
  pod_FSGroup :: "int64 option"
  pod_RunAsUser :: "int64 option"
  pod_RunAsGroup :: "int64 option"
  pod_RunAsNonRoot :: "bool option"
  pod_SupplementalGroups :: "int64 list option"
  pod_SeccompProfile :: "SeccompProfile option"

record ContainerSecurityContextDefaults =
  con_RunAsNonRoot :: "bool option"
  con_ReadOnlyRootFilesystem :: "bool option"
  con_AllowPrivilegeEscalation :: "bool option"
  con_CapabilitiesDrop :: "string list option"
  con_SeccompProfile :: "SeccompProfile option"
  con_RunAsUser :: "int64 option"
  con_RunAsGroup :: "int64 option"

record SecurityContextDefaults =
  scd_Pod :: "PodSecurityContextDefaults option"
  scd_Container :: "ContainerSecurityContextDefaults option"

text \<open>Zero values of the structs.\<close>

definition empty_psc :: PodSecurityContext where
  "empty_psc = \<lparr>psc_FSGroup = None, psc_RunAsUser = None, psc_RunAsGroup = None, psc_RunAsNonRoot = None,
     psc_SupplementalGroups = None, psc_SupplementalGroupsPolicy = None, psc_SeccompProfile = None,
     psc_SELinuxOptions = None, psc_other = []\<rparr>"

definition empty_sc :: SecurityContext where
  "empty_sc = \<lparr>sc_Capabilities = None, sc_Privileged = None, sc_SELinuxOptions = None,
     sc_RunAsUser = None, sc_RunAsGroup = None, sc_RunAsNonRoot = None,
     sc_ReadOnlyRootFilesystem = None, sc_AllowPrivilegeEscalation = None,
     sc_SeccompProfile = None, sc_other = []\<rparr>"

definition empty_pod_defaults :: PodSecurityContextDefaults where
  "empty_pod_defaults = \<lparr>pod_FSGroup = None, pod_RunAsUser = None, pod_RunAsGroup = None,
     pod_RunAsNonRoot = None, pod_SupplementalGroups = None, pod_SeccompProfile = None\<rparr>"

definition empty_con_defaults :: ContainerSecurityContextDefaults where
  "empty_con_defaults = \<lparr>con_RunAsNonRoot = None, con_ReadOnlyRootFilesystem = None,
     con_AllowPrivilegeEscalation = None, con_CapabilitiesDrop = None, con_SeccompProfile = None,
     con_RunAsUser = None, con_RunAsGroup = None\<rparr>"

lemmas empty_contexts = empty_psc_def empty_sc_def empty_pod_defaults_def empty_con_defaults_def

text \<open>\<open>len\<close> of a possibly nil slice.\<close>

fun slice_len :: "'a list option \<Rightarrow> nat" where
  "slice_len None = 0"
| "slice_len (Some xs) = length xs"

section \<open>Workloads\<close>

record Container =
  ctr_Name :: string
  ctr_SecurityContext :: "SecurityContext option"
  ctr_other :: opaque

record PodSpec =
  ps_SecurityContext :: "PodSecurityContext option"
  ps_Containers :: "Container list"
  ps_InitContainers :: "Container list"
  ps_NodeName :: string
  ps_other :: opaque

text \<open>
  The dynamic type of the \<open>client.Object\<close> that holds the workload under test. \<open>OtherObject\<close> stands for
  the \<open>default\<close> branch of the type switches.
\<close>

datatype Kind = Deployment | StatefulSet | DaemonSet | OtherObject

record Workload =
  wl_Kind :: Kind
  wl_Namespace :: string
  wl_Name :: string
  wl_Replicas :: "int32 option"
  wl_Selector :: opaque
  wl_Template :: PodSpec
  wl_UpdatedReplicas :: int32
  wl_CurrentReplicas :: int32
  wl_DesiredNumberScheduled :: int32
  wl_UpdatedNumberScheduled :: int32
  wl_other :: opaque

section \<open>The custom resources\<close>

datatype ConditionStatus = ConditionTrue | ConditionFalse | ConditionUnknown

record Condition =
  c_Type :: string
  c_Status :: ConditionStatus
  c_Reason :: string
  c_Message :: string
  c_LastTransitionTime :: int

record CheckRun =
  cr_Name :: string
  cr_RecordingSuccessfull :: "bool option"
  cr_CheckSuccessfull :: "bool option"
  cr_SecurityContext :: "SecurityContextDefaults option"
  cr_FailureReason :: string
  cr_LogAnomalies :: "(string, string list) gomap"

record Recommendation =
  rec_Container :: "SecurityContext option"
  rec_Pod :: "PodSecurityContext option"

record TargetReference =
  tr_Kind :: string
  tr_Name :: string

record WorkloadHardeningCheckSpec =
  spec_TargetRef :: TargetReference
  spec_BaselineRecordingReference :: "string list"
  spec_RecordingDuration :: string
  spec_RunMode :: string
  spec_SecurityContext :: "SecurityContextDefaults option"
  spec_Suffix :: string

record WorkloadHardeningCheckStatus =
  st_Conditions :: "Condition list"
  st_BaselineRuns :: "CheckRun list"
  st_CheckRuns :: "(string, CheckRun) gomap"
  st_FinalRun :: "CheckRun option"
  st_Recommendation :: "Recommendation option"

record WorkloadHardeningCheck =
  whc_Name :: string
  whc_Namespace :: string
  whc_DeletionTimestamp :: "int option"
  whc_Finalizers :: "string list"
  whc_Labels :: "(string, string) gomap"
  whc_Owners :: "string list"
  whc_Spec :: WorkloadHardeningCheckSpec
  whc_Status :: WorkloadHardeningCheckStatus

record NamespaceHardeningCheckSpec =
  nspec_TargetNamespace :: string
  nspec_RecordingDuration :: string
  nspec_RunMode :: string
  nspec_SecurityContext :: "SecurityContextDefaults option"
  nspec_Suffix :: string

record NamespaceHardeningCheckStatus =
  nst_Conditions :: "Condition list"
  nst_Recommendations :: "(string, Recommendation) gomap"

record NamespaceHardeningCheck =
  nhc_Name :: string
  nhc_Spec :: NamespaceHardeningCheckSpec
  nhc_Status :: NamespaceHardeningCheckStatus

text \<open>Read access to the status, in the code's spelling.\<close>

abbreviation whc_Conditions :: "WorkloadHardeningCheck \<Rightarrow> Condition list" where
  "whc_Conditions w \<equiv> st_Conditions (whc_Status w)"

abbreviation whc_Recommendation :: "WorkloadHardeningCheck \<Rightarrow> Recommendation option" where
  "whc_Recommendation w \<equiv> st_Recommendation (whc_Status w)"

section \<open>Constants\<close>

definition RunModeParallel :: string where "RunModeParallel = ''parallel''"
definition RunModeSequential :: string where "RunModeSequential = ''sequential''"

definition ConditionTypePreparation :: string where "ConditionTypePreparation = ''Preparation''"
definition ConditionTypeBaseline :: string where "ConditionTypeBaseline = ''Baseline''"
definition ConditionTypeCheck :: string where "ConditionTypeCheck = ''Check''"
definition ConditionTypeFinalCheck :: string where "ConditionTypeFinalCheck = ''FinalCheck''"
definition ConditionTypeAnalysis :: string where "ConditionTypeAnalysis = ''CheckResultAnalysis''"
definition ConditionTypeFinished :: string where "ConditionTypeFinished = ''Finished''"
definition ReasonSuccess :: string where "ReasonSuccess = ''Success''"
definition ReasonFailed :: string where "ReasonFailed = ''Failed''"
definition ReasonRequeue :: string where "ReasonRequeue = ''Requeue''"
definition ReasonBaselineRecording :: string where "ReasonBaselineRecording = ''BaselineRecording''"
definition ReasonBaselineRecordingFailed :: string where
  "ReasonBaselineRecordingFailed = ''BaselineRecordingFailed''"
definition ReasonBaselineRecordingFinished :: string where
  "ReasonBaselineRecordingFinished = ''BaselineRecordingFinished''"
definition ReasonCheckRecording :: string where "ReasonCheckRecording = ''CheckRecording''"
definition ReasonCheckNotStarted :: string where "ReasonCheckNotStarted = ''CheckNotStarted''"
definition ReasonCheckRecordingFailed :: string where
  "ReasonCheckRecordingFailed = ''CheckRecordingFailed''"
definition ReasonCheckRecordingFinished :: string where
  "ReasonCheckRecordingFinished = ''CheckRecordingFinished''"
definition ReasonAnalysisRunning :: string where "ReasonAnalysisRunning = ''Analyzing''"
definition ReasonAnalysisFailed :: string where "ReasonAnalysisFailed = ''AnalysisFailed''"
definition ReasonAnalysisFinished :: string where "ReasonAnalysisFinished = ''AnalysisFinished''"
definition ReasonTargetNamespaceNotFound :: string where
  "ReasonTargetNamespaceNotFound = ''TargetNamespaceNotFound''"
definition ReasonNamespaceInProgress :: string where "ReasonNamespaceInProgress = ''InProgress''"
definition ReasonWorkloadChecksCreated :: string where
  "ReasonWorkloadChecksCreated = ''WorkloadChecksCreated''"

lemmas condition_consts =
  ConditionTypePreparation_def ConditionTypeBaseline_def ConditionTypeCheck_def
  ConditionTypeFinalCheck_def ConditionTypeAnalysis_def ConditionTypeFinished_def

lemmas reason_consts =
  ReasonSuccess_def ReasonFailed_def ReasonRequeue_def ReasonBaselineRecording_def
  ReasonBaselineRecordingFailed_def ReasonBaselineRecordingFinished_def ReasonCheckRecording_def
  ReasonCheckNotStarted_def ReasonCheckRecordingFailed_def ReasonCheckRecordingFinished_def
  ReasonAnalysisRunning_def ReasonAnalysisFailed_def ReasonAnalysisFinished_def
  ReasonTargetNamespaceNotFound_def ReasonNamespaceInProgress_def ReasonWorkloadChecksCreated_def

lemmas api_consts = condition_consts reason_consts RunModeParallel_def RunModeSequential_def

section \<open>Conversions and emptiness tests\<close>

definition seccomp_to_k8s :: "SeccompProfile \<Rightarrow> K8sSeccompProfile" where
  "seccomp_to_k8s s = \<lparr>ksec_Type = sec_Type s, ksec_LocalhostProfile = None\<rparr>"

text \<open>The methods have a nil receiver case, so they take an optional struct.\<close>

definition Pod_ToK8sSecurityContext :: "PodSecurityContextDefaults option \<Rightarrow> PodSecurityContext option" where
  "Pod_ToK8sSecurityContext p = (case p of
     None \<Rightarrow> None
   | Some p \<Rightarrow> Some (empty_psc\<lparr>
       psc_FSGroup := pod_FSGroup p,
       psc_RunAsUser := pod_RunAsUser p,
       psc_RunAsGroup := pod_RunAsGroup p,
       psc_RunAsNonRoot := pod_RunAsNonRoot p,
       psc_SupplementalGroups := pod_SupplementalGroups p,
       psc_SeccompProfile := map_option seccomp_to_k8s (pod_SeccompProfile p)\<rparr>))"

definition Container_ToK8sSecurityContext ::
    "ContainerSecurityContextDefaults option \<Rightarrow> SecurityContext option" where
  "Container_ToK8sSecurityContext c = (case c of
     None \<Rightarrow> None
   | Some c \<Rightarrow> Some (empty_sc\<lparr>
       sc_RunAsNonRoot := con_RunAsNonRoot c,
       sc_ReadOnlyRootFilesystem := con_ReadOnlyRootFilesystem c,
       sc_AllowPrivilegeEscalation := con_AllowPrivilegeEscalation c,
       sc_RunAsUser := con_RunAsUser c,
       sc_RunAsGroup := con_RunAsGroup c,
       sc_Capabilities := (if slice_len (con_CapabilitiesDrop c) > 0
          then Some \<lparr>caps_Add = None, caps_Drop = con_CapabilitiesDrop c\<rparr> else None),
       sc_SeccompProfile := map_option seccomp_to_k8s (con_SeccompProfile c)\<rparr>))"

definition seccomp_set :: "SeccompProfile option \<Rightarrow> bool" where
  "seccomp_set s = (case s of None \<Rightarrow> False | Some p \<Rightarrow> sec_Type p \<noteq> [])"

definition Pod_IsEmpty :: "PodSecurityContextDefaults option \<Rightarrow> bool" where
  "Pod_IsEmpty p = (case p of
     None \<Rightarrow> True
   | Some p \<Rightarrow>
       \<not> (pod_FSGroup p \<noteq> None \<or> pod_RunAsUser p \<noteq> None \<or> pod_RunAsGroup p \<noteq> None
          \<or> pod_RunAsNonRoot p \<noteq> None \<or> slice_len (pod_SupplementalGroups p) > 0
          \<or> seccomp_set (pod_SeccompProfile p)))"

definition Container_IsEmpty :: "ContainerSecurityContextDefaults option \<Rightarrow> bool" where
  "Container_IsEmpty c = (case c of
     None \<Rightarrow> True
   | Some c \<Rightarrow>
       \<not> (con_RunAsNonRoot c \<noteq> None \<or> con_ReadOnlyRootFilesystem c \<noteq> None
          \<or> con_AllowPrivilegeEscalation c \<noteq> None \<or> slice_len (con_CapabilitiesDrop c) > 0
          \<or> seccomp_set (con_SeccompProfile c) \<or> con_RunAsUser c \<noteq> None \<or> con_RunAsGroup c \<noteq> None))"

definition SecurityContextDefaults_IsEmpty :: "SecurityContextDefaults option \<Rightarrow> bool" where
  "SecurityContextDefaults_IsEmpty s = (case s of
     None \<Rightarrow> True
   | Some s \<Rightarrow>
       (if scd_Pod s = None \<and> scd_Container s = None then True
        else if scd_Pod s \<noteq> None \<and> \<not> Pod_IsEmpty (scd_Pod s) then False
        else if scd_Container s \<noteq> None \<and> \<not> Container_IsEmpty (scd_Container s) then False
        else True))"

lemma SecurityContextDefaults_IsEmpty_iff:
  "SecurityContextDefaults_IsEmpty (Some s) \<longleftrightarrow> Pod_IsEmpty (scd_Pod s) \<and> Container_IsEmpty (scd_Container s)"
  by (auto simp: SecurityContextDefaults_IsEmpty_def Pod_IsEmpty_def Container_IsEmpty_def
      split: option.splits)

lemma ToK8s_None [simp]:
  "Pod_ToK8sSecurityContext None = None" "Container_ToK8sSecurityContext None = None"
  by (simp_all add: Pod_ToK8sSecurityContext_def Container_ToK8sSecurityContext_def)

lemma Pod_ToK8s_eq_None_iff [simp]: "Pod_ToK8sSecurityContext p = None \<longleftrightarrow> p = None"
  by (simp add: Pod_ToK8sSecurityContext_def split: option.splits)

lemma Container_ToK8s_eq_None_iff [simp]: "Container_ToK8sSecurityContext c = None \<longleftrightarrow> c = None"
  by (simp add: Container_ToK8sSecurityContext_def split: option.splits)

lemma slice_len_eq_0_iff: "slice_len xs = 0 \<longleftrightarrow> xs = None \<or> xs = Some []"
  by (cases xs) auto

end
