(* ===== verification/SecurityContextUtil.thy ===== *)
theory SecurityContextUtil
  imports ApiTypes
begin

text \<open>
  \<open>pkg/util/securitycontext/util.go\<close>: merging security contexts and applying them to a pod template.
  The abstract view of a security context is the partial map from its fields to their values;
  the merge functions are specified as overlays of such maps.
\<close>

section \<open>Merging\<close>

text \<open>\<open>if merged.F == nil && extends.F != nil { merged.F = extends.F }\<close>\<close>

definition fill :: "'a option \<Rightarrow> 'a option \<Rightarrow> 'a option" where
  "fill m e = (if m = None \<and> e \<noteq> None then e else m)"

lemma fill_simps [simp]: "fill None e = e" "fill (Some v) e = Some v"
  by (auto simp: fill_def)

lemma fill_None_iff: "fill m e = None \<longleftrightarrow> m = None \<and> e = None"
  by (cases m) auto

lemma fill_ex: "(\<exists>v. fill m e = Some v) \<longleftrightarrow> m \<noteq> None \<or> e \<noteq> None"
  by (cases m) auto

definition merge_pod_fields :: "PodSecurityContext \<Rightarrow> PodSecurityContext \<Rightarrow> PodSecurityContext" where
  "merge_pod_fields base extends = base\<lparr>
     psc_RunAsUser := fill (psc_RunAsUser base) (psc_RunAsUser extends),
     psc_RunAsGroup := fill (psc_RunAsGroup base) (psc_RunAsGroup extends),
     psc_FSGroup := fill (psc_FSGroup base) (psc_FSGroup extends),
     psc_RunAsNonRoot := fill (psc_RunAsNonRoot base) (psc_RunAsNonRoot extends),
     psc_SeccompProfile := fill (psc_SeccompProfile base) (psc_SeccompProfile extends),
     psc_SELinuxOptions := fill (psc_SELinuxOptions base) (psc_SELinuxOptions extends),
     psc_SupplementalGroups := fill (psc_SupplementalGroups base) (psc_SupplementalGroups extends),
     psc_SupplementalGroupsPolicy :=
       fill (psc_SupplementalGroupsPolicy base) (psc_SupplementalGroupsPolicy extends)\<rparr>"

definition MergePodSecurityContexts ::
    "PodSecurityContext option \<Rightarrow> PodSecurityContext option \<Rightarrow> PodSecurityContext option" where
  "MergePodSecurityContexts base extends = (case base of
     None \<Rightarrow> extends
   | Some b \<Rightarrow> (case extends of None \<Rightarrow> Some b | Some e \<Rightarrow> Some (merge_pod_fields b e)))"

text \<open>
  \<open>slices.Collect(maps.Keys(m))\<close>: the keys in the runtime's order \<open>ko\<close>; collecting no elements gives a
  nil slice.
\<close>

definition collect_keys :: "(string list \<Rightarrow> string list) \<Rightarrow> string list \<Rightarrow> string list option" where
  "collect_keys ko ks = (let xs = ko (remdups ks) in if xs = [] then None else Some xs)"

definition merge_capabilities ::
    "(string list \<Rightarrow> string list) \<Rightarrow> Capabilities option \<Rightarrow> Capabilities option \<Rightarrow> Capabilities option" where
  "merge_capabilities ko base extends =
     (let merged = fill base extends in
      case merged of None \<Rightarrow> None | Some m \<Rightarrow>
        (case extends of None \<Rightarrow> Some m | Some e \<Rightarrow>
           (let drop1 = fill (caps_Drop m) (caps_Drop e) in
            case drop1 of None \<Rightarrow> Some m | Some d \<Rightarrow>
              (case caps_Drop e of None \<Rightarrow> Some (m\<lparr>caps_Drop := Some d\<rparr>)
               | Some d' \<Rightarrow> Some (m\<lparr>caps_Drop := collect_keys ko (d @ d')\<rparr>)))))"

text \<open>The code has no statement for \<open>RunAsNonRoot\<close>; the field stays the base's.\<close>

definition merge_container_fields ::
    "(string list \<Rightarrow> string list) \<Rightarrow> SecurityContext \<Rightarrow> SecurityContext \<Rightarrow> SecurityContext" where
  "merge_container_fields ko base extends = base\<lparr>
     sc_RunAsUser := fill (sc_RunAsUser base) (sc_RunAsUser extends),
     sc_RunAsGroup := fill (sc_RunAsGroup base) (sc_RunAsGroup extends),
     sc_Capabilities := merge_capabilities ko (sc_Capabilities base) (sc_Capabilities extends),
     sc_Privileged := fill (sc_Privileged base) (sc_Privileged extends),
     sc_AllowPrivilegeEscalation :=
       fill (sc_AllowPrivilegeEscalation base) (sc_AllowPrivilegeEscalation extends),
     sc_ReadOnlyRootFilesystem :=
       fill (sc_ReadOnlyRootFilesystem base) (sc_ReadOnlyRootFilesystem extends),
     sc_SeccompProfile := fill (sc_SeccompProfile base) (sc_SeccompProfile extends),
     sc_SELinuxOptions := fill (sc_SELinuxOptions base) (sc_SELinuxOptions extends)\<rparr>"

definition MergeContainerSecurityContexts ::
    "(string list \<Rightarrow> string list) \<Rightarrow> SecurityContext option \<Rightarrow> SecurityContext option
     \<Rightarrow> SecurityContext option" where
  "MergeContainerSecurityContexts ko base extends = (case base of
     None \<Rightarrow> extends
   | Some b \<Rightarrow> (case extends of None \<Rightarrow> Some b | Some e \<Rightarrow> Some (merge_container_fields ko b e)))"

section \<open>Applying contexts to a workload\<close>

definition apply_container ::
    "(string list \<Rightarrow> string list) \<Rightarrow> SecurityContext option \<Rightarrow> Container \<Rightarrow> Container" where
  "apply_container ko ext c = c\<lparr>ctr_SecurityContext :=
     (case ctr_SecurityContext c of
        None \<Rightarrow> ext
      | Some b \<Rightarrow> MergeContainerSecurityContexts ko (Some b) ext)\<rparr>"

definition apply_pod :: "PodSecurityContext option \<Rightarrow> PodSpec \<Rightarrow> PodSpec" where
  "apply_pod ext ps = ps\<lparr>ps_SecurityContext :=
     (case ps_SecurityContext ps of
        None \<Rightarrow> ext
      | Some b \<Rightarrow> MergePodSecurityContexts (Some b) ext)\<rparr>"

definition ApplySecurityContextToPodSpec ::
    "(string list \<Rightarrow> string list) \<Rightarrow> PodSpec \<Rightarrow> ContainerSecurityContextDefaults option
     \<Rightarrow> PodSecurityContextDefaults option \<Rightarrow> PodSpec" where
  "ApplySecurityContextToPodSpec ko ps con pod =
     (let ps1 = apply_pod (Pod_ToK8sSecurityContext pod) ps;
          ext = Container_ToK8sSecurityContext con in
      ps1\<lparr>ps_Containers := map (apply_container ko ext) (ps_Containers ps1),
          ps_InitContainers := map (apply_container ko ext) (ps_InitContainers ps1)\<rparr>)"

definition ApplyCheckSecurityContext ::
    "(string list \<Rightarrow> string list) \<Rightarrow> Workload \<Rightarrow> ContainerSecurityContextDefaults option
     \<Rightarrow> PodSecurityContextDefaults option \<Rightarrow> error + Workload" where
  "ApplyCheckSecurityContext ko wl con pod =
     (case wl_Kind wl of
        OtherObject \<Rightarrow> Inl (Errorf ''kind of workloadUnderTest not supported'')
      | _ \<Rightarrow> Inr (wl\<lparr>wl_Template := ApplySecurityContextToPodSpec ko (wl_Template wl) con pod\<rparr>))"

definition ApplySecurityContext ::
    "(string list \<Rightarrow> string list) \<Rightarrow> Workload \<Rightarrow> SecurityContext option
     \<Rightarrow> PodSecurityContext option \<Rightarrow> error + Workload" where
  "ApplySecurityContext ko wl con pod =
     (case wl_Kind wl of
        OtherObject \<Rightarrow> Inl (Errorf ''supported workload kind, with empty podSpecTemplate'')
      | _ \<Rightarrow> Inr (wl\<lparr>wl_Template :=
               (let ps1 = apply_pod pod (wl_Template wl) in
                ps1\<lparr>ps_Containers := map (apply_container ko con) (ps_Containers ps1),
                    ps_InitContainers := map (apply_container ko con) (ps_InitContainers ps1)\<rparr>)\<rparr>))"

section \<open>The abstract view\<close>

datatype FieldValue =
    VId int64
  | VFlag bool
  | VIds "int64 list"
  | VText string
  | VSeccomp K8sSeccompProfile
  | VCaps Capabilities

datatype PodField =
    PF_FSGroup | PF_RunAsUser | PF_RunAsGroup | PF_RunAsNonRoot | PF_SupplementalGroups
  | PF_SupplementalGroupsPolicy | PF_SeccompProfile | PF_SELinuxOptions

datatype ConField =
    CF_Capabilities | CF_Privileged | CF_SELinuxOptions | CF_RunAsUser | CF_RunAsGroup
  | CF_RunAsNonRoot | CF_ReadOnlyRootFilesystem | CF_AllowPrivilegeEscalation | CF_SeccompProfile

fun pod_view :: "PodSecurityContext \<Rightarrow> PodField \<Rightarrow> FieldValue option" where
  "pod_view p PF_FSGroup = map_option VId (psc_FSGroup p)"
| "pod_view p PF_RunAsUser = map_option VId (psc_RunAsUser p)"
| "pod_view p PF_RunAsGroup = map_option VId (psc_RunAsGroup p)"
| "pod_view p PF_RunAsNonRoot = map_option VFlag (psc_RunAsNonRoot p)"
| "pod_view p PF_SupplementalGroups = map_option VIds (psc_SupplementalGroups p)"
| "pod_view p PF_SupplementalGroupsPolicy = map_option VText (psc_SupplementalGroupsPolicy p)"
| "pod_view p PF_SeccompProfile = map_option VSeccomp (psc_SeccompProfile p)"
| "pod_view p PF_SELinuxOptions = map_option VText (psc_SELinuxOptions p)"

fun con_view :: "SecurityContext \<Rightarrow> ConField \<Rightarrow> FieldValue option" where
  "con_view c CF_Capabilities = map_option VCaps (sc_Capabilities c)"
| "con_view c CF_Privileged = map_option VFlag (sc_Privileged c)"
| "con_view c CF_SELinuxOptions = map_option VText (sc_SELinuxOptions c)"
| "con_view c CF_RunAsUser = map_option VId (sc_RunAsUser c)"
| "con_view c CF_RunAsGroup = map_option VId (sc_RunAsGroup c)"
| "con_view c CF_RunAsNonRoot = map_option VFlag (sc_RunAsNonRoot c)"
| "con_view c CF_ReadOnlyRootFilesystem = map_option VFlag (sc_ReadOnlyRootFilesystem c)"
| "con_view c CF_AllowPrivilegeEscalation = map_option VFlag (sc_AllowPrivilegeEscalation c)"
| "con_view c CF_SeccompProfile = map_option VSeccomp (sc_SeccompProfile c)"

text \<open>Two contexts agree where both set a field.\<close>

definition agree :: "'f set \<Rightarrow> ('f \<Rightarrow> 'v option) \<Rightarrow> ('f \<Rightarrow> 'v option) \<Rightarrow> bool" where
  "agree F m n \<longleftrightarrow> (\<forall>f \<in> F. \<forall>v u. m f = Some v \<and> n f = Some u \<longrightarrow> v = u)"

subsection \<open>Overlays\<close>

text \<open>
  The contract of a merge: on the fields \<open>keep\<close>, a field the base sets stays the base's, a field it
  leaves open is the extension's. What follows from it: the result of a sequence of merges is the
  first context that sets the field, merging twice is merging once, and the order of extensions
  that agree does not matter.
\<close>

locale overlay =
  fixes merge :: "'c \<Rightarrow> 'c \<Rightarrow> 'c"
    and view :: "'c \<Rightarrow> 'f \<Rightarrow> 'v option"
    and keep :: "'f set"
  assumes view_merge: "f \<in> keep \<Longrightarrow> view (merge b e) f = fill (view b f) (view e f)"
begin

fun first_set :: "'f \<Rightarrow> 'c list \<Rightarrow> 'v option" where
  "first_set f [] = None"
| "first_set f (c # cs) = fill (view c f) (first_set f cs)"

lemma view_foldl_merge:
  "f \<in> keep \<Longrightarrow> view (foldl merge b es) f = fill (view b f) (first_set f es)"
proof (induction es arbitrary: b)
  case Nil
  then show ?case by (cases "view b f") auto
next
  case (Cons e es)
  then show ?case by (cases "view b f") (auto simp: view_merge)
qed

lemma base_wins: "f \<in> keep \<Longrightarrow> view b f = Some v \<Longrightarrow> view (foldl merge b es) f = Some v"
  by (simp add: view_foldl_merge)

lemma merge_assoc:
  "f \<in> keep \<Longrightarrow> view (merge (merge a b) c) f = view (merge a (merge b c)) f"
  by (cases "view a f") (auto simp: view_merge)

lemma merge_idem: "f \<in> keep \<Longrightarrow> view (merge (merge a b) b) f = view (merge a b) f"
  by (cases "view a f"; cases "view b f") (auto simp: view_merge)

lemma first_set_Some_in: "first_set f es = Some v \<Longrightarrow> \<exists>e \<in> set es. view e f = Some v"
proof (induction es)
  case Nil
  then show ?case by simp
next
  case (Cons e es)
  then show ?case by (cases "view e f") auto
qed

lemma first_set_None_iff: "first_set f es = None \<longleftrightarrow> (\<forall>e \<in> set es. view e f = None)"
proof (induction es)
  case Nil
  then show ?case by simp
next
  case (Cons e es)
  then show ?case by (cases "view e f") auto
qed

lemma value_from_extension:
  assumes "f \<in> keep" "view b f = None" "view (foldl merge b es) f = Some v"
  shows "\<exists>e \<in> set es. view e f = Some v"
  using assms first_set_Some_in [of f es v] by (simp add: view_foldl_merge)

lemma open_if_all_open:
  assumes "f \<in> keep" "view (foldl merge b es) f = None"
  shows "\<forall>e \<in> set es. view e f = None"
  using assms first_set_None_iff [of f es] by (simp add: view_foldl_merge fill_None_iff)

lemma first_set_perm:
  assumes agree: "\<And>a b. a \<in> set es \<Longrightarrow> b \<in> set es \<Longrightarrow> agree keep (view a) (view b)"
    and f: "f \<in> keep" and same: "set es = set es'"
  shows "first_set f es = first_set f es'"
proof (cases "first_set f es")
  case None
  then have "first_set f es' = None" using same by (simp add: first_set_None_iff)
  with None show ?thesis by simp
next
  case (Some v)
  then obtain a where a: "a \<in> set es" "view a f = Some v"
    using first_set_Some_in by blast
  then have "first_set f es' \<noteq> None" using same by (auto simp: first_set_None_iff)
  then obtain u b where u: "first_set f es' = Some u" and b: "b \<in> set es'" "view b f = Some u"
    using first_set_Some_in by blast
  have "u = v" using agree [OF a(1)] b a(2) f same by (auto simp: agree_def)
  with Some u show ?thesis by simp
qed

lemma foldl_merge_perm:
  assumes "\<And>a b. a \<in> set es \<Longrightarrow> b \<in> set es \<Longrightarrow> agree keep (view a) (view b)"
    and "f \<in> keep" and "set es = set es'"
  shows "view (foldl merge b es) f = view (foldl merge b es') f"
  using first_set_perm [OF assms] assms(2) by (simp add: view_foldl_merge)

end

lemma map_option_fill: "map_option g (fill m e) = fill (map_option g m) (map_option g e)"
  by (cases m) auto

interpretation pod_overlay: overlay merge_pod_fields pod_view UNIV
proof unfold_locales
  fix f b e
  show "pod_view (merge_pod_fields b e) f = fill (pod_view b f) (pod_view e f)"
    by (cases f) (simp_all add: merge_pod_fields_def map_option_fill)
qed

definition con_kept :: "ConField set" where
  "con_kept = UNIV - {CF_Capabilities, CF_RunAsNonRoot}"

interpretation con_overlay: overlay "merge_container_fields ko" con_view con_kept for ko
proof unfold_locales
  fix f b e
  assume "f \<in> con_kept"
  then show "con_view (merge_container_fields ko b e) f = fill (con_view b f) (con_view e f)"
    by (cases f) (simp_all add: con_kept_def merge_container_fields_def map_option_fill)
qed

subsection \<open>Capabilities\<close>

definition dropped :: "SecurityContext \<Rightarrow> string set" where
  "dropped c = (case sc_Capabilities c of None \<Rightarrow> {} | Some k \<Rightarrow>
     (case caps_Drop k of None \<Rightarrow> {} | Some d \<Rightarrow> set d))"

lemma set_collect_keys:
  "is_order ko \<Longrightarrow> (case collect_keys ko ks of None \<Rightarrow> {} | Some d \<Rightarrow> set d) = set ks"
  using is_order_set [of ko "remdups ks"] is_order_Nil_iff [of ko "remdups ks"]
  by (auto simp: collect_keys_def Let_def)

lemma collect_keys_distinct:
  "is_order ko \<Longrightarrow> collect_keys ko ks = Some d \<Longrightarrow> distinct d"
  by (auto simp: collect_keys_def Let_def is_order_distinct split: if_splits)

lemma dropped_merge:
  assumes "is_order ko"
  shows "dropped (merge_container_fields ko b e) = dropped b \<union> dropped e"
proof (cases "sc_Capabilities b")
  case None
  then show ?thesis
    using set_collect_keys [OF assms]
    by (auto simp: dropped_def merge_container_fields_def merge_capabilities_def Let_def
        split: option.splits)
next
  case (Some k)
  then show ?thesis
    using set_collect_keys [OF assms]
    by (cases "caps_Drop k")
      (auto simp: dropped_def merge_container_fields_def merge_capabilities_def Let_def
        split: option.splits)
qed

lemma merge_keeps_Add:
  "sc_Capabilities b = Some k \<Longrightarrow>
   \<exists>k'. sc_Capabilities (merge_container_fields ko b e) = Some k' \<and> caps_Add k' = caps_Add k"
  by (auto simp: merge_container_fields_def merge_capabilities_def Let_def split: option.splits)

lemma merge_container_RunAsNonRoot [simp]:
  "sc_RunAsNonRoot (merge_container_fields ko b e) = sc_RunAsNonRoot b"
  by (simp add: merge_container_fields_def)

lemma merge_container_other [simp]: "sc_other (merge_container_fields ko b e) = sc_other b"
  by (simp add: merge_container_fields_def)

lemma merge_pod_other [simp]: "psc_other (merge_pod_fields b e) = psc_other b"
  by (simp add: merge_pod_fields_def)

section \<open>What applying a context does\<close>

text \<open>The view of a pointer to a context: nil sets no field.\<close>

definition view_opt :: "('c \<Rightarrow> 'f \<Rightarrow> 'v option) \<Rightarrow> 'c option \<Rightarrow> 'f \<Rightarrow> 'v option" where
  "view_opt view c f = (case c of None \<Rightarrow> None | Some x \<Rightarrow> view x f)"

lemma view_opt_simps [simp]: "view_opt view None f = None" "view_opt view (Some c) f = view c f"
  by (simp_all add: view_opt_def)

lemma MergePod_view:
  "view_opt pod_view (MergePodSecurityContexts b e) f = fill (view_opt pod_view b f) (view_opt pod_view e f)"
  by (cases b; cases e) (auto simp: MergePodSecurityContexts_def pod_overlay.view_merge fill_def)

lemma MergeContainer_view:
  "f \<in> con_kept \<Longrightarrow> view_opt con_view (MergeContainerSecurityContexts ko b e) f =
     fill (view_opt con_view b f) (view_opt con_view e f)"
  by (cases b; cases e) (auto simp: MergeContainerSecurityContexts_def con_overlay.view_merge fill_def)

lemma apply_pod_view:
  "view_opt pod_view (ps_SecurityContext (apply_pod ext ps)) f =
   fill (view_opt pod_view (ps_SecurityContext ps) f) (view_opt pod_view ext f)"
  by (auto simp: apply_pod_def MergePod_view split: option.splits)

lemma apply_container_view:
  "f \<in> con_kept \<Longrightarrow> view_opt con_view (ctr_SecurityContext (apply_container ko ext c)) f =
   fill (view_opt con_view (ctr_SecurityContext c) f) (view_opt con_view ext f)"
  by (auto simp: apply_container_def MergeContainer_view split: option.splits)

lemma apply_container_frame [simp]:
  "ctr_Name (apply_container ko ext c) = ctr_Name c"
  "ctr_other (apply_container ko ext c) = ctr_other c"
  by (simp_all add: apply_container_def)

lemma apply_pod_frame [simp]:
  "ps_Containers (apply_pod ext ps) = ps_Containers ps"
  "ps_InitContainers (apply_pod ext ps) = ps_InitContainers ps"
  "ps_NodeName (apply_pod ext ps) = ps_NodeName ps"
  "ps_other (apply_pod ext ps) = ps_other ps"
  by (simp_all add: apply_pod_def)

lemma Apply_pod_context [simp]:
  "ps_SecurityContext (ApplySecurityContextToPodSpec ko ps con pod) =
   ps_SecurityContext (apply_pod (Pod_ToK8sSecurityContext pod) ps)"
  by (simp add: ApplySecurityContextToPodSpec_def Let_def)

lemma Apply_containers [simp]:
  "ps_Containers (ApplySecurityContextToPodSpec ko ps con pod) =
   map (apply_container ko (Container_ToK8sSecurityContext con)) (ps_Containers ps)"
  "ps_InitContainers (ApplySecurityContextToPodSpec ko ps con pod) =
   map (apply_container ko (Container_ToK8sSecurityContext con)) (ps_InitContainers ps)"
  by (simp_all add: ApplySecurityContextToPodSpec_def Let_def)

text \<open>What applying the container context \<open>ext\<close> may change in a container.\<close>

definition container_overlaid :: "SecurityContext option \<Rightarrow> Container \<Rightarrow> Container \<Rightarrow> bool" where
  "container_overlaid ext c c' \<longleftrightarrow>
     ctr_Name c' = ctr_Name c \<and> ctr_other c' = ctr_other c
     \<and> (\<forall>f \<in> con_kept. view_opt con_view (ctr_SecurityContext c') f =
           fill (view_opt con_view (ctr_SecurityContext c) f) (view_opt con_view ext f))
     \<and> (\<forall>b e. ctr_SecurityContext c = Some b \<and> ext = Some e \<longrightarrow>
           (\<exists>r. ctr_SecurityContext c' = Some r \<and> dropped r = dropped b \<union> dropped e))"

lemma apply_container_overlaid: "is_order ko \<Longrightarrow> container_overlaid ext c (apply_container ko ext c)"
  using apply_container_view [of _ ko ext c]
  by (auto simp: container_overlaid_def apply_container_def MergeContainerSecurityContexts_def dropped_merge)


text \<open>A container and a pod for the instances below.\<close>

definition sample_container :: Container where
  "sample_container = \<lparr>ctr_Name = ''app'', ctr_SecurityContext = Some (empty_sc\<lparr>sc_RunAsUser := Some 7\<rparr>),
     ctr_other = []\<rparr>"

definition sample_pod :: PodSpec where
  "sample_pod = \<lparr>ps_SecurityContext = None, ps_Containers = [sample_container], ps_InitContainers = [],
     ps_NodeName = [], ps_other = []\<rparr>"

definition sample_con_defaults :: ContainerSecurityContextDefaults where
  "sample_con_defaults = empty_con_defaults\<lparr>con_RunAsUser := Some 1000, con_RunAsNonRoot := Some True,
     con_CapabilitiesDrop := Some [''ALL'']\<rparr>"

lemmas sample_defs = sample_container_def sample_pod_def sample_con_defaults_def empty_contexts


text \<open>
  The container merge has no case for \<open>runAsNonRoot\<close>: whatever the defaults say, a container (or
  init container) that already has a security context keeps its own \<open>runAsNonRoot\<close>, open or not,
  unlike every field of the pod-level merge.
\<close>

theorem ApplySecurityContextToPodSpec_ignores_RunAsNonRoot:
  fixes ps con pod ko
  assumes "c \<in> set (ps_Containers ps @ ps_InitContainers ps)" and "ctr_SecurityContext c = Some b"
  shows "\<exists>c' \<in> set (ps_Containers (ApplySecurityContextToPodSpec ko ps con pod)
              @ ps_InitContainers (ApplySecurityContextToPodSpec ko ps con pod)).
           ctr_Name c' = ctr_Name c
           \<and> (\<exists>b'. ctr_SecurityContext c' = Some b' \<and> sc_RunAsNonRoot b' = sc_RunAsNonRoot b)"
proof -
  let ?c = "apply_container ko (Container_ToK8sSecurityContext con) c"
  have "\<exists>b'. ctr_SecurityContext ?c = Some b' \<and> sc_RunAsNonRoot b' = sc_RunAsNonRoot b"
    using assms(2) by (simp add: apply_container_def MergeContainerSecurityContexts_def split: option.splits)
  then show ?thesis using assms(1) by (intro bexI [of _ ?c]) auto
qed

theorem ApplySecurityContextToPodSpec_ignores_RunAsNonRoot_witness:
  "\<exists>c' \<in> set (ps_Containers (ApplySecurityContextToPodSpec rev sample_pod (Some sample_con_defaults) None)).
     ctr_Name c' = ''app'' \<and> (\<exists>b'. ctr_SecurityContext c' = Some b' \<and> sc_RunAsNonRoot b' = None)"
  using ApplySecurityContextToPodSpec_ignores_RunAsNonRoot
    [of sample_container sample_pod "empty_sc\<lparr>sc_RunAsUser := Some 7\<rparr>" rev "Some sample_con_defaults" None]
  by (simp add: sample_defs)

end
