(* ===== verification/Checks.thy ===== *)
theory Checks
  imports SecurityContextUtil
begin

text \<open>
  \<open>pkg/checks\<close>: the five hardening checks and their registry. A check's
  \<open>GetSecurityContextDefaults\<close> mutates the object it is given and returns the same pointer, and it
  panics when \<open>Pod\<close> or \<open>Container\<close> is nil, possibly after having written the other half; its model
  maps an object to the outcome and the object after the call. The contract all checks share is the
  locale \<open>hardening_check\<close>, interpreted once per check.
\<close>

type_synonym defaults_method = "SecurityContextDefaults \<Rightarrow> unit outcome \<times> SecurityContextDefaults"

definition nil_deref :: string where
  "nil_deref = ''invalid memory address or nil pointer dereference''"

text \<open>\<open>if x == nil { x = v }\<close>\<close>

definition set_default :: "'a option \<Rightarrow> 'a \<Rightarrow> 'a option" where
  "set_default x v = (case x of None \<Rightarrow> Some v | Some y \<Rightarrow> Some y)"

lemma set_default_simps [simp]:
  "set_default None v = Some v" "set_default (Some y) v = Some y"
  "set_default x v \<noteq> None" "set_default (set_default x v) u = set_default x v"
  by (auto simp: set_default_def split: option.splits)

lemma map_option_set_default [simp]:
  "map_option g (set_default x v) = set_default (map_option g x) (g v)"
  by (cases x) auto

lemma set_default_ex [simp]: "\<exists>y. set_default x v = Some y"
  by (cases x) auto

lemma set_default_Some_iff:
  "set_default x v = Some u \<longleftrightarrow> x = Some u \<or> (x = None \<and> v = u)"
  by (cases x) auto

text \<open>Statements on \<open>baseSecurityContext.Pod\<close> and \<open>baseSecurityContext.Container\<close>.\<close>

definition with_pod ::
    "(PodSecurityContextDefaults \<Rightarrow> PodSecurityContextDefaults) \<Rightarrow> defaults_method" where
  "with_pod f s = (case scd_Pod s of
     None \<Rightarrow> (Panic nil_deref, s)
   | Some p \<Rightarrow> (Ret (), s\<lparr>scd_Pod := Some (f p)\<rparr>))"

definition with_container ::
    "(ContainerSecurityContextDefaults \<Rightarrow> ContainerSecurityContextDefaults) \<Rightarrow> defaults_method" where
  "with_container f s = (case scd_Container s of
     None \<Rightarrow> (Panic nil_deref, s)
   | Some c \<Rightarrow> (Ret (), s\<lparr>scd_Container := Some (f c)\<rparr>))"

definition then_do :: "defaults_method \<Rightarrow> defaults_method \<Rightarrow> defaults_method" where
  "then_do m n s = (case m s of (Ret _, s') \<Rightarrow> n s' | (Panic x, s') \<Rightarrow> (Panic x, s') | (NoReturn, s') \<Rightarrow> (NoReturn, s'))"

section \<open>UserCheck\<close>

definition UserCheck_GetType :: string where "UserCheck_GetType = ''user''"

definition UserCheck_GetSecurityContextDefaults :: defaults_method where
  "UserCheck_GetSecurityContextDefaults = then_do
     (with_pod (\<lambda>p. p\<lparr>pod_RunAsUser := set_default (pod_RunAsUser p) 1000,
                      pod_RunAsNonRoot := set_default (pod_RunAsNonRoot p) True\<rparr>))
     (with_container (\<lambda>c. c\<lparr>con_RunAsUser := set_default (con_RunAsUser c) 1000,
                            con_RunAsNonRoot := set_default (con_RunAsNonRoot c) True\<rparr>))"

definition UserCheck_ShouldRun :: "PodSpec \<Rightarrow> bool" where
  "UserCheck_ShouldRun ps = (case ps_SecurityContext ps of
     None \<Rightarrow> True
   | Some s \<Rightarrow> psc_RunAsUser s = None \<or> psc_RunAsNonRoot s = None)"

section \<open>GroupCheck\<close>

definition GroupCheck_GetType :: string where "GroupCheck_GetType = ''group''"

definition group_pod_defaults :: "PodSecurityContextDefaults \<Rightarrow> PodSecurityContextDefaults" where
  "group_pod_defaults p =
     (let p1 = p\<lparr>pod_RunAsUser := set_default (pod_RunAsUser p) 1000\<rparr>;
          p2 = p1\<lparr>pod_RunAsGroup := fill (pod_RunAsGroup p1) (pod_RunAsUser p1)\<rparr>
      in p2\<lparr>pod_FSGroup := fill (pod_FSGroup p2) (pod_RunAsGroup p2)\<rparr>)"

text \<open>The container half reads the pod's values, after the pod half has set them.\<close>

definition GroupCheck_GetSecurityContextDefaults :: defaults_method where
  "GroupCheck_GetSecurityContextDefaults = then_do
     (with_pod group_pod_defaults)
     (\<lambda>s. case scd_Pod s of
        None \<Rightarrow> (Panic nil_deref, s)
      | Some p \<Rightarrow> with_container (\<lambda>c. c\<lparr>con_RunAsUser := fill (con_RunAsUser c) (pod_RunAsUser p),
                                         con_RunAsGroup := fill (con_RunAsGroup c) (pod_RunAsGroup p)\<rparr>) s)"

definition GroupCheck_ShouldRun :: "PodSpec \<Rightarrow> bool" where
  "GroupCheck_ShouldRun ps = (case ps_SecurityContext ps of
     None \<Rightarrow> True
   | Some s \<Rightarrow> psc_RunAsGroup s = None \<or> psc_FSGroup s = None)"

section \<open>ReadOnlyRootFilesystemCheck\<close>

definition ReadOnlyRootFilesystemCheck_GetType :: string where
  "ReadOnlyRootFilesystemCheck_GetType = ''readOnlyRootFilesystem''"

definition ReadOnlyRootFilesystemCheck_GetSecurityContextDefaults :: defaults_method where
  "ReadOnlyRootFilesystemCheck_GetSecurityContextDefaults =
     with_container (\<lambda>c. c\<lparr>con_ReadOnlyRootFilesystem := set_default (con_ReadOnlyRootFilesystem c) True\<rparr>)"

fun read_only_missing :: "Container list \<Rightarrow> bool" where
  "read_only_missing [] = False"
| "read_only_missing (c # cs) =
     (case ctr_SecurityContext c of
        Some s \<Rightarrow>
          (if sc_ReadOnlyRootFilesystem s = None \<or> sc_ReadOnlyRootFilesystem s = Some False then True
           else read_only_missing cs)
      | None \<Rightarrow> True)"

definition ReadOnlyRootFilesystemCheck_ShouldRun :: "PodSpec \<Rightarrow> bool" where
  "ReadOnlyRootFilesystemCheck_ShouldRun ps = read_only_missing (ps_Containers ps)"

section \<open>AllowPrivilegeEscalationCheck\<close>

definition AllowPrivilegeEscalationCheck_GetType :: string where
  "AllowPrivilegeEscalationCheck_GetType = ''allowPrivilegeEscalation''"

definition AllowPrivilegeEscalationCheck_GetSecurityContextDefaults :: defaults_method where
  "AllowPrivilegeEscalationCheck_GetSecurityContextDefaults =
     with_container
       (\<lambda>c. c\<lparr>con_AllowPrivilegeEscalation := set_default (con_AllowPrivilegeEscalation c) False\<rparr>)"

fun escalation_open :: "Container list \<Rightarrow> bool" where
  "escalation_open [] = False"
| "escalation_open (c # cs) =
     (case ctr_SecurityContext c of
        Some s \<Rightarrow>
          (if sc_AllowPrivilegeEscalation s = None \<or> sc_AllowPrivilegeEscalation s = Some True then True
           else escalation_open cs)
      | None \<Rightarrow> True)"

definition AllowPrivilegeEscalationCheck_ShouldRun :: "PodSpec \<Rightarrow> bool" where
  "AllowPrivilegeEscalationCheck_ShouldRun ps = escalation_open (ps_Containers ps)"

section \<open>The registry and DropAllCapabilitiesCheck\<close>

record CheckInterface =
  GetType :: string
  GetSecurityContextDefaults :: defaults_method
  ShouldRun :: "PodSpec \<Rightarrow> bool"

type_synonym registry = "(string, CheckInterface) gomap"

definition RegisterCheck :: "CheckInterface \<Rightarrow> registry \<Rightarrow> registry" where
  "RegisterCheck check checks = AList.update (GetType check) check checks"

definition registerCapabilityCheck :: "CheckInterface \<Rightarrow> registry \<Rightarrow> error option \<times> registry" where
  "registerCapabilityCheck check caps =
     (if map_of caps (GetType check) \<noteq> None
      then (Some (Errorf (''check of type '' @ GetType check @ '' already registered'')), caps)
      else (None, AList.update (GetType check) check caps))"

definition DropAllCapabilitiesCheck_GetType :: string where
  "DropAllCapabilitiesCheck_GetType = ''dropAllCapabilities''"

definition DropAllCapabilitiesCheck_GetSecurityContextDefaults :: defaults_method where
  "DropAllCapabilitiesCheck_GetSecurityContextDefaults =
     with_container (\<lambda>c. c\<lparr>con_CapabilitiesDrop := set_default (con_CapabilitiesDrop c) [''ALL'']\<rparr>)"

fun nothing_dropped :: "Container list \<Rightarrow> bool" where
  "nothing_dropped [] = False"
| "nothing_dropped (c # cs) =
     (case ctr_SecurityContext c of
        Some s \<Rightarrow>
          (case sc_Capabilities s of
             None \<Rightarrow> True
           | Some k \<Rightarrow> (if slice_len (caps_Drop k) = 0 then True else nothing_dropped cs))
      | None \<Rightarrow> True)"

fun register_capability_checks :: "PodSpec \<Rightarrow> CheckInterface list \<Rightarrow> registry \<Rightarrow> registry" where
  "register_capability_checks ps [] checks = checks"
| "register_capability_checks ps (k # ks) checks =
     register_capability_checks ps ks (if ShouldRun k ps then RegisterCheck k checks else checks)"

text \<open>
  The method also registers capability checks when every container drops something. The map
  \<open>capabilityChecks\<close> it ranges over is empty in the program: nothing calls
  \<open>registerCapabilityCheck\<close>.
\<close>

definition DropAllCapabilitiesCheck_ShouldRun :: "registry \<Rightarrow> registry \<Rightarrow> PodSpec \<Rightarrow> bool \<times> registry" where
  "DropAllCapabilitiesCheck_ShouldRun caps checks ps =
     (if nothing_dropped (ps_Containers ps) then (True, checks)
      else (False, register_capability_checks ps (map snd caps) checks))"

lemma DropAll_ShouldRun_program:
  "DropAllCapabilitiesCheck_ShouldRun [] checks ps = (nothing_dropped (ps_Containers ps), checks)"
  by (simp add: DropAllCapabilitiesCheck_ShouldRun_def)

definition UserCheck :: CheckInterface where
  "UserCheck = \<lparr>GetType = UserCheck_GetType,
     GetSecurityContextDefaults = UserCheck_GetSecurityContextDefaults,
     ShouldRun = UserCheck_ShouldRun\<rparr>"

definition GroupCheck :: CheckInterface where
  "GroupCheck = \<lparr>GetType = GroupCheck_GetType,
     GetSecurityContextDefaults = GroupCheck_GetSecurityContextDefaults,
     ShouldRun = GroupCheck_ShouldRun\<rparr>"

definition ReadOnlyRootFilesystemCheck :: CheckInterface where
  "ReadOnlyRootFilesystemCheck = \<lparr>GetType = ReadOnlyRootFilesystemCheck_GetType,
     GetSecurityContextDefaults = ReadOnlyRootFilesystemCheck_GetSecurityContextDefaults,
     ShouldRun = ReadOnlyRootFilesystemCheck_ShouldRun\<rparr>"

definition AllowPrivilegeEscalationCheck :: CheckInterface where
  "AllowPrivilegeEscalationCheck = \<lparr>GetType = AllowPrivilegeEscalationCheck_GetType,
     GetSecurityContextDefaults = AllowPrivilegeEscalationCheck_GetSecurityContextDefaults,
     ShouldRun = AllowPrivilegeEscalationCheck_ShouldRun\<rparr>"

definition DropAllCapabilitiesCheck :: CheckInterface where
  "DropAllCapabilitiesCheck = \<lparr>GetType = DropAllCapabilitiesCheck_GetType,
     GetSecurityContextDefaults = DropAllCapabilitiesCheck_GetSecurityContextDefaults,
     ShouldRun = (\<lambda>ps. fst (DropAllCapabilitiesCheck_ShouldRun [] [] ps))\<rparr>"

text \<open>The registry after the package's \<open>init\<close> functions (run in file-name order).\<close>

definition GetAllChecks :: registry where
  "GetAllChecks =
     RegisterCheck UserCheck (RegisterCheck ReadOnlyRootFilesystemCheck (RegisterCheck GroupCheck
       (RegisterCheck DropAllCapabilitiesCheck (RegisterCheck AllowPrivilegeEscalationCheck []))))"

lemmas check_types =
  UserCheck_GetType_def GroupCheck_GetType_def ReadOnlyRootFilesystemCheck_GetType_def
  AllowPrivilegeEscalationCheck_GetType_def DropAllCapabilitiesCheck_GetType_def

lemmas check_records =
  UserCheck_def GroupCheck_def ReadOnlyRootFilesystemCheck_def AllowPrivilegeEscalationCheck_def
  DropAllCapabilitiesCheck_def

lemmas check_defaults =
  UserCheck_GetSecurityContextDefaults_def GroupCheck_GetSecurityContextDefaults_def
  ReadOnlyRootFilesystemCheck_GetSecurityContextDefaults_def
  AllowPrivilegeEscalationCheck_GetSecurityContextDefaults_def
  DropAllCapabilitiesCheck_GetSecurityContextDefaults_def

lemma GetAllChecks_eq: "GetAllChecks =
   [(''allowPrivilegeEscalation'', AllowPrivilegeEscalationCheck),
    (''dropAllCapabilities'', DropAllCapabilitiesCheck), (''group'', GroupCheck),
    (''readOnlyRootFilesystem'', ReadOnlyRootFilesystemCheck), (''user'', UserCheck)]"
  by (simp add: GetAllChecks_def RegisterCheck_def check_records check_types)

lemma GetAllChecks_types:
  "(t, c) \<in> set GetAllChecks \<Longrightarrow> GetType c = t"
  unfolding GetAllChecks_eq list.set by (elim insertE emptyE) (simp_all add: check_records check_types)

section \<open>The contract of a check\<close>

text \<open>
  The view of a defaults object: which fields the user or a check has fixed, pod and container
  fields side by side.
\<close>

datatype DefField = PodF PodField | ConF ConField

fun pd_view :: "PodSecurityContextDefaults \<Rightarrow> PodField \<Rightarrow> FieldValue option" where
  "pd_view p PF_FSGroup = map_option VId (pod_FSGroup p)"
| "pd_view p PF_RunAsUser = map_option VId (pod_RunAsUser p)"
| "pd_view p PF_RunAsGroup = map_option VId (pod_RunAsGroup p)"
| "pd_view p PF_RunAsNonRoot = map_option VFlag (pod_RunAsNonRoot p)"
| "pd_view p PF_SupplementalGroups = map_option VIds (pod_SupplementalGroups p)"
| "pd_view p PF_SupplementalGroupsPolicy = None"
| "pd_view p PF_SeccompProfile = map_option (VSeccomp \<circ> seccomp_to_k8s) (pod_SeccompProfile p)"
| "pd_view p PF_SELinuxOptions = None"

fun cd_view :: "ContainerSecurityContextDefaults \<Rightarrow> ConField \<Rightarrow> FieldValue option" where
  "cd_view c CF_Capabilities = (if slice_len (con_CapabilitiesDrop c) > 0
     then Some (VCaps \<lparr>caps_Add = None, caps_Drop = con_CapabilitiesDrop c\<rparr>) else None)"
| "cd_view c CF_Privileged = None"
| "cd_view c CF_SELinuxOptions = None"
| "cd_view c CF_RunAsUser = map_option VId (con_RunAsUser c)"
| "cd_view c CF_RunAsGroup = map_option VId (con_RunAsGroup c)"
| "cd_view c CF_RunAsNonRoot = map_option VFlag (con_RunAsNonRoot c)"
| "cd_view c CF_ReadOnlyRootFilesystem = map_option VFlag (con_ReadOnlyRootFilesystem c)"
| "cd_view c CF_AllowPrivilegeEscalation = map_option VFlag (con_AllowPrivilegeEscalation c)"
| "cd_view c CF_SeccompProfile = map_option (VSeccomp \<circ> seccomp_to_k8s) (con_SeccompProfile c)"

fun scd_view :: "SecurityContextDefaults \<Rightarrow> DefField \<Rightarrow> FieldValue option" where
  "scd_view s (PodF f) = (case scd_Pod s of None \<Rightarrow> None | Some p \<Rightarrow> pd_view p f)"
| "scd_view s (ConF f) = (case scd_Container s of None \<Rightarrow> None | Some c \<Rightarrow> cd_view c f)"

text \<open>The view is what the conversion to a Kubernetes context shows.\<close>

lemma pod_view_ToK8s:
  "Pod_ToK8sSecurityContext (Some p) = Some k \<Longrightarrow> pod_view k f = pd_view p f"
  by (cases f) (auto simp: Pod_ToK8sSecurityContext_def empty_psc_def option.map_comp)

lemma con_view_ToK8s:
  "Container_ToK8sSecurityContext (Some c) = Some k \<Longrightarrow> con_view k f = cd_view c f"
  by (cases f) (auto simp: Container_ToK8sSecurityContext_def empty_sc_def option.map_comp)

lemma def_field_cases:
  "(\<And>g. f = PodF g \<Longrightarrow> P (PodF g)) \<Longrightarrow> (\<And>g. f = ConF g \<Longrightarrow> P (ConF g)) \<Longrightarrow> P f"
  by (cases f) auto

text \<open>
  \<open>complete\<close>: both halves are present; the code of every check returns on such an object. A field is
  set only if it was open (\<open>keeps_set\<close>), so the user's values survive; calling a check twice changes
  nothing; the check writes the fields in \<open>writes\<close> only.
\<close>

definition complete :: "SecurityContextDefaults \<Rightarrow> bool" where
  "complete s \<longleftrightarrow> scd_Pod s \<noteq> None \<and> scd_Container s \<noteq> None"

locale hardening_check =
  fixes defaults :: defaults_method
    and writes :: "DefField set"
  assumes returns_complete: "complete s \<Longrightarrow> fst (defaults s) = Ret ()"
    and stays_complete: "complete s \<Longrightarrow> complete (snd (defaults s))"
    and keeps_set: "scd_view s f = Some v \<Longrightarrow> scd_view (snd (defaults s)) f = Some v"
    and sets_writes: "fst (defaults s) = Ret () \<Longrightarrow> f \<in> writes \<Longrightarrow>
      f \<noteq> ConF CF_Capabilities \<Longrightarrow> scd_view (snd (defaults s)) f \<noteq> None"
    and frame: "f \<notin> writes \<Longrightarrow> scd_view (snd (defaults s)) f = scd_view s f"
    and idem: "fst (defaults s) = Ret () \<Longrightarrow> snd (defaults (snd (defaults s))) = snd (defaults s)"
begin

definition iterate :: "nat \<Rightarrow> SecurityContextDefaults \<Rightarrow> SecurityContextDefaults" where
  "iterate n = ((\<lambda>s. snd (defaults s)) ^^ n)"

lemma iterate_complete: "complete s \<Longrightarrow> complete (iterate n s)"
  by (induction n) (simp_all add: iterate_def stays_complete)

lemma iterate_once: "complete s \<Longrightarrow> iterate (Suc n) s = snd (defaults s)"
proof (induction n)
  case 0
  then show ?case by (simp add: iterate_def)
next
  case (Suc n)
  have "iterate (Suc (Suc n)) s = snd (defaults (iterate (Suc n) s))"
    by (simp add: iterate_def)
  also have "\<dots> = snd (defaults (snd (defaults s)))" using Suc by simp
  also have "\<dots> = snd (defaults s)" using Suc.prems by (intro idem returns_complete)
  finally show ?case .
qed

lemma view_grows: "scd_view s \<subseteq>\<^sub>m scd_view (snd (defaults s))"
  by (auto simp: map_le_def dom_def keeps_set)

lemma changed_only_in_writes: "scd_view (snd (defaults s)) f \<noteq> scd_view s f \<Longrightarrow> f \<in> writes"
  using frame by blast

end

text \<open>
  The contract follows from the two shapes a check has: it fills both halves, the container half with
  values of the pod half, or it fills the container half only.
\<close>

definition fills :: "('c \<Rightarrow> 'f \<Rightarrow> 'v option) \<Rightarrow> 'f set \<Rightarrow> ('c \<Rightarrow> 'c) \<Rightarrow> bool" where
  "fills view F g \<longleftrightarrow> (\<forall>c f.
     (\<forall>v. view c f = Some v \<longrightarrow> view (g c) f = Some v)
     \<and> (f \<notin> F \<longrightarrow> view (g c) f = view c f) \<and> g (g c) = g c)"

lemma fillsD:
  assumes "fills view F g"
  shows "view c f = Some v \<Longrightarrow> view (g c) f = Some v"
    and "f \<notin> F \<Longrightarrow> view (g c) f = view c f" and "g (g c) = g c"
  using assms by (auto simp: fills_def)

definition halves ::
    "(PodSecurityContextDefaults \<Rightarrow> PodSecurityContextDefaults)
     \<Rightarrow> (PodSecurityContextDefaults \<Rightarrow> ContainerSecurityContextDefaults \<Rightarrow> ContainerSecurityContextDefaults)
     \<Rightarrow> defaults_method" where
  "halves g h s = (case scd_Pod s of
     None \<Rightarrow> (Panic nil_deref, s)
   | Some p \<Rightarrow> with_container (h (g p)) (s\<lparr>scd_Pod := Some (g p)\<rparr>))"

lemma hardening_check_halves:
  assumes g: "fills pd_view FP g" and h: "\<And>p. fills cd_view FC (h p)"
    and gs: "\<And>p f. f \<in> FP \<Longrightarrow> \<exists>v. pd_view (g p) f = Some v"
    and hs: "\<And>p c f. cd_view (h (g p) c) f = None \<Longrightarrow> f \<in> FC \<Longrightarrow> f = CF_Capabilities"
  shows "hardening_check (halves g h) (PodF ` FP \<union> ConF ` FC)"
proof (unfold_locales, goal_cases)
  case (3 s f v)
  then show ?case using fillsD(1) [OF g] fillsD(1) [OF h]
    by (cases f) (auto simp: halves_def with_container_def split: option.splits)
next
  case (4 s f)
  then show ?case
    by (auto simp: halves_def with_container_def split: option.splits dest: hs intro: gs)
next
  case (5 f s)
  then show ?case using fillsD(2) [OF g] fillsD(2) [OF h]
    by (cases f) (auto simp: halves_def with_container_def image_iff split: option.splits)
qed (use fillsD(3) [OF g] fillsD(3) [OF h] in
      \<open>auto simp: halves_def with_container_def complete_def split: option.splits\<close>)

lemma hardening_check_container:
  assumes h: "fills cd_view FC h"
    and hs: "\<And>c f. cd_view (h c) f = None \<Longrightarrow> f \<in> FC \<Longrightarrow> f = CF_Capabilities"
  shows "hardening_check (with_container h) (ConF ` FC)"
proof (unfold_locales, goal_cases)
  case (3 s f v)
  then show ?case using fillsD(1) [OF h]
    by (cases f) (auto simp: with_container_def split: option.splits)
next
  case (4 s f)
  then show ?case by (auto simp: with_container_def split: option.splits dest: hs)
next
  case (5 f s)
  then show ?case using fillsD(2) [OF h]
    by (cases f) (auto simp: with_container_def image_iff split: option.splits)
qed (use fillsD(3) [OF h] in \<open>auto simp: with_container_def complete_def split: option.splits\<close>)

lemma fillsI:
  assumes "\<And>c f v. view c f = Some v \<Longrightarrow> view (g c) f = Some v"
    and "\<And>c f. f \<notin> F \<Longrightarrow> view (g c) f = view c f" and "\<And>c. g (g c) = g c"
  shows "fills view F g"
  using assms by (auto simp: fills_def)

text \<open>Every check meets the contract.\<close>

definition user_pod :: "PodSecurityContextDefaults \<Rightarrow> PodSecurityContextDefaults" where
  "user_pod p = p\<lparr>pod_RunAsUser := set_default (pod_RunAsUser p) 1000,
                  pod_RunAsNonRoot := set_default (pod_RunAsNonRoot p) True\<rparr>"

definition user_con :: "ContainerSecurityContextDefaults \<Rightarrow> ContainerSecurityContextDefaults" where
  "user_con c = c\<lparr>con_RunAsUser := set_default (con_RunAsUser c) 1000,
                  con_RunAsNonRoot := set_default (con_RunAsNonRoot c) True\<rparr>"

definition group_con ::
    "PodSecurityContextDefaults \<Rightarrow> ContainerSecurityContextDefaults \<Rightarrow> ContainerSecurityContextDefaults" where
  "group_con p c = c\<lparr>con_RunAsUser := fill (con_RunAsUser c) (pod_RunAsUser p),
                    con_RunAsGroup := fill (con_RunAsGroup c) (pod_RunAsGroup p)\<rparr>"

lemma user_halves: "UserCheck_GetSecurityContextDefaults = halves user_pod (\<lambda>_. user_con)"
  by (rule ext) (simp add: UserCheck_GetSecurityContextDefaults_def halves_def then_do_def with_pod_def
      user_pod_def user_con_def [abs_def] split: option.splits)

lemma group_halves: "GroupCheck_GetSecurityContextDefaults = halves group_pod_defaults group_con"
  by (rule ext) (simp add: GroupCheck_GetSecurityContextDefaults_def halves_def then_do_def with_pod_def
      group_con_def [abs_def] split: option.splits)

lemma fill_Some_right [simp]: "fill m (Some v) = set_default m v"
  by (cases m) auto

lemma fills_user_pod: "fills pd_view {PF_RunAsUser, PF_RunAsNonRoot} user_pod"
proof (rule fillsI)
  fix c f v show "pd_view c f = Some v \<Longrightarrow> pd_view (user_pod c) f = Some v"
    by (cases f) (auto simp: user_pod_def)
next
  fix c f show "f \<notin> {PF_RunAsUser, PF_RunAsNonRoot} \<Longrightarrow> pd_view (user_pod c) f = pd_view c f"
    by (cases f) (auto simp: user_pod_def)
qed (simp add: user_pod_def)

lemma fills_user_con: "fills cd_view {CF_RunAsUser, CF_RunAsNonRoot} user_con"
proof (rule fillsI)
  fix c f v show "cd_view c f = Some v \<Longrightarrow> cd_view (user_con c) f = Some v"
    by (cases f) (auto simp: user_con_def split: if_splits)
next
  fix c f show "f \<notin> {CF_RunAsUser, CF_RunAsNonRoot} \<Longrightarrow> cd_view (user_con c) f = cd_view c f"
    by (cases f) (auto simp: user_con_def)
qed (simp add: user_con_def)

lemma group_pod_values:
  "group_pod_defaults p = p\<lparr>
     pod_RunAsUser := set_default (pod_RunAsUser p) 1000,
     pod_RunAsGroup := fill (pod_RunAsGroup p) (set_default (pod_RunAsUser p) 1000),
     pod_FSGroup := fill (pod_FSGroup p)
       (fill (pod_RunAsGroup p) (set_default (pod_RunAsUser p) 1000))\<rparr>"
  by (simp add: group_pod_defaults_def)

lemma fills_group_pod: "fills pd_view {PF_RunAsUser, PF_RunAsGroup, PF_FSGroup} group_pod_defaults"
proof (rule fillsI)
  fix c f v show "pd_view c f = Some v \<Longrightarrow> pd_view (group_pod_defaults c) f = Some v"
    by (cases f) (auto simp: group_pod_values)
next
  fix c f
  show "f \<notin> {PF_RunAsUser, PF_RunAsGroup, PF_FSGroup} \<Longrightarrow> pd_view (group_pod_defaults c) f = pd_view c f"
    by (cases f) (auto simp: group_pod_values)
qed (auto simp: group_pod_values fill_def)

lemma fills_group_con: "fills cd_view {CF_RunAsUser, CF_RunAsGroup} (group_con p)"
proof (rule fillsI)
  fix c f v show "cd_view c f = Some v \<Longrightarrow> cd_view (group_con p c) f = Some v"
    by (cases f) (auto simp: group_con_def split: if_splits)
next
  fix c f show "f \<notin> {CF_RunAsUser, CF_RunAsGroup} \<Longrightarrow> cd_view (group_con p c) f = cd_view c f"
    by (cases f) (auto simp: group_con_def)
qed (auto simp: group_con_def fill_def)

interpretation user: hardening_check UserCheck_GetSecurityContextDefaults
  "PodF ` {PF_RunAsUser, PF_RunAsNonRoot} \<union> ConF ` {CF_RunAsUser, CF_RunAsNonRoot}"
  unfolding user_halves
  by (rule hardening_check_halves [OF fills_user_pod fills_user_con])
    (auto simp: user_pod_def user_con_def)

interpretation group: hardening_check GroupCheck_GetSecurityContextDefaults
  "PodF ` {PF_RunAsUser, PF_RunAsGroup, PF_FSGroup} \<union> ConF ` {CF_RunAsUser, CF_RunAsGroup}"
  unfolding group_halves
  by (rule hardening_check_halves [OF fills_group_pod fills_group_con])
    (auto simp: group_pod_values group_con_def fill_None_iff fill_ex)

interpretation read_only: hardening_check ReadOnlyRootFilesystemCheck_GetSecurityContextDefaults
  "ConF ` {CF_ReadOnlyRootFilesystem}"
  unfolding ReadOnlyRootFilesystemCheck_GetSecurityContextDefaults_def
proof (rule hardening_check_container, rule fillsI)
  fix c f v
  let ?h = "\<lambda>c. c\<lparr>con_ReadOnlyRootFilesystem := set_default (con_ReadOnlyRootFilesystem c) True\<rparr>"
  show "cd_view c f = Some v \<Longrightarrow> cd_view (?h c) f = Some v" by (cases f) (auto split: if_splits)
  show "f \<notin> {CF_ReadOnlyRootFilesystem} \<Longrightarrow> cd_view (?h c) f = cd_view c f" by (cases f) auto
qed auto

interpretation privilege: hardening_check AllowPrivilegeEscalationCheck_GetSecurityContextDefaults
  "ConF ` {CF_AllowPrivilegeEscalation}"
  unfolding AllowPrivilegeEscalationCheck_GetSecurityContextDefaults_def
proof (rule hardening_check_container, rule fillsI)
  fix c f v
  let ?h = "\<lambda>c. c\<lparr>con_AllowPrivilegeEscalation := set_default (con_AllowPrivilegeEscalation c) False\<rparr>"
  show "cd_view c f = Some v \<Longrightarrow> cd_view (?h c) f = Some v" by (cases f) (auto split: if_splits)
  show "f \<notin> {CF_AllowPrivilegeEscalation} \<Longrightarrow> cd_view (?h c) f = cd_view c f" by (cases f) auto
qed auto

interpretation drop_all: hardening_check DropAllCapabilitiesCheck_GetSecurityContextDefaults
  "ConF ` {CF_Capabilities}"
  unfolding DropAllCapabilitiesCheck_GetSecurityContextDefaults_def
proof (rule hardening_check_container, rule fillsI)
  fix c f v
  let ?h = "\<lambda>c. c\<lparr>con_CapabilitiesDrop := set_default (con_CapabilitiesDrop c) [''ALL'']\<rparr>"
  show "cd_view c f = Some v \<Longrightarrow> cd_view (?h c) f = Some v"
    by (cases f; cases "con_CapabilitiesDrop c") (auto split: if_splits)
  show "f \<notin> {CF_Capabilities} \<Longrightarrow> cd_view (?h c) f = cd_view c f" by (cases f) auto
qed auto

section \<open>What the checks achieve\<close>

lemma GetAllChecks_cases:
  assumes "(t, c) \<in> set GetAllChecks"
  obtains "t = ''user''" "c = UserCheck" | "t = ''group''" "c = GroupCheck"
  | "t = ''readOnlyRootFilesystem''" "c = ReadOnlyRootFilesystemCheck"
  | "t = ''allowPrivilegeEscalation''" "c = AllowPrivilegeEscalationCheck"
  | "t = ''dropAllCapabilities''" "c = DropAllCapabilitiesCheck"
proof -
  from assms have "t = ''allowPrivilegeEscalation'' \<and> c = AllowPrivilegeEscalationCheck \<or>
     t = ''dropAllCapabilities'' \<and> c = DropAllCapabilitiesCheck \<or> t = ''group'' \<and> c = GroupCheck \<or>
     t = ''readOnlyRootFilesystem'' \<and> c = ReadOnlyRootFilesystemCheck \<or> t = ''user'' \<and> c = UserCheck"
    by (simp only: GetAllChecks_eq list.set insert_iff empty_iff prod.inject simp_thms)
  then show ?thesis by (elim disjE conjE) (rule that; assumption)+
qed

text \<open>
  C32. No check overrides a value the user has fixed: every field set in the object before the call has
  the same value after it, also when the call panics, and a second call changes nothing more.
\<close>

theorem checks_keep_user_values:
  assumes "(t, c) \<in> set GetAllChecks"
  shows "scd_view s \<subseteq>\<^sub>m scd_view (snd (GetSecurityContextDefaults c s))
    \<and> (fst (GetSecurityContextDefaults c s) = Ret () \<longrightarrow>
        snd (GetSecurityContextDefaults c (snd (GetSecurityContextDefaults c s))) =
        snd (GetSecurityContextDefaults c s))"
  by (rule GetAllChecks_cases [OF assms])
    (simp_all add: check_records user.view_grows user.idem group.view_grows group.idem
      read_only.view_grows read_only.idem privilege.view_grows privilege.idem
      drop_all.view_grows drop_all.idem)

theorem checks_keep_user_values_witness:
  "scd_view \<lparr>scd_Pod = Some (empty_pod_defaults\<lparr>pod_RunAsUser := Some 2000\<rparr>), scd_Container = None\<rparr>
     \<subseteq>\<^sub>m scd_view (snd (GetSecurityContextDefaults GroupCheck
       \<lparr>scd_Pod = Some (empty_pod_defaults\<lparr>pod_RunAsUser := Some 2000\<rparr>), scd_Container = None\<rparr>))"
  using checks_keep_user_values [of "''group''" GroupCheck
      "\<lparr>scd_Pod = Some (empty_pod_defaults\<lparr>pod_RunAsUser := Some 2000\<rparr>), scd_Container = None\<rparr>"]
  by (simp add: GetAllChecks_eq)

text \<open>
  C34. A check returns exactly when the halves it writes are present: every check needs \<open>Container\<close>, the
  user and the group check also need \<open>Pod\<close>. On a \<open>spec.securityContext\<close> that sets only one half (which
  the API allows) the call panics.
\<close>

theorem checks_return_iff:
  assumes "(t, c) \<in> set GetAllChecks"
  shows "fst (GetSecurityContextDefaults c s) = Ret () \<longleftrightarrow>
    scd_Container s \<noteq> None \<and> (t \<in> {''user'', ''group''} \<longrightarrow> scd_Pod s \<noteq> None)"
  by (rule GetAllChecks_cases [OF assms])
    (auto simp: check_records user_halves group_halves halves_def with_container_def
      ReadOnlyRootFilesystemCheck_GetSecurityContextDefaults_def
      AllowPrivilegeEscalationCheck_GetSecurityContextDefaults_def
      DropAllCapabilitiesCheck_GetSecurityContextDefaults_def split: option.splits)

theorem checks_return_iff_witness:
  "fst (GetSecurityContextDefaults UserCheck \<lparr>scd_Pod = None, scd_Container = Some empty_con_defaults\<rparr>)
     \<noteq> Ret ()"
  using checks_return_iff [of "''user''" UserCheck
      "\<lparr>scd_Pod = None, scd_Container = Some empty_con_defaults\<rparr>"]
  by (simp add: GetAllChecks_eq)

text \<open>The contexts a check is run with: the user's, completed by the check.\<close>

definition check_applied ::
    "(string list \<Rightarrow> string list) \<Rightarrow> CheckInterface \<Rightarrow> SecurityContextDefaults \<Rightarrow> PodSpec \<Rightarrow> PodSpec" where
  "check_applied ko c s ps =
     (let s' = snd (GetSecurityContextDefaults c s)
      in ApplySecurityContextToPodSpec ko ps (scd_Container s') (scd_Pod s'))"

lemma view_None_iffs:
  "psc_RunAsUser k = None \<longleftrightarrow> pod_view k PF_RunAsUser = None"
  "psc_RunAsGroup k = None \<longleftrightarrow> pod_view k PF_RunAsGroup = None"
  "psc_FSGroup k = None \<longleftrightarrow> pod_view k PF_FSGroup = None"
  "psc_RunAsNonRoot k = None \<longleftrightarrow> pod_view k PF_RunAsNonRoot = None"
  by simp_all

lemma apply_pod_sets:
  assumes "pd_view p f \<noteq> None"
  shows "\<exists>k. ps_SecurityContext (apply_pod (Pod_ToK8sSecurityContext (Some p)) ps) = Some k
    \<and> pod_view k f \<noteq> None"
proof -
  obtain e where e: "Pod_ToK8sSecurityContext (Some p) = Some e"
    by (simp add: Pod_ToK8sSecurityContext_def)
  then have "pod_view e f \<noteq> None" using assms by (simp add: pod_view_ToK8s)
  then have "view_opt pod_view (ps_SecurityContext (apply_pod (Some e) ps)) f \<noteq> None"
    by (simp add: apply_pod_view fill_ex)
  then show ?thesis
    by (cases "ps_SecurityContext (apply_pod (Some e) ps)") (auto simp: e)
qed

lemma read_only_missing_iff:
  "read_only_missing cs \<longleftrightarrow> (\<exists>c \<in> set cs. case ctr_SecurityContext c of None \<Rightarrow> True
     | Some s \<Rightarrow> sc_ReadOnlyRootFilesystem s = None \<or> sc_ReadOnlyRootFilesystem s = Some False)"
  by (induction cs) (auto split: option.splits)

lemma escalation_open_iff:
  "escalation_open cs \<longleftrightarrow> (\<exists>c \<in> set cs. case ctr_SecurityContext c of None \<Rightarrow> True
     | Some s \<Rightarrow> sc_AllowPrivilegeEscalation s = None \<or> sc_AllowPrivilegeEscalation s = Some True)"
  by (induction cs) (auto split: option.splits)

lemma nothing_dropped_iff:
  "nothing_dropped cs \<longleftrightarrow> (\<exists>c \<in> set cs. case ctr_SecurityContext c of None \<Rightarrow> True | Some s \<Rightarrow> dropped s = {})"
proof (induction cs)
  case Nil
  then show ?case by simp
next
  case (Cons c cs)
  have "slice_len x = 0 \<longleftrightarrow> (case x of None \<Rightarrow> {} | Some d \<Rightarrow> set d) = {}" for x :: "string list option"
    by (cases x) auto
  with Cons show ?case
    by (auto simp: dropped_def split: option.splits)
qed

lemma user_settles:
  assumes "complete s"
  shows "\<not> UserCheck_ShouldRun (check_applied ko UserCheck s ps)"
proof -
  obtain p where p: "scd_Pod (snd (UserCheck_GetSecurityContextDefaults s)) = Some p"
    and set: "pd_view p PF_RunAsUser \<noteq> None" "pd_view p PF_RunAsNonRoot \<noteq> None"
    using assms by (auto simp: user_halves halves_def with_container_def complete_def user_pod_def)
  show ?thesis
    using apply_pod_sets [OF set(1), of ps] apply_pod_sets [OF set(2), of ps] p
    by (auto simp: check_applied_def Let_def UserCheck_def UserCheck_ShouldRun_def)
qed

lemma group_settles:
  assumes "complete s"
  shows "\<not> GroupCheck_ShouldRun (check_applied ko GroupCheck s ps)"
proof -
  obtain p where p: "scd_Pod (snd (GroupCheck_GetSecurityContextDefaults s)) = Some p"
    and set: "pd_view p PF_RunAsGroup \<noteq> None" "pd_view p PF_FSGroup \<noteq> None"
    using assms
    by (auto simp: group_halves halves_def with_container_def complete_def group_pod_values fill_ex)
  show ?thesis
    using apply_pod_sets [OF set(1), of ps] apply_pod_sets [OF set(2), of ps] p
    by (auto simp: check_applied_def Let_def GroupCheck_def GroupCheck_ShouldRun_def)
qed

lemma apply_container_Some:
  assumes "ext = Some e"
  shows "\<exists>r. ctr_SecurityContext (apply_container ko ext c) = Some r"
  using assms by (auto simp: apply_container_def MergeContainerSecurityContexts_def split: option.splits)

lemma drop_all_settles:
  assumes ko: "is_order ko" and c: "scd_Container s = Some d" "con_CapabilitiesDrop d \<noteq> Some []"
  shows "\<not> nothing_dropped (ps_Containers (check_applied ko DropAllCapabilitiesCheck s ps))"
proof -
  let ?d = "d\<lparr>con_CapabilitiesDrop := set_default (con_CapabilitiesDrop d) [''ALL'']\<rparr>"
  obtain e where e: "Container_ToK8sSecurityContext (Some ?d) = Some e"
    by (simp add: Container_ToK8sSecurityContext_def)
  have "dropped e \<noteq> {}"
    using e c(2) by (cases "con_CapabilitiesDrop d")
      (auto simp: Container_ToK8sSecurityContext_def empty_sc_def dropped_def)
  then have "dropped r \<noteq> {}"
    if "ctr_SecurityContext (apply_container ko (Some e) x) = Some r" for x r
    using that apply_container_overlaid [OF ko, of "Some e" x]
    by (cases "ctr_SecurityContext x") (auto simp: container_overlaid_def apply_container_def)
  then show ?thesis
    using apply_container_Some [of "Some e" e ko] c(1) e
    by (auto simp: check_applied_def Let_def DropAllCapabilitiesCheck_def
        DropAllCapabilitiesCheck_GetSecurityContextDefaults_def with_container_def nothing_dropped_iff
        split: option.splits)
qed

text \<open>
  The user, the group and the drop-all check do what they are meant to: after the context of such a
  check has been applied to any pod template, whatever the template says, the check no longer has
  to run on it (for drop-all, when the user did not pass an explicitly empty list of capabilities).
\<close>

theorem applied_checks_settle:
  assumes "is_order ko" and "complete s"
    and "\<forall>d. scd_Container s = Some d \<longrightarrow> con_CapabilitiesDrop d \<noteq> Some []"
    and "c \<in> {UserCheck, GroupCheck, DropAllCapabilitiesCheck}"
  shows "\<not> ShouldRun c (check_applied ko c s ps)"
proof -
  obtain d where d: "scd_Container s = Some d" using assms(2) by (auto simp: complete_def)
  have "\<not> ShouldRun DropAllCapabilitiesCheck (check_applied ko DropAllCapabilitiesCheck s ps)"
    using drop_all_settles [OF assms(1) d] assms(3) d
    by (simp add: DropAllCapabilitiesCheck_def DropAll_ShouldRun_program)
  moreover have "\<not> ShouldRun UserCheck (check_applied ko UserCheck s ps)"
    using user_settles [OF assms(2)] by (simp add: UserCheck_def)
  moreover have "\<not> ShouldRun GroupCheck (check_applied ko GroupCheck s ps)"
    using group_settles [OF assms(2)] by (simp add: GroupCheck_def)
  ultimately show ?thesis using assms(4) by blast
qed

definition sample_defaults :: SecurityContextDefaults where
  "sample_defaults = \<lparr>scd_Pod = Some empty_pod_defaults, scd_Container = Some empty_con_defaults\<rparr>"

theorem applied_checks_settle_witness:
  "ShouldRun UserCheck sample_pod \<and> \<not> ShouldRun UserCheck (check_applied rev UserCheck sample_defaults sample_pod)"
proof
  show "ShouldRun UserCheck sample_pod"
    by (simp add: UserCheck_def UserCheck_ShouldRun_def sample_pod_def)
  show "\<not> ShouldRun UserCheck (check_applied rev UserCheck sample_defaults sample_pod)"
    by (rule applied_checks_settle) (simp_all add: sample_defaults_def complete_def empty_con_defaults_def)
qed

text \<open>The flag the two remaining checks look at, after the check's context has been merged in.\<close>

lemma container_flag_after:
  assumes "ctr_SecurityContext (apply_container ko (Some e) c) = Some r"
  shows "sc_ReadOnlyRootFilesystem r = (case ctr_SecurityContext c of None \<Rightarrow> sc_ReadOnlyRootFilesystem e
      | Some b \<Rightarrow> fill (sc_ReadOnlyRootFilesystem b) (sc_ReadOnlyRootFilesystem e))"
    and "sc_AllowPrivilegeEscalation r = (case ctr_SecurityContext c of None \<Rightarrow> sc_AllowPrivilegeEscalation e
      | Some b \<Rightarrow> fill (sc_AllowPrivilegeEscalation b) (sc_AllowPrivilegeEscalation e))"
  using assms
  by (auto simp: apply_container_def MergeContainerSecurityContexts_def merge_container_fields_def
      split: option.splits)

lemma read_only_after:
  assumes "scd_Container s = Some d" "con_ReadOnlyRootFilesystem d = None"
  shows "read_only_missing (ps_Containers (check_applied ko ReadOnlyRootFilesystemCheck s ps)) \<longleftrightarrow>
    (\<exists>c \<in> set (ps_Containers ps). \<exists>b. ctr_SecurityContext c = Some b \<and> sc_ReadOnlyRootFilesystem b = Some False)"
proof -
  obtain e where e: "Container_ToK8sSecurityContext (Some (d\<lparr>con_ReadOnlyRootFilesystem := Some True\<rparr>)) = Some e"
    and flag: "sc_ReadOnlyRootFilesystem e = Some True"
    by (simp add: Container_ToK8sSecurityContext_def empty_sc_def)
  have "(case ctr_SecurityContext (apply_container ko (Some e) c) of None \<Rightarrow> True
     | Some r \<Rightarrow> sc_ReadOnlyRootFilesystem r = None \<or> sc_ReadOnlyRootFilesystem r = Some False) \<longleftrightarrow>
     (\<exists>b. ctr_SecurityContext c = Some b \<and> sc_ReadOnlyRootFilesystem b = Some False)" for c
    using apply_container_Some [of "Some e" e ko c] flag
    by (auto simp: container_flag_after set_default_Some_iff split: option.splits)
  then show ?thesis using assms e
    by (simp add: check_applied_def Let_def ReadOnlyRootFilesystemCheck_def with_container_def
        ReadOnlyRootFilesystemCheck_GetSecurityContextDefaults_def read_only_missing_iff)
qed

lemma privilege_after:
  assumes "scd_Container s = Some d" "con_AllowPrivilegeEscalation d = None"
  shows "escalation_open (ps_Containers (check_applied ko AllowPrivilegeEscalationCheck s ps)) \<longleftrightarrow>
    (\<exists>c \<in> set (ps_Containers ps). \<exists>b. ctr_SecurityContext c = Some b \<and> sc_AllowPrivilegeEscalation b = Some True)"
proof -
  obtain e where e: "Container_ToK8sSecurityContext (Some (d\<lparr>con_AllowPrivilegeEscalation := Some False\<rparr>)) = Some e"
    and flag: "sc_AllowPrivilegeEscalation e = Some False"
    by (simp add: Container_ToK8sSecurityContext_def empty_sc_def)
  have "(case ctr_SecurityContext (apply_container ko (Some e) c) of None \<Rightarrow> True
     | Some r \<Rightarrow> sc_AllowPrivilegeEscalation r = None \<or> sc_AllowPrivilegeEscalation r = Some True) \<longleftrightarrow>
     (\<exists>b. ctr_SecurityContext c = Some b \<and> sc_AllowPrivilegeEscalation b = Some True)" for c
    using apply_container_Some [of "Some e" e ko c] flag
    by (auto simp: container_flag_after set_default_Some_iff split: option.splits)
  then show ?thesis using assms e
    by (simp add: check_applied_def Let_def AllowPrivilegeEscalationCheck_def with_container_def
        AllowPrivilegeEscalationCheck_GetSecurityContextDefaults_def escalation_open_iff)
qed

text \<open>
  The read-only and the privilege-escalation check run when some container is not restricted, but
  their context only reaches containers that leave the field open: after it has been applied, the
  check still has to run exactly when some container sets \<open>readOnlyRootFilesystem: false\<close>
  (\<open>allowPrivilegeEscalation: true\<close>) itself. For such a workload the check is run without its restriction.
\<close>

theorem explicit_opt_out_survives_check:
  assumes "scd_Container s = Some d"
    and "con_ReadOnlyRootFilesystem d = None" and "con_AllowPrivilegeEscalation d = None"
  shows "(ShouldRun ReadOnlyRootFilesystemCheck (check_applied ko ReadOnlyRootFilesystemCheck s ps) \<longleftrightarrow>
      (\<exists>c \<in> set (ps_Containers ps). \<exists>b. ctr_SecurityContext c = Some b \<and> sc_ReadOnlyRootFilesystem b = Some False))
    \<and> (ShouldRun AllowPrivilegeEscalationCheck (check_applied ko AllowPrivilegeEscalationCheck s ps) \<longleftrightarrow>
      (\<exists>c \<in> set (ps_Containers ps). \<exists>b. ctr_SecurityContext c = Some b \<and> sc_AllowPrivilegeEscalation b = Some True))"
  using read_only_after [OF assms(1,2), of ko ps] privilege_after [OF assms(1,3), of ko ps]
  by (simp add: ReadOnlyRootFilesystemCheck_def ReadOnlyRootFilesystemCheck_ShouldRun_def
      AllowPrivilegeEscalationCheck_def AllowPrivilegeEscalationCheck_ShouldRun_def)

definition writable_container :: Container where
  "writable_container = sample_container\<lparr>ctr_SecurityContext :=
     Some (empty_sc\<lparr>sc_ReadOnlyRootFilesystem := Some False\<rparr>)\<rparr>"

theorem explicit_opt_out_survives_check_witness:
  "ShouldRun ReadOnlyRootFilesystemCheck (check_applied rev ReadOnlyRootFilesystemCheck sample_defaults
     (sample_pod\<lparr>ps_Containers := [writable_container]\<rparr>))"
  using explicit_opt_out_survives_check [of sample_defaults empty_con_defaults rev
      "sample_pod\<lparr>ps_Containers := [writable_container]\<rparr>"]
  by (simp add: sample_defaults_def empty_con_defaults_def writable_container_def)

text \<open>
  The drop-all check is skipped as soon as every container drops at least one capability, which is
  weaker than dropping all of them: a pod whose container drops only \<open>CHOWN\<close> is not checked.
\<close>

theorem drop_all_skipped_iff:
  "ShouldRun DropAllCapabilitiesCheck ps \<longleftrightarrow>
     (\<exists>c \<in> set (ps_Containers ps). case ctr_SecurityContext c of None \<Rightarrow> True | Some s \<Rightarrow> dropped s = {})"
  by (simp add: DropAllCapabilitiesCheck_def DropAll_ShouldRun_program nothing_dropped_iff)

theorem drop_all_skipped_example:
  "\<not> ShouldRun DropAllCapabilitiesCheck (sample_pod\<lparr>ps_Containers := [sample_container\<lparr>ctr_SecurityContext :=
     Some (empty_sc\<lparr>sc_Capabilities := Some \<lparr>caps_Add = None, caps_Drop = Some [''CHOWN'']\<rparr>\<rparr>)\<rparr>]\<rparr>)"
  by (simp add: DropAllCapabilitiesCheck_def DropAll_ShouldRun_program empty_sc_def)

end
