(* ===== verification/Executor.thy ===== *)
theory Executor
  imports Prelude
begin

text \<open>
  \<open>internal/executor/executor.go\<close>: the identifiers of check runs and the \<open>CheckExecutor\<close>, which runs
  at most one goroutine per identifier. The methods are functions on the executor's state; the
  goroutines, the two halves of \<open>Cancel\<close>, the manager's shutdown and \<open>Start\<close> interleave in the step
  relation \<open>exec_step\<close>. What a client may rely on is the locale \<open>run_registry\<close>.
\<close>

section \<open>CheckRunID\<close>

definition NewCheckRunID :: "string \<Rightarrow> string \<Rightarrow> string \<Rightarrow> string" where
  "NewCheckRunID ns whcName checkType = ns @ ''/'' @ whcName @ '':'' @ checkType"

definition ParseCheckRunID :: "string \<Rightarrow> error + string \<times> string \<times> string" where
  "ParseCheckRunID s =
     (case str_index s (CHR ''/'') of
        None \<Rightarrow> Inl (Errorf (''invalid CheckRunID format: missing '' @ [CHR 0x27] @ ''/'' @ [CHR 0x27] @ '': '' @ s))
      | Some slashIdx \<Rightarrow>
          (case str_last_index s (CHR '':'') of
             None \<Rightarrow> Inl (Errorf (''invalid CheckRunID format: missing '' @ [CHR 0x27] @ '':'' @ [CHR 0x27] @ '': '' @ s))
           | Some colonIdx \<Rightarrow>
               (if colonIdx \<le> slashIdx
                then Inl (Errorf (''invalid CheckRunID format: missing '' @ [CHR 0x27] @ '':'' @ [CHR 0x27] @ '': '' @ s))
                else Inr (take slashIdx s,
                          drop (slashIdx + 1) (take colonIdx s),
                          drop (colonIdx + 1) s))))"

definition CheckRunID_HasPrefix :: "string \<Rightarrow> string \<Rightarrow> bool" where
  "CheckRunID_HasPrefix i prefix = has_prefix i prefix"

lemma Parse_New:
  assumes "CHR ''/'' \<notin> set ns" "CHR '':'' \<notin> set checkType"
  shows "ParseCheckRunID (NewCheckRunID ns whcName checkType) = Inr (ns, whcName, checkType)"
proof -
  have slash: "str_index (NewCheckRunID ns whcName checkType) (CHR ''/'') = Some (length ns)"
    using str_index_append [OF assms(1)] by (simp add: NewCheckRunID_def)
  have "NewCheckRunID ns whcName checkType = (ns @ ''/'' @ whcName) @ CHR '':'' # checkType"
    by (simp add: NewCheckRunID_def)
  then have colon: "str_last_index (NewCheckRunID ns whcName checkType) (CHR '':'') =
      Some (length ns + 1 + length whcName)"
    using str_last_index_append [OF assms(2), of "ns @ ''/'' @ whcName"] by simp
  show ?thesis by (simp add: ParseCheckRunID_def slash colon) (simp add: NewCheckRunID_def)
qed

lemma NewCheckRunID_inject:
  assumes "CHR ''/'' \<notin> set ns" "CHR ''/'' \<notin> set ns'" "CHR '':'' \<notin> set t" "CHR '':'' \<notin> set t'"
  shows "NewCheckRunID ns n t = NewCheckRunID ns' n' t' \<longleftrightarrow> ns = ns' \<and> n = n' \<and> t = t'"
proof
  assume "NewCheckRunID ns n t = NewCheckRunID ns' n' t'"
  then have "Inr (ns, n, t) = (Inr (ns', n', t') :: error + string \<times> string \<times> string)"
    using Parse_New [OF assms(1,3), of n] Parse_New [OF assms(2,4), of n'] by (simp only:)
  then show "ns = ns' \<and> n = n' \<and> t = t'" by (simp only: sum.inject prod.inject)
qed (simp only:)

lemma append_sep_eq:
  "c \<notin> set a \<Longrightarrow> c \<notin> set a' \<Longrightarrow> a @ c # b = a' @ c # b' \<longleftrightarrow> a = a' \<and> b = b'"
proof (induction a arbitrary: a')
  case Nil
  then show ?case by (cases a') auto
next
  case (Cons x a)
  then show ?case by (cases a') auto
qed

lemma HasPrefix_New:
  assumes "CHR ''/'' \<notin> set ns" "CHR ''/'' \<notin> set ns'" "CHR '':'' \<notin> set n" "CHR '':'' \<notin> set n'"
  shows "CheckRunID_HasPrefix (NewCheckRunID ns n t) (ns' @ ''/'' @ n' @ '':'') \<longleftrightarrow> ns = ns' \<and> n = n'"
proof
  assume "CheckRunID_HasPrefix (NewCheckRunID ns n t) (ns' @ ''/'' @ n' @ '':'')"
  then obtain u where u: "ns @ CHR ''/'' # (n @ CHR '':'' # t) = ns' @ CHR ''/'' # (n' @ CHR '':'' # u)"
    by (auto simp: CheckRunID_HasPrefix_def NewCheckRunID_def has_prefix_iff)
  then have "ns = ns'" "n @ CHR '':'' # t = n' @ CHR '':'' # u"
    using append_sep_eq [OF assms(1,2)] by auto
  then show "ns = ns' \<and> n = n'" using append_sep_eq [OF assms(3,4)] by auto
next
  assume "ns = ns' \<and> n = n'"
  then have "NewCheckRunID ns n t = (ns' @ ''/'' @ n' @ '':'') @ t"
    by (simp add: NewCheckRunID_def)
  then show "CheckRunID_HasPrefix (NewCheckRunID ns n t) (ns' @ ''/'' @ n' @ '':'')"
    unfolding CheckRunID_HasPrefix_def by (simp only: has_prefix_append)
qed

text \<open>
  An identifier parses back into the namespace, name and check type it was made of, when the
  namespace has no slash and the check type no colon (Kubernetes names have neither).
\<close>

theorem CheckRunID_roundtrip:
  assumes "CHR ''/'' \<notin> set ns" and "CHR '':'' \<notin> set checkType"
  shows "ParseCheckRunID (NewCheckRunID ns whcName checkType) = Inr (ns, whcName, checkType)"
  using assms by (rule Parse_New)

theorem CheckRunID_roundtrip_witness:
  "ParseCheckRunID ''my-namespace/my-whc:baseline'' = Inr (''my-namespace'', ''my-whc'', ''baseline'')"
  using CheckRunID_roundtrip [of "''my-namespace''" "''baseline''" "''my-whc''"]
  by (simp add: NewCheckRunID_def)

section \<open>The executor\<close>

text \<open>
  A run's context is a number; \<open>cancelled\<close> lists the contexts whose cancel function has been called.
  \<open>managerCtx\<close> is \<open>None\<close> until \<open>Start\<close> stores it, then says whether the manager's context is done.
\<close>

record executor =
  activeRuns :: "(string, nat) gomap"
  wg :: nat
  managerCtx :: "bool option"
  cancelled :: "nat list"
  nextCtx :: nat

definition NewCheckExecutor :: executor where
  "NewCheckExecutor = \<lparr>activeRuns = [], wg = 0, managerCtx = None, cancelled = [], nextCtx = 0\<rparr>"

definition ctx_done :: "executor \<Rightarrow> nat \<Rightarrow> bool" where
  "ctx_done e n \<longleftrightarrow> managerCtx e = Some True \<or> n \<in> set (cancelled e)"

text \<open>The effect of \<open>Submit\<close> under the lock; the new goroutine is added by the step relation.\<close>

definition Submit :: "string \<Rightarrow> executor \<Rightarrow> bool outcome \<times> executor" where
  "Submit i e =
     (if map_of (activeRuns e) i \<noteq> None then (Ret False, e)
      else (case managerCtx e of
        None \<Rightarrow> (Panic ''cannot create context from nil parent'', e)
      | Some _ \<Rightarrow> (Ret True, e\<lparr>activeRuns := AList.update i (nextCtx e) (activeRuns e),
                             wg := wg e + 1, nextCtx := nextCtx e + 1\<rparr>)))"

definition IsRunning :: "string \<Rightarrow> executor \<Rightarrow> bool" where
  "IsRunning i e \<longleftrightarrow> map_of (activeRuns e) i \<noteq> None"

definition Cancel :: "string \<Rightarrow> executor \<Rightarrow> executor" where
  "Cancel i e = (case map_of (activeRuns e) i of
     None \<Rightarrow> e
   | Some n \<Rightarrow> e\<lparr>cancelled := n # cancelled e\<rparr>)"

text \<open>The range over the map collects the identifiers in the runtime's order \<open>ord\<close>.\<close>

definition CancelByPrefix :: "(string list \<Rightarrow> string list) \<Rightarrow> string \<Rightarrow> executor \<Rightarrow> executor" where
  "CancelByPrefix ord prefix e =
     (let toCancel = filter (\<lambda>i. CheckRunID_HasPrefix i prefix) (ord (gm_keys (activeRuns e)))
      in fold Cancel toCancel e)"

definition ActiveRunCount :: "executor \<Rightarrow> nat" where
  "ActiveRunCount e = length (activeRuns e)"

definition removeRun :: "string \<Rightarrow> executor \<Rightarrow> executor" where
  "removeRun i e = (case map_of (activeRuns e) i of
     None \<Rightarrow> e
   | Some n \<Rightarrow> e\<lparr>cancelled := n # cancelled e, activeRuns := AList.delete i (activeRuns e)\<rparr>)"

definition wg_Done :: "executor \<Rightarrow> executor" where
  "wg_Done e = e\<lparr>wg := wg e - 1\<rparr>"

text \<open>
  \<open>safeRun\<close> as one sequence, by what the function did: if it returned or panicked (the recovery
  swallows the panic), the deferred calls run in reverse order; if it does not return, nothing more happens.
\<close>

definition safeRun :: "string \<Rightarrow> unit outcome \<Rightarrow> executor \<Rightarrow> executor" where
  "safeRun i result e = (case result of
     Ret _ \<Rightarrow> wg_Done (removeRun i e)
   | Panic _ \<Rightarrow> wg_Done (removeRun i e)
   | NoReturn \<Rightarrow> e)"

subsection \<open>Reading the state after a method\<close>

lemma alist_update_new: "k \<notin> fst ` set al \<Longrightarrow> AList.update k v al = al @ [(k, v)]"
  by (induction al) auto

lemma alist_delete_absent: "k \<notin> fst ` set al \<Longrightarrow> AList.delete k al = al"
  by (force simp: AList.delete_eq filter_id_conv)

lemma alist_delete_append: "AList.delete k (xs @ ys) = AList.delete k xs @ AList.delete k ys"
  by (simp add: AList.delete_eq)

lemma map_of_removeRun:
  "map_of (activeRuns (removeRun i e)) j = (if j = i then None else map_of (activeRuns e) j)"
  by (auto simp: removeRun_def delete_conv' split: option.splits)

lemma map_of_Submit:
  "Submit i e = (Ret True, e') \<Longrightarrow>
   map_of (activeRuns e') = (map_of (activeRuns e))(i \<mapsto> nextCtx e) \<and> map_of (activeRuns e) i = None"
  by (auto simp: Submit_def update_conv' split: if_splits option.splits)

lemma Cancel_frame [simp]:
  "activeRuns (Cancel i e) = activeRuns e" "wg (Cancel i e) = wg e"
  "managerCtx (Cancel i e) = managerCtx e" "nextCtx (Cancel i e) = nextCtx e"
  by (auto simp: Cancel_def split: option.splits)

lemma fold_Cancel_frame [simp]:
  "activeRuns (fold Cancel is e) = activeRuns e" "wg (fold Cancel is e) = wg e"
  "managerCtx (fold Cancel is e) = managerCtx e" "nextCtx (fold Cancel is e) = nextCtx e"
  by (induction "is" arbitrary: e) auto

lemma set_cancelled_fold_Cancel:
  "set (cancelled (fold Cancel is e)) =
   set (cancelled e) \<union> {n. \<exists>i \<in> set is. map_of (activeRuns e) i = Some n}"
proof (induction "is" arbitrary: e)
  case Nil
  then show ?case by simp
next
  case (Cons i "is")
  have "set (cancelled (Cancel i e)) = set (cancelled e) \<union> {n. map_of (activeRuns e) i = Some n}"
    by (auto simp: Cancel_def split: option.splits)
  with Cons show ?case by auto
qed

section \<open>What a client may rely on\<close>

text \<open>
  The contract of a registry of runs: a submission is accepted exactly when no run with the
  identifier is active, an accepted one is active from then on, a rejected one changes nothing, and
  a run that is removed frees its identifier and no other.
\<close>

locale run_registry =
  fixes submit :: "'i \<Rightarrow> 's \<Rightarrow> bool outcome \<times> 's"
    and running :: "'i \<Rightarrow> 's \<Rightarrow> bool"
    and remove :: "'i \<Rightarrow> 's \<Rightarrow> 's"
    and ready :: "'s \<Rightarrow> bool"
  assumes submit_result: "ready s \<Longrightarrow> fst (submit i s) = Ret (\<not> running i s)"
    and submit_running: "ready s \<Longrightarrow> running j (snd (submit i s)) \<longleftrightarrow> j = i \<or> running j s"
    and submit_dedup: "running i s \<Longrightarrow> submit i s = (Ret False, s)"
    and submit_ready: "ready s \<Longrightarrow> ready (snd (submit i s))"
    and remove_running: "running j (remove i s) \<longleftrightarrow> j \<noteq> i \<and> running j s"
    and remove_ready: "ready s \<Longrightarrow> ready (remove i s)"
begin

definition submit_all :: "'i list \<Rightarrow> 's \<Rightarrow> 's" where
  "submit_all is s = fold (\<lambda>i s. snd (submit i s)) is s"

lemma submit_all_running:
  "ready s \<Longrightarrow> running j (submit_all is s) \<longleftrightarrow> j \<in> set is \<or> running j s"
  by (induction "is" arbitrary: s) (auto simp: submit_all_def submit_running submit_ready)

lemma submit_all_again:
  assumes "ready s" "set js \<subseteq> set is"
  shows "submit_all js (submit_all is s) = submit_all is s"
proof -
  have "submit_all js t = t" if "\<forall>j \<in> set js. running j t" for t
    using that by (induction js) (auto simp: submit_all_def submit_dedup)
  then show ?thesis using assms submit_all_running [OF assms(1)] by auto
qed

lemma resubmit_after_remove:
  "ready s \<Longrightarrow> fst (submit i (remove i s)) = Ret True"
  by (simp add: submit_result remove_ready remove_running)

lemma remove_keeps_others: "running j s \<Longrightarrow> j \<noteq> i \<Longrightarrow> running j (remove i s)"
  by (simp add: remove_running)

end

definition started :: "executor \<Rightarrow> bool" where
  "started e \<longleftrightarrow> managerCtx e \<noteq> None"

lemma IsRunning_removeRun [simp]: "IsRunning j (removeRun i e) \<longleftrightarrow> j \<noteq> i \<and> IsRunning j e"
  by (simp add: IsRunning_def map_of_removeRun)

lemma removeRun_frame [simp]:
  "managerCtx (removeRun i e) = managerCtx e" "wg (removeRun i e) = wg e"
  "nextCtx (removeRun i e) = nextCtx e"
  by (auto simp: removeRun_def split: option.splits)

interpretation runs: run_registry Submit IsRunning removeRun started
  by unfold_locales
    (auto simp: Submit_def IsRunning_def started_def update_conv' map_of_removeRun split: option.splits)

section \<open>Interleavings\<close>

text \<open>
  A goroutine of \<open>safeRun\<close> runs its function (\<open>Running\<close>), has returned or recovered from a panic
  (\<open>Finished\<close>), and has removed its run (\<open>Removed\<close>); after \<open>wg.Done\<close> it is gone. \<open>Cancel\<close> reads the map
  under the lock and calls the cancel function after releasing it: \<open>pending\<close> holds the contexts
  between the two halves. \<open>Start\<close> stores the context, blocks until it is done, then waits for the wait
  group or the timeout.
\<close>

datatype go_pc = Running | Finished | Removed

record goroutine =
  g_id :: string
  g_ctx :: nat
  g_pc :: go_pc

datatype start_pc = NotStarted | Blocking | Draining | ReturnedDone | ReturnedTimeout

record system =
  sys_exec :: executor
  sys_gos :: "goroutine list"
  sys_pending :: "nat list"
  sys_start :: start_pc

definition init_system :: system where
  "init_system = \<lparr>sys_exec = NewCheckExecutor, sys_gos = [], sys_pending = [], sys_start = NotStarted\<rparr>"

inductive exec_step :: "system \<Rightarrow> system \<Rightarrow> bool" where
  start: "sys_start s = NotStarted \<Longrightarrow>
    exec_step s (s\<lparr>sys_exec := (sys_exec s)\<lparr>managerCtx := Some False\<rparr>, sys_start := Blocking\<rparr>)"
| submit: "Submit i (sys_exec s) = (Ret True, e') \<Longrightarrow>
    exec_step s (s\<lparr>sys_exec := e',
      sys_gos := sys_gos s @ [\<lparr>g_id = i, g_ctx = nextCtx (sys_exec s), g_pc = Running\<rparr>]\<rparr>)"
| submit_rejected: "Submit i (sys_exec s) = (r, e') \<Longrightarrow> r \<noteq> Ret True \<Longrightarrow>
    exec_step s (s\<lparr>sys_exec := e'\<rparr>)"
| fn_ends: "k < length (sys_gos s) \<Longrightarrow> g_pc (sys_gos s ! k) = Running \<Longrightarrow>
    exec_step s (s\<lparr>sys_gos := (sys_gos s)[k := (sys_gos s ! k)\<lparr>g_pc := Finished\<rparr>]\<rparr>)"
| remove: "k < length (sys_gos s) \<Longrightarrow> g_pc (sys_gos s ! k) = Finished \<Longrightarrow>
    exec_step s (s\<lparr>sys_exec := removeRun (g_id (sys_gos s ! k)) (sys_exec s),
      sys_gos := (sys_gos s)[k := (sys_gos s ! k)\<lparr>g_pc := Removed\<rparr>]\<rparr>)"
| wg_done: "k < length (sys_gos s) \<Longrightarrow> g_pc (sys_gos s ! k) = Removed \<Longrightarrow>
    exec_step s (s\<lparr>sys_exec := wg_Done (sys_exec s),
      sys_gos := take k (sys_gos s) @ drop (Suc k) (sys_gos s)\<rparr>)"
| cancel_lookup: "map_of (activeRuns (sys_exec s)) i = Some n \<Longrightarrow>
    exec_step s (s\<lparr>sys_pending := n # sys_pending s\<rparr>)"
| cancel_fire: "n \<in> set (sys_pending s) \<Longrightarrow>
    exec_step s (s\<lparr>sys_exec := (sys_exec s)\<lparr>cancelled := n # cancelled (sys_exec s)\<rparr>,
      sys_pending := remove1 n (sys_pending s)\<rparr>)"
| shutdown: "managerCtx (sys_exec s) = Some False \<Longrightarrow>
    exec_step s (s\<lparr>sys_exec := (sys_exec s)\<lparr>managerCtx := Some True\<rparr>\<rparr>)"
| unblock: "sys_start s = Blocking \<Longrightarrow> managerCtx (sys_exec s) = Some True \<Longrightarrow>
    exec_step s (s\<lparr>sys_start := Draining\<rparr>)"
| drained: "sys_start s = Draining \<Longrightarrow> wg (sys_exec s) = 0 \<Longrightarrow>
    exec_step s (s\<lparr>sys_start := ReturnedDone\<rparr>)"
| timeout: "sys_start s = Draining \<Longrightarrow>
    exec_step s (s\<lparr>sys_start := ReturnedTimeout\<rparr>)"

inductive_cases exec_stepE: "exec_step s t"

inductive exec_reachable :: "system \<Rightarrow> bool" where
  init: "exec_reachable init_system"
| step: "exec_reachable s \<Longrightarrow> exec_step s t \<Longrightarrow> exec_reachable t"

text \<open>
  A goroutine holds its entry until it has removed it. The invariant: the entries are exactly those
  held, no two holders share an identifier, the wait group counts the goroutines, and contexts are
  numbered below \<open>nextCtx\<close>.
\<close>

definition holds :: "goroutine \<Rightarrow> bool" where
  "holds g \<longleftrightarrow> g_pc g \<noteq> Removed"

definition entry :: "goroutine \<Rightarrow> string \<times> nat" where
  "entry g = (g_id g, g_ctx g)"

definition exec_inv :: "system \<Rightarrow> bool" where
  "exec_inv s \<longleftrightarrow>
     distinct (map g_id (filter holds (sys_gos s)))
     \<and> map_of (activeRuns (sys_exec s)) = map_of (map entry (filter holds (sys_gos s)))
     \<and> wg (sys_exec s) = length (sys_gos s)
     \<and> distinct (map fst (activeRuns (sys_exec s)))
     \<and> (\<forall>g \<in> set (sys_gos s). g_ctx g < nextCtx (sys_exec s))
     \<and> distinct (map g_ctx (sys_gos s))"

lemma map_fst_entry [simp]: "map fst (map entry gs) = map g_id gs"
  by (simp add: entry_def)

lemma fst_o_entry [simp]: "fst \<circ> entry = g_id"
  by (auto simp: entry_def fun_eq_iff)

lemma upd_split:
  assumes "k < length xs"
  shows "\<exists>as bs. xs = as @ xs ! k # bs \<and> length as = k \<and> (\<forall>y. xs[k := y] = as @ y # bs)
    \<and> take k xs @ drop (Suc k) xs = as @ bs"
proof -
  have "xs = take k xs @ xs ! k # drop (Suc k) xs" using assms by (rule id_take_nth_drop)
  moreover have "xs[k := y] = take k xs @ y # drop (Suc k) xs" for y
    using assms by (rule upd_conv_take_nth_drop)
  ultimately show ?thesis using assms
    by (intro exI [of _ "take k xs"] exI [of _ "drop (Suc k) xs"]) simp
qed

lemma map_of_entry_removed:
  assumes "distinct (map g_id (filter holds (as @ g # bs)))" "holds g"
  shows "map_of (map entry (filter holds (as @ bs))) =
    (map_of (map entry (filter holds (as @ g # bs))))(g_id g := None)"
proof
  fix j
  have no: "j \<noteq> g_id g" if "x \<in> set as \<union> set bs" "holds x" "j = g_id x" for x
    using that assms by (auto simp: image_iff)
  have none: "map_of (map entry (filter holds (as @ bs))) (g_id g) = None"
    unfolding map_of_eq_None_iff using assms by (auto simp: entry_def image_iff)
  show "map_of (map entry (filter holds (as @ bs))) j =
     ((map_of (map entry (filter holds (as @ g # bs))))(g_id g := None)) j"
    using none assms(2) by (auto simp: map_add_def entry_def split: option.splits)
qed

lemma exec_inv_step:
  assumes "exec_step s t" "exec_inv s"
  shows "exec_inv t"
  using assms
proof (induction rule: exec_step.induct)
  case (submit i s e')
  let ?e = "sys_exec s"
  from submit(1) have e': "e' = ?e\<lparr>activeRuns := AList.update i (nextCtx ?e) (activeRuns ?e),
      wg := wg ?e + 1, nextCtx := nextCtx ?e + 1\<rparr>" and new: "map_of (activeRuns ?e) i = None"
    by (auto simp: Submit_def split: if_splits option.splits)
  from new submit.prems have "map_of (map entry (filter holds (sys_gos s))) i = None"
    by (simp add: exec_inv_def)
  then have i: "i \<notin> g_id ` set (filter holds (sys_gos s))"
    unfolding map_of_eq_None_iff by (auto simp: entry_def image_iff)
  define g where "g = \<lparr>g_id = i, g_ctx = nextCtx ?e, g_pc = Running\<rparr>"
  have g: "holds g" "g_id g = i" "g_ctx g = nextCtx ?e" "entry g = (i, nextCtx ?e)"
    by (simp_all add: g_def holds_def entry_def)
  define held where "held = filter holds (sys_gos s)"
  have held': "filter holds (sys_gos s @ [g]) = held @ [g]" by (simp add: held_def g(1))
  have none: "map_of (map entry held) i = None"
    using new submit.prems by (simp add: exec_inv_def held_def)
  have "map_of (map entry (held @ [g])) = (map_of (map entry held))(i \<mapsto> nextCtx ?e)"
    using none by (auto simp: g fun_eq_iff map_add_def split: option.splits)
  then have "map_of (activeRuns e') = map_of (map entry (held @ [g]))"
    using submit.prems by (simp add: e' update_conv' exec_inv_def held_def)
  moreover have "distinct (map g_id (held @ [g]))"
    using i submit.prems by (simp add: g held_def exec_inv_def)
  moreover have "distinct (map fst (activeRuns e'))"
    using submit.prems by (simp add: e' exec_inv_def distinct_update)
  moreover have "wg e' = length (sys_gos s @ [g])"
    using submit.prems by (simp add: e' exec_inv_def)
  moreover have "\<forall>x \<in> set (sys_gos s @ [g]). g_ctx x < nextCtx e'"
    using submit.prems by (auto simp: e' exec_inv_def g less_Suc_eq)
  moreover have "distinct (map g_ctx (sys_gos s @ [g]))"
    using submit.prems by (auto simp: e' exec_inv_def g)
  ultimately show ?case
    unfolding g_def [symmetric] exec_inv_def by (simp add: held' del: map_append filter_append)
next
  case (submit_rejected i s r e')
  then have "e' = sys_exec s" by (auto simp: Submit_def split: if_splits option.splits)
  with submit_rejected.prems show ?case by (simp add: exec_inv_def)
next
  case (fn_ends k s)
  obtain as bs where split: "sys_gos s = as @ sys_gos s ! k # bs"
    and upd: "\<And>y. (sys_gos s)[k := y] = as @ y # bs"
    using upd_split [OF fn_ends(1)] by blast
  define g where "g = sys_gos s ! k"
  have gos: "sys_gos s = as @ g # bs" using split by (simp add: g_def)
  have pc: "g_pc g = Running" using fn_ends(2) by (simp add: g_def)
  have same: "filter holds (as @ g\<lparr>g_pc := Finished\<rparr> # bs) = filter holds as @ g\<lparr>g_pc := Finished\<rparr> # filter holds bs"
    "filter holds (as @ g # bs) = filter holds as @ g # filter holds bs"
    "entry (g\<lparr>g_pc := Finished\<rparr>) = entry g" "g_id (g\<lparr>g_pc := Finished\<rparr>) = g_id g"
    using pc by (simp_all add: holds_def entry_def)
  have inv: "exec_inv (s\<lparr>sys_gos := as @ g # bs\<rparr>)"
    using fn_ends.prems gos by (metis system.surjective system.update_convs(2))
  show ?case unfolding upd g_def [symmetric]
    using inv by (simp add: exec_inv_def same del: filter_append filter.simps)
next
  case (remove k s)
  obtain as bs where split: "sys_gos s = as @ sys_gos s ! k # bs"
    and upd: "\<And>y. (sys_gos s)[k := y] = as @ y # bs"
    using upd_split [OF remove(1)] by blast
  define g where "g = sys_gos s ! k"
  have gos: "sys_gos s = as @ g # bs" using split by (simp add: g_def)
  have pc: "g_pc g = Finished" using remove(2) by (simp add: g_def)
  have dist: "distinct (map g_id (filter holds (as @ g # bs)))"
    and m: "map_of (activeRuns (sys_exec s)) = map_of (map entry (filter holds (as @ g # bs)))"
    and rest: "wg (sys_exec s) = length (as @ g # bs)" "distinct (map fst (activeRuns (sys_exec s)))"
      "\<forall>x \<in> set (as @ g # bs). g_ctx x < nextCtx (sys_exec s)" "distinct (map g_ctx (as @ g # bs))"
    using remove.prems unfolding exec_inv_def gos by auto
  have h: "holds g" using pc by (simp add: holds_def)
  have "map_of (activeRuns (removeRun (g_id g) (sys_exec s))) = map_of (map entry (filter holds (as @ bs)))"
    unfolding map_of_entry_removed [OF dist h] m [symmetric] by (rule ext) (simp add: map_of_removeRun)
  moreover have "distinct (map fst (activeRuns (removeRun (g_id g) (sys_exec s))))"
    using rest(2) by (auto simp: removeRun_def distinct_delete split: option.splits)
  moreover have "filter holds (as @ g\<lparr>g_pc := Removed\<rparr> # bs) = filter holds (as @ bs)"
    by (simp add: holds_def [of "g\<lparr>g_pc := Removed\<rparr>"])
  ultimately show ?case unfolding upd g_def [symmetric] exec_inv_def using dist rest h by auto
next
  case (wg_done k s)
  obtain as bs where split: "sys_gos s = as @ sys_gos s ! k # bs"
    and del: "take k (sys_gos s) @ drop (Suc k) (sys_gos s) = as @ bs"
    using upd_split [OF wg_done(1)] by blast
  define g where "g = sys_gos s ! k"
  have gos: "sys_gos s = as @ g # bs" using split by (simp add: g_def)
  have "\<not> holds g" using wg_done(2) by (simp add: holds_def g_def)
  with wg_done.prems show ?case unfolding exec_inv_def by (simp add: del wg_Done_def) (simp add: gos)
qed (auto simp: exec_inv_def)

lemma exec_inv_init: "exec_inv init_system"
  by (simp add: exec_inv_def init_system_def NewCheckExecutor_def)

lemma exec_inv_reachable: "exec_reachable s \<Longrightarrow> exec_inv s"
proof (induction rule: exec_reachable.induct)
  case init
  then show ?case by (rule exec_inv_init)
next
  case (step s t)
  from step(2) step(3) show ?case by (rule exec_inv_step)
qed

lemma map_of_held:
  assumes "distinct (map g_id (filter holds gs))" "g \<in> set gs" "holds g"
  shows "map_of (map entry (filter holds gs)) (g_id g) = Some (g_ctx g)"
proof -
  have "(g_id g, g_ctx g) \<in> set (map entry (filter holds gs))"
    using assms(2,3) by (auto simp: entry_def image_iff)
  moreover have "distinct (map fst (map entry (filter holds gs)))" using assms(1) by simp
  ultimately show ?thesis by simp
qed

lemma held_of_map:
  assumes "exec_inv s" "map_of (activeRuns (sys_exec s)) i = Some n"
  shows "\<exists>g \<in> set (sys_gos s). holds g \<and> g_id g = i \<and> g_ctx g = n"
proof -
  have "map_of (map entry (filter holds (sys_gos s))) i = Some n"
    using assms by (simp add: exec_inv_def)
  from map_of_SomeD [OF this] show ?thesis by (auto simp: entry_def)
qed

lemma length_activeRuns:
  assumes "exec_inv s"
  shows "length (activeRuns (sys_exec s)) = length (filter holds (sys_gos s))"
proof -
  have eq: "dom (map_of (activeRuns (sys_exec s))) = dom (map_of (map entry (filter holds (sys_gos s))))"
    using assms by (simp add: exec_inv_def)
  have "card (set (map fst (activeRuns (sys_exec s)))) = card (set (map g_id (filter holds (sys_gos s))))"
    using eq by (simp add: dom_map_of_conv_image_fst image_image entry_def)
  then show ?thesis using assms
    by (simp only: exec_inv_def distinct_card length_map)
qed

lemma running_iff_held:
  assumes "exec_inv s"
  shows "IsRunning i (sys_exec s) \<longleftrightarrow> (\<exists>g \<in> set (sys_gos s). holds g \<and> g_id g = i)"
proof
  assume "IsRunning i (sys_exec s)"
  then show "\<exists>g \<in> set (sys_gos s). holds g \<and> g_id g = i"
    using held_of_map [OF assms] by (auto simp: IsRunning_def)
next
  assume "\<exists>g \<in> set (sys_gos s). holds g \<and> g_id g = i"
  then obtain g where g: "g \<in> set (sys_gos s)" "holds g" "g_id g = i" by blast
  from assms have "distinct (map g_id (filter holds (sys_gos s)))"
    and "map_of (activeRuns (sys_exec s)) = map_of (map entry (filter holds (sys_gos s)))"
    by (simp_all add: exec_inv_def)
  with map_of_held [OF _ g(1,2)] g(3) show "IsRunning i (sys_exec s)"
    by (simp add: IsRunning_def)
qed

text \<open>
  C33. In every interleaving the registry is exact: no two goroutines hold the same identifier,
  \<open>IsRunning\<close> holds of exactly the identifiers that a goroutine holds, each holder's own context is
  the one its entry cancels, \<open>ActiveRunCount\<close> counts the holders and the wait group the goroutines.
\<close>

theorem registry_exact:
  assumes "exec_reachable s"
  shows "distinct (map g_id (filter holds (sys_gos s)))
    \<and> (\<forall>i. IsRunning i (sys_exec s) \<longleftrightarrow> (\<exists>g \<in> set (sys_gos s). holds g \<and> g_id g = i))
    \<and> (\<forall>g \<in> set (sys_gos s). holds g \<longrightarrow> map_of (activeRuns (sys_exec s)) (g_id g) = Some (g_ctx g))
    \<and> ActiveRunCount (sys_exec s) = length (filter holds (sys_gos s))
    \<and> wg (sys_exec s) = length (sys_gos s)"
proof -
  have inv: "exec_inv s" using assms by (rule exec_inv_reachable)
  then show ?thesis
    using running_iff_held [OF inv] length_activeRuns [OF inv] map_of_held
    by (simp add: ActiveRunCount_def exec_inv_def)
qed

text \<open>A concrete interleaving: the executor starts and two runs of one object are submitted.\<close>

definition sample_exec :: executor where
  "sample_exec = \<lparr>activeRuns = [(''ns/w:user'', 0), (''ns/w:group'', 1)], wg = 2,
     managerCtx = Some False, cancelled = [], nextCtx = 2\<rparr>"

definition sample_system :: system where
  "sample_system = \<lparr>sys_exec = sample_exec,
     sys_gos = [\<lparr>g_id = ''ns/w:user'', g_ctx = 0, g_pc = Running\<rparr>,
                \<lparr>g_id = ''ns/w:group'', g_ctx = 1, g_pc = Running\<rparr>],
     sys_pending = [], sys_start = Blocking\<rparr>"

lemma sample_reachable: "exec_reachable sample_system"
proof -
  let ?s0 = "init_system\<lparr>sys_exec := NewCheckExecutor\<lparr>managerCtx := Some False\<rparr>, sys_start := Blocking\<rparr>"
  let ?e1 = "NewCheckExecutor\<lparr>managerCtx := Some False, activeRuns := [(''ns/w:user'', 0)], wg := 1, nextCtx := 1\<rparr>"
  let ?s1 = "?s0\<lparr>sys_exec := ?e1, sys_gos := [\<lparr>g_id = ''ns/w:user'', g_ctx = 0, g_pc = Running\<rparr>]\<rparr>"
  have "exec_step init_system ?s0"
    using exec_step.start [of init_system] by (simp add: init_system_def)
  with exec_reachable.init have r0: "exec_reachable ?s0" by (rule exec_reachable.step)
  have "Submit ''ns/w:user'' (sys_exec ?s0) = (Ret True, ?e1)"
    by (simp add: Submit_def NewCheckExecutor_def)
  from exec_step.submit [OF this] have "exec_step ?s0 ?s1"
    by (simp add: init_system_def NewCheckExecutor_def)
  with r0 have r1: "exec_reachable ?s1" by (rule exec_reachable.step)
  have "Submit ''ns/w:group'' (sys_exec ?s1) = (Ret True, sample_exec)"
    by (simp add: Submit_def NewCheckExecutor_def sample_exec_def)
  from exec_step.submit [OF this] have "exec_step ?s1 sample_system"
    by (simp add: init_system_def NewCheckExecutor_def sample_system_def sample_exec_def)
  with r1 show ?thesis by (rule exec_reachable.step)
qed

theorem registry_exact_witness:
  "ActiveRunCount (sys_exec sample_system) = 2 \<and> IsRunning ''ns/w:user'' (sys_exec sample_system)"
  using registry_exact [OF sample_reachable]
  by (simp add: sample_system_def holds_def)

text \<open>
  \<open>CancelByPrefix\<close> with the prefix of one object signals every active run of that object and no
  active run of another, in whatever order the runtime ranges over the map.
\<close>

theorem CancelByPrefix_exact:
  assumes "exec_reachable s" and "is_order ord"
    and "g \<in> set (sys_gos s)" and "holds g" and "g_id g = NewCheckRunID ns name checkType"
    and "CHR ''/'' \<notin> set ns" and "CHR ''/'' \<notin> set ns'"
    and "CHR '':'' \<notin> set name" and "CHR '':'' \<notin> set name'"
  shows "ctx_done (CancelByPrefix ord (ns' @ ''/'' @ name' @ '':'') (sys_exec s)) (g_ctx g)
    \<longleftrightarrow> ctx_done (sys_exec s) (g_ctx g) \<or> (ns, name) = (ns', name')"
proof -
  let ?e = "sys_exec s"
  let ?p = "ns' @ ''/'' @ name' @ '':''"
  have inv: "exec_inv s" using assms(1) by (rule exec_inv_reachable)
  have own: "map_of (activeRuns ?e) (g_id g) = Some (g_ctx g)"
    using inv map_of_held assms(3,4) by (simp add: exec_inv_def)
  have same_ctx: "i = g_id g" if i: "map_of (activeRuns ?e) i = Some (g_ctx g)" for i
  proof -
    obtain h where h: "h \<in> set (sys_gos s)" "g_id h = i" "g_ctx h = g_ctx g"
      using held_of_map [OF inv i] by auto
    have "inj_on g_ctx (set (sys_gos s))" using inv by (simp add: exec_inv_def distinct_map)
    then show ?thesis using h assms(3) by (auto dest: inj_onD)
  qed
  have "g_ctx g \<in> set (cancelled (CancelByPrefix ord ?p ?e)) \<longleftrightarrow>
      g_ctx g \<in> set (cancelled ?e) \<or>
      (\<exists>i. i \<in> dom (map_of (activeRuns ?e)) \<and> CheckRunID_HasPrefix i ?p \<and> map_of (activeRuns ?e) i = Some (g_ctx g))"
    unfolding CancelByPrefix_def Let_def set_cancelled_fold_Cancel
    by (simp only: set_filter is_order_set [OF assms(2)] set_gm_keys) blast
  also have "\<dots> \<longleftrightarrow> g_ctx g \<in> set (cancelled ?e) \<or> CheckRunID_HasPrefix (g_id g) ?p"
    using own same_ctx by blast
  also have "CheckRunID_HasPrefix (g_id g) ?p \<longleftrightarrow> (ns, name) = (ns', name')"
    unfolding assms(5) HasPrefix_New [OF assms(6-9)] by simp
  finally show ?thesis by (simp add: ctx_done_def CancelByPrefix_def)
qed

theorem CancelByPrefix_exact_witness:
  "ctx_done (CancelByPrefix (\<lambda>ks. ks) ''ns/w:'' sample_exec) 1 \<and> \<not> ctx_done (CancelByPrefix (\<lambda>ks. ks) ''ns/other:'' sample_exec) 1"
proof -
  let ?g = "\<lparr>g_id = ''ns/w:group'', g_ctx = 1, g_pc = Running\<rparr>"
  have g: "?g \<in> set (sys_gos sample_system)" "holds ?g" "g_id ?g = NewCheckRunID ''ns'' ''w'' ''group''"
    by (simp_all add: sample_system_def holds_def NewCheckRunID_def)
  have e: "sys_exec sample_system = sample_exec" "\<not> ctx_done sample_exec 1"
    by (simp_all add: sample_system_def sample_exec_def ctx_done_def)
  show ?thesis
    using CancelByPrefix_exact [OF sample_reachable is_order_id g, of "''ns''" "''w''"]
      CancelByPrefix_exact [OF sample_reachable is_order_id g, of "''ns''" "''other''"] e
    by simp
qed

text \<open>
  A run that was accepted leaves the registry as it found it, whether its function returned or
  panicked: the same active runs and the same wait group, and its context is released. So the
  identifier can be submitted again.
\<close>

theorem run_leaves_registry:
  assumes "Submit i e = (Ret True, e1)" and "result \<noteq> NoReturn"
  shows "let e2 = safeRun i result e1 in
    activeRuns e2 = activeRuns e \<and> wg e2 = wg e \<and> ctx_done e2 (nextCtx e)
    \<and> (\<forall>n. n \<noteq> nextCtx e \<longrightarrow> ctx_done e2 n = ctx_done e n) \<and> fst (Submit i e2) = Ret True"
proof -
  have none: "map_of (activeRuns e) i = None" and m: "managerCtx e \<noteq> None"
    and e1: "e1 = e\<lparr>activeRuns := AList.update i (nextCtx e) (activeRuns e), wg := wg e + 1,
      nextCtx := nextCtx e + 1\<rparr>"
    using assms(1) by (auto simp: Submit_def split: if_splits option.splits)
  have absent: "i \<notin> fst ` set (activeRuns e)" using none by (simp add: map_of_eq_None_iff)
  have upd: "AList.update i (nextCtx e) (activeRuns e) = activeRuns e @ [(i, nextCtx e)]"
    using absent by (rule alist_update_new)
  have rem: "removeRun i e1 = e\<lparr>wg := wg e + 1, nextCtx := nextCtx e + 1, cancelled := nextCtx e # cancelled e\<rparr>"
    using none alist_delete_absent [OF absent]
    by (simp add: removeRun_def e1 upd alist_delete_append map_add_def)
  have e2: "safeRun i result e1 = e\<lparr>nextCtx := nextCtx e + 1, cancelled := nextCtx e # cancelled e\<rparr>"
    using assms(2) by (cases result; cases e) (simp_all add: safeRun_def rem wg_Done_def del: removeRun_frame)

  show ?thesis using none m by (auto simp: Let_def e2 ctx_done_def Submit_def split: option.splits)
qed

theorem run_leaves_registry_witness:
  "let e = NewCheckExecutor\<lparr>managerCtx := Some False\<rparr> in
   activeRuns (safeRun ''ns/w:user'' (Panic ''nil map'') (snd (Submit ''ns/w:user'' e))) = []"
  using run_leaves_registry [of "''ns/w:user''" "NewCheckExecutor\<lparr>managerCtx := Some False\<rparr>"
      "snd (Submit ''ns/w:user'' (NewCheckExecutor\<lparr>managerCtx := Some False\<rparr>))" "Panic ''nil map''"]
  by (simp add: Let_def Submit_def NewCheckExecutor_def)

lemma start_inv_reachable:
  "exec_reachable s \<Longrightarrow>
   (sys_start s = NotStarted \<longleftrightarrow> managerCtx (sys_exec s) = None) \<and>
   (sys_start s \<in> {Draining, ReturnedDone, ReturnedTimeout} \<longrightarrow> managerCtx (sys_exec s) = Some True)"
proof (induction rule: exec_reachable.induct)
  case init
  then show ?case by (simp add: init_system_def NewCheckExecutor_def)
next
  case (step s t)
  from step(2) step(3) show ?case
    by (cases rule: exec_step.cases) (auto simp: Submit_def wg_Done_def split: if_splits option.splits)
qed



end
