(* ===== verification/World.thy ===== *)
theory World
  imports ApiTypes Executor
begin

text \<open>
  What the effectful components share: the Kubernetes objects they handle, the calls they make to the
  outside (\<open>event\<close>), the outside itself (\<open>env\<close>) and the state they run on (\<open>world\<close>). The API server,
  Valkey, the clock, the random source, the kubelet and the helper packages of Kubernetes are not under
  \<open>src/\<close>: each is a field of \<open>env\<close>, a function of the calls made so far, so that two equal calls may
  be answered differently. What the code relies on is stated by the predicates \<open>meta_laws\<close>, \<open>retry_laws\<close>
  and \<open>api_laws\<close>; a reference environment at the end satisfies them.
\<close>

section \<open>Kubernetes objects\<close>

record ContainerStatus =
  cs_Name :: string
  cs_Waiting :: "string option"
  cs_Terminated :: "string option"
  cs_Ready :: bool

record Pod =
  pd_Namespace :: string
  pd_Name :: string
  pd_UID :: string
  pd_NodeName :: string
  pd_Containers :: "string list"
  pd_InitContainers :: "string list"
  pd_Phase :: string
  pd_DeletionTimestamp :: "int option"
  pd_StartTime :: "int option"
  pd_ContainerStatuses :: "ContainerStatus list"

type_synonym label_set = "(string, string) gomap"

record Namespace =
  nsp_Name :: string
  nsp_Labels :: label_set
  nsp_CreationTimestamp :: int
  nsp_Owners :: "string list"

record Subject =
  sub_Kind :: string
  sub_Name :: string
  sub_Namespace :: string

record ClusterRoleBinding =
  crb_Name :: string
  crb_Labels :: label_set
  crb_ResourceVersion :: string
  crb_SelfLink :: string
  crb_UID :: string
  crb_Generation :: int
  crb_Subjects :: "Subject list"
  crb_other :: opaque

text \<open>
  An \<open>unstructured.Unstructured\<close>: the metadata its accessors read, and the two entries of its content
  the code looks into. \<open>u_Spec\<close> is \<open>None\<close> when \<open>spec\<close> is absent or not a map, \<open>u_Subjects\<close> when
  \<open>subjects\<close> is absent or not a list.
\<close>

record Resource =
  u_Kind :: string
  u_APIVersion :: string
  u_Name :: string
  u_Namespace :: string
  u_ResourceVersion :: string
  u_SelfLink :: string
  u_UID :: string
  u_Generation :: int
  u_OwnerReferences :: "opaque list"
  u_Annotations :: label_set
  u_Spec :: "(string, opaque) gomap option"
  u_Subjects :: "(string, string) gomap list option"
  u_other :: opaque

record Service =
  svc_ClusterIP :: string
  svc_ClusterIPs :: "string list"
  svc_ExternalIPs :: "string list"
  svc_LoadBalancerIP :: string
  svc_other :: Resource

record APIResource =
  ar_Name :: string
  ar_Kind :: string
  ar_Group :: string
  ar_Namespaced :: bool

record APIResourceList =
  arl_GroupVersion :: string
  arl_APIResources :: "APIResource list"

type_synonym gvr = "string \<times> string \<times> string"

record ResourceUsageRecord =
  rur_Time :: int
  rur_CpuNanoCores :: int64
  rur_MemoryBytes :: int64

record WorkloadRecording =
  wr_Type :: string
  wr_PodStateRunning :: bool
  wr_StartTime :: int
  wr_EndTime :: int
  wr_SecurityContextConfigurations :: "SecurityContextDefaults option"
  wr_RecordedMetrics :: "ResourceUsageRecord list"
  wr_Logs :: "(string, string list) gomap"

text \<open>The statistics of a pod, as the kubelet reports them; either number may be absent.\<close>

record PodStats =
  ps_CPU :: "64 word option"
  ps_Memory :: "64 word option"

section \<open>Calls to the outside\<close>

text \<open>
  The functions given to the executor: a run of one check on the security context at an address of the
  heap (with the delay of the second baseline or not), a recording of all workloads of a namespace
  and the final check of a namespace.
\<close>

datatype Job =
    RunCheckJob WorkloadHardeningCheck string "nat option" bool
  | RecordAllJob NamespaceHardeningCheck string bool
  | FinalCheckJob NamespaceHardeningCheck

datatype event =
    EvNow | EvSleep int | EvRand nat
  | EvGetWHC string string | EvRefreshWHC string string
  | EvStatusUpdateWHC WorkloadHardeningCheck | EvUpdateWHC WorkloadHardeningCheck
  | EvCreateWHC WorkloadHardeningCheck | EvListWHCs string
  | EvGetNHC string | EvStatusUpdateNHC NamespaceHardeningCheck
  | EvGetWorkload Kind string string | EvUpdateWorkload Workload
  | EvListPods string opaque | EvGetPod string string | EvGetLogs string string string bool
  | EvListNodes | EvNodeStats string
  | EvGetNamespace string | EvListNamespaces label_set
  | EvUpdateNamespace Namespace | EvCreateNamespace Namespace | EvDeleteNamespace Namespace
  | EvListCRBs label_set | EvCreateCRB ClusterRoleBinding | EvDeleteCRB ClusterRoleBinding
  | EvListResources gvr string | EvCreateResource Resource
  | EvSet string string | EvGet string | EvDel string
  | EvEvent string string string
  | EvIsRunning string | EvSubmit string Job bool | EvCancelByPrefix string

type_synonym trace = "event list"

definition LabelSourceNamespace :: string where "LabelSourceNamespace = ''orakel.ofunk.org/source-namespace''"
definition LabelTargetNamespace :: string where "LabelTargetNamespace = ''orakel.ofunk.org/target-namespace''"
definition LabelSuffix :: string where "LabelSuffix = ''orakel.ofunk.org/suffix''"
definition LabelCheckRunID :: string where "LabelCheckRunID = ''orakel.ofunk.org/check-run-id''"
definition LabelManagedBy :: string where "LabelManagedBy = ''app.kubernetes.io/managed-by''"
definition ManagedByValue :: string where "ManagedByValue = ''orakel-of-funk''"
definition FinalizerCleanup :: string where "FinalizerCleanup = ''orakel.ofunk.org/cleanup''"

lemmas label_consts = LabelSourceNamespace_def LabelTargetNamespace_def LabelSuffix_def
  LabelCheckRunID_def LabelManagedBy_def ManagedByValue_def FinalizerCleanup_def

text \<open>
  What a run may touch. Every call that changes nothing outside is allowed; so are notifications, status
  updates of the custom resource \<open>ns/n\<close> and entries of Valkey. With \<open>T = Some t\<close> the namespace \<open>t\<close>, what
  is in it and the cluster role bindings labelled with it may be changed too. Nothing else may.
\<close>

fun footprint :: "string option \<Rightarrow> string \<Rightarrow> string \<Rightarrow> event \<Rightarrow> bool" where
  "footprint T ns n (EvStatusUpdateWHC x) \<longleftrightarrow> whc_Namespace x = ns \<and> whc_Name x = n"
| "footprint T ns n (EvUpdateWHC x) \<longleftrightarrow> False"
| "footprint T ns n (EvCreateWHC x) \<longleftrightarrow> False"
| "footprint T ns n (EvStatusUpdateNHC x) \<longleftrightarrow> False"
| "footprint T ns n (EvUpdateWorkload wl) \<longleftrightarrow> T = Some (wl_Namespace wl)"
| "footprint T ns n (EvUpdateNamespace x) \<longleftrightarrow> T = Some (nsp_Name x)"
| "footprint T ns n (EvCreateNamespace x) \<longleftrightarrow> T = Some (nsp_Name x)"
| "footprint T ns n (EvDeleteNamespace x) \<longleftrightarrow> T = Some (nsp_Name x)"
| "footprint T ns n (EvCreateCRB x) \<longleftrightarrow> T \<noteq> None \<and> map_of (crb_Labels x) LabelTargetNamespace = T"
| "footprint T ns n (EvDeleteCRB x) \<longleftrightarrow> T \<noteq> None \<and> map_of (crb_Labels x) LabelTargetNamespace = T"
| "footprint T ns n (EvCreateResource x) \<longleftrightarrow> T = Some (u_Namespace x)"
| "footprint T ns n (EvDel k) \<longleftrightarrow> False"
| "footprint T ns n (EvSubmit i j b) \<longleftrightarrow> False"
| "footprint T ns n (EvCancelByPrefix p) \<longleftrightarrow> False"
| "footprint T ns n _ \<longleftrightarrow> True"

section \<open>The state of a component\<close>

text \<open>
  \<open>w_whc\<close> is the in-memory copy of the custom resource that a manager or a runner works on,
  \<open>w_wl\<close> the workload object a runner holds a pointer to, \<open>w_scaled\<close> the one of
  \<open>ScaleWorkloadUnderTest\<close>. Security contexts handed to the executor are shared by pointer: \<open>w_heap\<close>
  holds them, \<open>w_sc_ptr\<close> is the pointer in \<open>w_whc\<close>'s specification.
\<close>

record world =
  w_trace :: trace
  w_whc :: WorkloadHardeningCheck
  w_sc_ptr :: "nat option"
  w_heap :: "SecurityContextDefaults list"
  w_wl :: Workload
  w_scaled :: Workload
  w_nhc :: NamespaceHardeningCheck
  w_checkSuccessful :: bool
  w_podMetrics :: "(string, PodStats) gomap"
  w_podMetricsLastUpdate :: "int option"
  w_exec :: executor

type_synonym 'a prog = "(world, 'a) state"

section \<open>The outside\<close>

text \<open>The functions of \<open>k8s.io/apimachinery/pkg/api/meta\<close> on condition lists.\<close>

record meta_api =
  m_Find :: "Condition list \<Rightarrow> string \<Rightarrow> Condition option"
  m_IsTrue :: "Condition list \<Rightarrow> string \<Rightarrow> bool"
  m_IsFalse :: "Condition list \<Rightarrow> string \<Rightarrow> bool"
  m_IsPresentAndEqual :: "Condition list \<Rightarrow> string \<Rightarrow> ConditionStatus \<Rightarrow> bool"
  m_Set :: "int \<Rightarrow> Condition list \<Rightarrow> Condition \<Rightarrow> Condition list"

text \<open>The functions of \<open>controllerutil\<close> on the finalizers of an object.\<close>

record finalizer_api =
  f_Contains :: "string list \<Rightarrow> string \<Rightarrow> bool"
  f_Add :: "string list \<Rightarrow> string \<Rightarrow> string list"
  f_Remove :: "string list \<Rightarrow> string \<Rightarrow> string list"

record env =
  e_meta :: meta_api
  e_now :: "trace \<Rightarrow> int"
  e_title :: "string \<Rightarrow> string"
  e_order :: "trace \<Rightarrow> string list \<Rightarrow> string list"
  e_retry :: "(world \<Rightarrow> error option \<times> world) \<Rightarrow> world \<Rightarrow> error option \<times> world"
  e_rand :: "trace \<Rightarrow> nat"
  e_randString :: "trace \<Rightarrow> nat \<Rightarrow> string"
  e_parseFraction :: "string \<Rightarrow> nat \<Rightarrow> nat"
  e_GetWHC :: "trace \<Rightarrow> string \<Rightarrow> string \<Rightarrow> error + WorkloadHardeningCheck"
  e_RefreshWHC :: "trace \<Rightarrow> WorkloadHardeningCheck \<Rightarrow> error + WorkloadHardeningCheck"
  e_StatusUpdateWHC :: "trace \<Rightarrow> WorkloadHardeningCheck \<Rightarrow> error option \<times> WorkloadHardeningCheck"
  e_UpdateWHC :: "trace \<Rightarrow> WorkloadHardeningCheck \<Rightarrow> error option \<times> WorkloadHardeningCheck"
  e_CreateWHC :: "trace \<Rightarrow> WorkloadHardeningCheck \<Rightarrow> error option"
  e_ListWHCs :: "trace \<Rightarrow> string \<Rightarrow> error + WorkloadHardeningCheck list"
  e_GetNHC :: "trace \<Rightarrow> string \<Rightarrow> error + NamespaceHardeningCheck"
  e_StatusUpdateNHC :: "trace \<Rightarrow> NamespaceHardeningCheck \<Rightarrow> error option \<times> NamespaceHardeningCheck"
  e_GetWorkload :: "trace \<Rightarrow> Kind \<Rightarrow> string \<Rightarrow> string \<Rightarrow> error + Workload"
  e_UpdateWorkload :: "trace \<Rightarrow> Workload \<Rightarrow> error option \<times> Workload"
  e_Selector :: "opaque \<Rightarrow> error + opaque"
  e_ListPods :: "trace \<Rightarrow> string \<Rightarrow> opaque \<Rightarrow> error + Pod list"
  e_GetPod :: "trace \<Rightarrow> Pod \<Rightarrow> Pod"
  e_GetLogs :: "trace \<Rightarrow> string \<Rightarrow> string \<Rightarrow> string \<Rightarrow> bool \<Rightarrow> error + string"
  e_ListNodes :: "trace \<Rightarrow> error + string list"
  e_NodeStats :: "trace \<Rightarrow> string \<Rightarrow> (string \<times> PodStats) list option"
  e_next :: "trace \<Rightarrow> nat \<Rightarrow> nat"
  e_permutation :: "trace \<Rightarrow> nat \<Rightarrow> nat list"
  e_GetNamespace :: "trace \<Rightarrow> string \<Rightarrow> error + Namespace"
  e_ListNamespaces :: "trace \<Rightarrow> label_set \<Rightarrow> error + Namespace list"
  e_CreateNamespace :: "trace \<Rightarrow> Namespace \<Rightarrow> error option"
  e_DeleteNamespace :: "trace \<Rightarrow> Namespace \<Rightarrow> error option"
  e_ListCRBs :: "trace \<Rightarrow> label_set \<Rightarrow> error + ClusterRoleBinding list"
  e_CreateCRB :: "trace \<Rightarrow> ClusterRoleBinding \<Rightarrow> error option"
  e_DeleteCRB :: "trace \<Rightarrow> ClusterRoleBinding \<Rightarrow> error option"
  e_namespacedResources :: "APIResourceList list"
  e_ParseGroupVersion :: "string \<Rightarrow> error + string \<times> string"
  e_ListResources :: "trace \<Rightarrow> gvr \<Rightarrow> string \<Rightarrow> error + Resource list"
  e_CreateResource :: "trace \<Rightarrow> Resource \<Rightarrow> error option"
  e_FromUnstructured :: "Resource \<Rightarrow> Service option"
  e_ToUnstructured :: "Service \<Rightarrow> Resource"
  e_Set :: "trace \<Rightarrow> string \<Rightarrow> string \<Rightarrow> error option"
  e_Get :: "trace \<Rightarrow> string \<Rightarrow> error + string"
  e_Del :: "trace \<Rightarrow> string \<Rightarrow> error option"
  e_Marshal :: "WorkloadRecording \<Rightarrow> error + string"
  e_Unmarshal :: "string \<Rightarrow> error + WorkloadRecording"
  e_UpdateNamespace :: "trace \<Rightarrow> Namespace \<Rightarrow> error option \<times> Namespace"
  e_OwnNamespace :: "NamespaceHardeningCheck \<Rightarrow> Namespace \<Rightarrow> Namespace"
  e_OwnWHC :: "NamespaceHardeningCheck \<Rightarrow> WorkloadHardeningCheck \<Rightarrow> WorkloadHardeningCheck"
  e_finalizers :: finalizer_api
  e_ctxDone :: "trace \<Rightarrow> bool"
  e_completed :: "trace \<Rightarrow> string list"

end
