(* ===== verification/Effects.thy ===== *)
theory Effects
  imports World
begin

text \<open>
  The state-monad vocabulary of the effectful components: a call to the outside appends its event to the
  trace and is answered from the trace so far; \<open>steps\<close> is a Hoare triple that also bounds the events
  of a run. The rules in \<open>emits_intros\<close> follow the shape of a program, so that \<open>intro emits_intros\<close> proves
  what a handler may emit.
\<close>

section \<open>Primitive steps\<close>

definition ask :: "event \<Rightarrow> (trace \<Rightarrow> 'a) \<Rightarrow> 'a prog" where
  "ask ev answer = do {
     w \<leftarrow> State_Monad.get;
     State_Monad.set (w\<lparr>w_trace := w_trace w @ [ev]\<rparr>);
     ret (answer (w_trace w)) }"

definition gets :: "(world \<Rightarrow> 'a) \<Rightarrow> 'a prog" where
  "gets f = do { w \<leftarrow> State_Monad.get; ret (f w) }"

definition modify :: "(world \<Rightarrow> world) \<Rightarrow> unit prog" where
  "modify f = do { w \<leftarrow> State_Monad.get; State_Monad.set (f w) }"

definition emit :: "event \<Rightarrow> unit prog" where
  "emit ev = ask ev (\<lambda>_. ())"

text \<open>\<open>retry.RetryOnConflict(retry.DefaultRetry, f)\<close>\<close>

definition RetryOnConflict :: "env \<Rightarrow> error option prog \<Rightarrow> error option prog" where
  "RetryOnConflict env f = State (e_retry env (run_state f))"

lemma run_ask [run_simps]:
  "run_state (ask ev answer) w = (answer (w_trace w), w\<lparr>w_trace := w_trace w @ [ev]\<rparr>)"
  by (simp add: ask_def)

lemma run_gets [run_simps]: "run_state (gets f) w = (f w, w)"
  by (simp add: gets_def)

lemma run_modify [run_simps]: "run_state (modify f) w = ((), f w)"
  by (simp add: modify_def)

lemma run_emit [run_simps]: "run_state (emit ev) w = ((), w\<lparr>w_trace := w_trace w @ [ev]\<rparr>)"
  by (simp add: emit_def run_ask)

lemma run_bind [run_simps]:
  "run_state (State_Monad.bind m f) w = (case run_state m w of (x, w') \<Rightarrow> run_state (f x) w')"
  by (cases m) (simp add: State_Monad.bind_def)

lemma run_ret [run_simps]: "run_state (ret x) w = (x, w)"
  by (simp add: State_Monad.return_def)

lemma run_RetryOnConflict [run_simps]:
  "run_state (RetryOnConflict env f) w = e_retry env (run_state f) w"
  by (simp add: RetryOnConflict_def)

lemma run_attempt [run_simps]:
  "run_state (attempt m f) w = (case run_state m w of (r, w') \<Rightarrow>
     (case r of Ret x \<Rightarrow> run_state (f x) w' | Panic p \<Rightarrow> (Panic p, w') | NoReturn \<Rightarrow> (NoReturn, w')))"
  by (simp add: attempt_def run_simps split: prod.splits outcome.splits)

text \<open>The order in which a loop ranges over a map, chosen by the runtime when the loop starts.\<close>

definition map_order :: "env \<Rightarrow> (string list \<Rightarrow> string list) prog" where
  "map_order env = gets (\<lambda>w. e_order env (w_trace w))"

lemma run_map_order [run_simps]: "run_state (map_order env) w = (e_order env (w_trace w), w)"
  by (simp add: map_order_def run_gets)

section \<open>What the code relies on\<close>

definition meta_laws :: "meta_api \<Rightarrow> bool" where
  "meta_laws m \<longleftrightarrow>
     (\<forall>cs t. (m_Find m cs t = None) = (t \<notin> c_Type ` set cs))
     \<and> (\<forall>cs t c. m_Find m cs t = Some c \<longrightarrow> c \<in> set cs \<and> c_Type c = t)
     \<and> (\<forall>cs t s. m_IsPresentAndEqual m cs t s = (\<exists>c. m_Find m cs t = Some c \<and> c_Status c = s))
     \<and> (\<forall>cs t. m_IsTrue m cs t = m_IsPresentAndEqual m cs t ConditionTrue)
     \<and> (\<forall>cs t. m_IsFalse m cs t = m_IsPresentAndEqual m cs t ConditionFalse)
     \<and> (\<forall>now cs c. \<exists>c'. m_Find m (m_Set m now cs c) (c_Type c) = Some c' \<and> c_Status c' = c_Status c
          \<and> c_Reason c' = c_Reason c \<and> c_Message c' = c_Message c)
     \<and> (\<forall>now cs c t. t \<noteq> c_Type c \<longrightarrow> m_Find m (m_Set m now cs c) t = m_Find m cs t)"

definition finalizer_laws :: "finalizer_api \<Rightarrow> bool" where
  "finalizer_laws f \<longleftrightarrow>
     (\<forall>l x. f_Contains f l x \<longleftrightarrow> x \<in> set l)
     \<and> (\<forall>l x. set (f_Add f l x) = insert x (set l))
     \<and> (\<forall>l x. set (f_Remove f l x) = set l - {x})"

text \<open>
  \<open>RetryOnConflict\<close> runs the function, and runs it again only after a conflict, a bounded number of
  times; it returns the last result.
\<close>

fun tries :: "nat \<Rightarrow> ('w \<Rightarrow> error option \<times> 'w) \<Rightarrow> 'w \<Rightarrow> error option \<times> 'w" where
  "tries 0 f w = f w"
| "tries (Suc n) f w = (case f w of
     (Some e, w') \<Rightarrow> if IsConflict e then tries n f w' else (Some e, w')
   | (None, w') \<Rightarrow> (None, w'))"

definition retry_laws :: "((world \<Rightarrow> error option \<times> world) \<Rightarrow> world \<Rightarrow> error option \<times> world) \<Rightarrow> bool" where
  "retry_laws r \<longleftrightarrow> (\<forall>f w. \<exists>n. r f w = tries n f w)"

text \<open>The client reads the object of the requested key, and writing an object keeps its key.\<close>

definition api_laws :: "env \<Rightarrow> bool" where
  "api_laws env \<longleftrightarrow>
     (\<forall>tr ns n w. e_GetWHC env tr ns n = Inr w \<longrightarrow> whc_Namespace w = ns \<and> whc_Name w = n)
     \<and> (\<forall>tr w. whc_Namespace (snd (e_StatusUpdateWHC env tr w)) = whc_Namespace w
          \<and> whc_Name (snd (e_StatusUpdateWHC env tr w)) = whc_Name w)
     \<and> (\<forall>tr w x. e_RefreshWHC env tr w = Inr x \<longrightarrow> whc_Namespace x = whc_Namespace w \<and> whc_Name x = whc_Name w)
     \<and> (\<forall>tr k ns n wl. e_GetWorkload env tr k ns n = Inr wl \<longrightarrow>
          wl_Kind wl = k \<and> wl_Namespace wl = ns \<and> wl_Name wl = n)
     \<and> (\<forall>tr wl. wl_Kind (snd (e_UpdateWorkload env tr wl)) = wl_Kind wl
          \<and> wl_Namespace (snd (e_UpdateWorkload env tr wl)) = wl_Namespace wl
          \<and> wl_Name (snd (e_UpdateWorkload env tr wl)) = wl_Name wl)
     \<and> (\<forall>tr n ns. e_GetNamespace env tr n = Inr ns \<longrightarrow> nsp_Name ns = n)
     \<and> (\<forall>tr sel crbs. e_ListCRBs env tr sel = Inr crbs \<longrightarrow>
          (\<forall>crb \<in> set crbs. \<forall>(k, v) \<in> set sel. map_of (crb_Labels crb) k = Some v))"

definition lawful :: "env \<Rightarrow> bool" where
  "lawful env \<longleftrightarrow> meta_laws (e_meta env) \<and> retry_laws (e_retry env) \<and> api_laws env"

lemma lawful_laws:
  assumes "lawful env"
  shows "meta_laws (e_meta env)" "retry_laws (e_retry env)" "api_laws env"
  using assms by (simp_all add: lawful_def)

lemma GetWHC_key:
  assumes "lawful env" "e_GetWHC env tr ns n = Inr x"
  shows "whc_Namespace x = ns" "whc_Name x = n"
proof -
  have "\<forall>tr ns n w. e_GetWHC env tr ns n = Inr w \<longrightarrow> whc_Namespace w = ns \<and> whc_Name w = n"
    using lawful_laws(3) [OF assms(1)] unfolding api_laws_def by (elim conjE)
  from this [rule_format, OF assms(2)] show "whc_Namespace x = ns" "whc_Name x = n" by simp_all
qed

lemma StatusUpdateWHC_key:
  assumes "lawful env"
  shows "whc_Namespace (snd (e_StatusUpdateWHC env tr x)) = whc_Namespace x"
    "whc_Name (snd (e_StatusUpdateWHC env tr x)) = whc_Name x"
proof -
  have "\<forall>tr w. whc_Namespace (snd (e_StatusUpdateWHC env tr w)) = whc_Namespace w
      \<and> whc_Name (snd (e_StatusUpdateWHC env tr w)) = whc_Name w"
    using lawful_laws(3) [OF assms(1)] unfolding api_laws_def by (elim conjE)
  then show "whc_Namespace (snd (e_StatusUpdateWHC env tr x)) = whc_Namespace x"
    "whc_Name (snd (e_StatusUpdateWHC env tr x)) = whc_Name x" by simp_all
qed

lemma RefreshWHC_key:
  assumes "lawful env" "e_RefreshWHC env tr w = Inr x"
  shows "whc_Namespace x = whc_Namespace w" "whc_Name x = whc_Name w"
proof -
  have "\<forall>tr w x. e_RefreshWHC env tr w = Inr x \<longrightarrow> whc_Namespace x = whc_Namespace w \<and> whc_Name x = whc_Name w"
    using lawful_laws(3) [OF assms(1)] unfolding api_laws_def by (elim conjE)
  from this [rule_format, OF assms(2)]
  show "whc_Namespace x = whc_Namespace w" "whc_Name x = whc_Name w" by simp_all
qed

lemma GetWorkload_key:
  assumes "lawful env" "e_GetWorkload env tr k ns n = Inr wl"
  shows "wl_Kind wl = k" "wl_Namespace wl = ns" "wl_Name wl = n"
proof -
  have "\<forall>tr k ns n wl. e_GetWorkload env tr k ns n = Inr wl \<longrightarrow>
      wl_Kind wl = k \<and> wl_Namespace wl = ns \<and> wl_Name wl = n"
    using lawful_laws(3) [OF assms(1)] unfolding api_laws_def by (elim conjE)
  from this [rule_format, OF assms(2)]
  show "wl_Kind wl = k" "wl_Namespace wl = ns" "wl_Name wl = n" by simp_all
qed

lemma UpdateWorkload_key:
  assumes "lawful env"
  shows "wl_Kind (snd (e_UpdateWorkload env tr wl)) = wl_Kind wl"
    "wl_Namespace (snd (e_UpdateWorkload env tr wl)) = wl_Namespace wl"
    "wl_Name (snd (e_UpdateWorkload env tr wl)) = wl_Name wl"
proof -
  have "\<forall>tr wl. wl_Kind (snd (e_UpdateWorkload env tr wl)) = wl_Kind wl
      \<and> wl_Namespace (snd (e_UpdateWorkload env tr wl)) = wl_Namespace wl
      \<and> wl_Name (snd (e_UpdateWorkload env tr wl)) = wl_Name wl"
    using lawful_laws(3) [OF assms(1)] unfolding api_laws_def by (elim conjE)
  then show "wl_Kind (snd (e_UpdateWorkload env tr wl)) = wl_Kind wl"
    "wl_Namespace (snd (e_UpdateWorkload env tr wl)) = wl_Namespace wl"
    "wl_Name (snd (e_UpdateWorkload env tr wl)) = wl_Name wl" by simp_all
qed

lemma GetNamespace_key:
  assumes "lawful env" "e_GetNamespace env tr n = Inr ns" shows "nsp_Name ns = n"
proof -
  have "\<forall>tr n ns. e_GetNamespace env tr n = Inr ns \<longrightarrow> nsp_Name ns = n"
    using lawful_laws(3) [OF assms(1)] unfolding api_laws_def by (elim conjE)
  from this [rule_format, OF assms(2)] show ?thesis .
qed

lemma ListCRBs_labels:
  assumes "lawful env" "e_ListCRBs env tr sel = Inr crbs" "crb \<in> set crbs" "(k, v) \<in> set sel"
  shows "map_of (crb_Labels crb) k = Some v"
proof -
  have "\<forall>tr sel crbs. e_ListCRBs env tr sel = Inr crbs \<longrightarrow>
      (\<forall>crb \<in> set crbs. \<forall>(k, v) \<in> set sel. map_of (crb_Labels crb) k = Some v)"
    using lawful_laws(3) [OF assms(1)] unfolding api_laws_def by (elim conjE)
  from this [rule_format, OF assms(2,3,4)] show ?thesis by simp
qed

lemma meta_laws_Find_Set:
  "meta_laws m \<Longrightarrow> \<exists>c'. m_Find m (m_Set m now cs c) (c_Type c) = Some c' \<and> c_Status c' = c_Status c
     \<and> c_Reason c' = c_Reason c \<and> c_Message c' = c_Message c"
  by (simp add: meta_laws_def)

lemma meta_laws_Find_Set_other:
  "meta_laws m \<Longrightarrow> t \<noteq> c_Type c \<Longrightarrow> m_Find m (m_Set m now cs c) t = m_Find m cs t"
  by (simp add: meta_laws_def)

lemma meta_laws_IsTrue:
  "meta_laws m \<Longrightarrow> m_IsTrue m cs t \<longleftrightarrow> (\<exists>c. m_Find m cs t = Some c \<and> c_Status c = ConditionTrue)"
  by (simp add: meta_laws_def)

lemma meta_laws_IsFalse:
  "meta_laws m \<Longrightarrow> m_IsFalse m cs t \<longleftrightarrow> (\<exists>c. m_Find m cs t = Some c \<and> c_Status c = ConditionFalse)"
  by (simp add: meta_laws_def)

section \<open>Triples\<close>

text \<open>
  \<open>steps I P m Q\<close>: from a state in \<open>I\<close>, every event \<open>m\<close> emits satisfies \<open>P\<close> and its result and final state
  satisfy \<open>Q\<close>. The trace only grows.
\<close>

definition steps :: "(world \<Rightarrow> bool) \<Rightarrow> (event \<Rightarrow> bool) \<Rightarrow> 'a prog \<Rightarrow> ('a \<Rightarrow> world \<Rightarrow> bool) \<Rightarrow> bool" where
  "steps I P m Q \<longleftrightarrow> (\<forall>w. I w \<longrightarrow>
     (\<exists>evs. w_trace (snd (run_state m w)) = w_trace w @ evs \<and> (\<forall>ev \<in> set evs. P ev))
     \<and> Q (fst (run_state m w)) (snd (run_state m w)))"

abbreviation keeps :: "(world \<Rightarrow> bool) \<Rightarrow> (event \<Rightarrow> bool) \<Rightarrow> 'a prog \<Rightarrow> bool" where
  "keeps I P m \<equiv> steps I P m (\<lambda>_. I)"

definition anywhere :: "world \<Rightarrow> bool" where
  "anywhere w \<longleftrightarrow> True"

lemma anywhere [simp]: "anywhere w"
  by (simp add: anywhere_def)

lemma stepsD_trace:
  "steps I P m Q \<Longrightarrow> I w \<Longrightarrow>
   \<exists>evs. w_trace (snd (run_state m w)) = w_trace w @ evs \<and> (\<forall>ev \<in> set evs. P ev)"
  by (simp add: steps_def)

lemma stepsD_post: "steps I P m Q \<Longrightarrow> I w \<Longrightarrow> Q (fst (run_state m w)) (snd (run_state m w))"
  by (simp add: steps_def)

lemma steps_weaken:
  "steps I P m Q \<Longrightarrow> (\<And>w. I' w \<Longrightarrow> I w) \<Longrightarrow> (\<And>ev. P ev \<Longrightarrow> P' ev) \<Longrightarrow>
   (\<And>x w. Q x w \<Longrightarrow> Q' x w) \<Longrightarrow> steps I' P' m Q'"
  unfolding steps_def by meson

lemma steps_bind:
  assumes "steps I P m R" "\<And>x. steps (R x) P (f x) Q"
  shows "steps I P (State_Monad.bind m f) Q"
  unfolding steps_def
proof (intro allI impI)
  fix w assume "I w"
  obtain x w1 where m: "run_state m w = (x, w1)" by force
  obtain evs where evs: "w_trace w1 = w_trace w @ evs" "\<forall>ev \<in> set evs. P ev" and R: "R x w1"
    using assms(1) \<open>I w\<close> m unfolding steps_def by fastforce
  obtain evs' where evs': "w_trace (snd (run_state (f x) w1)) = w_trace w1 @ evs'" "\<forall>ev \<in> set evs'. P ev"
    and Q: "Q (fst (run_state (f x) w1)) (snd (run_state (f x) w1))"
    using assms(2) R unfolding steps_def by blast
  have "run_state (State_Monad.bind m f) w = run_state (f x) w1" by (simp add: run_bind m)
  with evs evs' Q show "(\<exists>evs. w_trace (snd (run_state (State_Monad.bind m f) w)) = w_trace w @ evs
      \<and> (\<forall>ev\<in>set evs. P ev))
    \<and> Q (fst (run_state (State_Monad.bind m f) w)) (snd (run_state (State_Monad.bind m f) w))"
    by (intro conjI exI [of _ "evs @ evs'"]) auto
qed

lemma steps_bind_fact:
  assumes "steps I P m (\<lambda>x w. I w \<and> R x)" "\<And>x. R x \<Longrightarrow> steps I P (f x) Q"
  shows "steps I P (State_Monad.bind m f) Q"
proof (rule steps_bind [OF assms(1)])
  fix x
  show "steps (\<lambda>w. I w \<and> R x) P (f x) Q"
    using assms(2) [of x] unfolding steps_def by blast
qed

lemma keeps_bind [emits_intros]:
  "keeps I P m \<Longrightarrow> (\<And>x. keeps I P (f x)) \<Longrightarrow> keeps I P (State_Monad.bind m f)"
  by (rule steps_bind)

lemma steps_ret: "(\<And>w. I w \<Longrightarrow> Q x w) \<Longrightarrow> steps I P (ret x) Q"
  by (simp add: steps_def run_ret)

lemma keeps_ret [emits_intros]: "keeps I P (ret x)"
  by (rule steps_ret)

lemma keeps_if [emits_intros]:
  "(c \<Longrightarrow> steps I P a Q) \<Longrightarrow> (\<not> c \<Longrightarrow> steps I P b Q) \<Longrightarrow> steps I P (if c then a else b) Q"
  by simp

lemma keeps_case_option [emits_intros]:
  "(x = None \<Longrightarrow> steps I P a Q) \<Longrightarrow> (\<And>y. x = Some y \<Longrightarrow> steps I P (f y) Q) \<Longrightarrow>
   steps I P (case x of None \<Rightarrow> a | Some y \<Rightarrow> f y) Q"
  by (cases x) simp_all

lemma keeps_case_sum [emits_intros]:
  "(\<And>y. x = Inl y \<Longrightarrow> steps I P (f y) Q) \<Longrightarrow> (\<And>z. x = Inr z \<Longrightarrow> steps I P (g z) Q) \<Longrightarrow>
   steps I P (case x of Inl y \<Rightarrow> f y | Inr z \<Rightarrow> g z) Q"
  by (cases x) simp_all

lemma keeps_case_outcome [emits_intros]:
  "(\<And>y. x = Ret y \<Longrightarrow> steps I P (f y) Q) \<Longrightarrow> (\<And>z. x = Panic z \<Longrightarrow> steps I P (g z) Q) \<Longrightarrow>
   (x = NoReturn \<Longrightarrow> steps I P h Q) \<Longrightarrow>
   steps I P (case x of Ret y \<Rightarrow> f y | Panic z \<Rightarrow> g z | NoReturn \<Rightarrow> h) Q"
  by (cases x) simp_all

lemma keeps_case_prod [emits_intros]:
  "(\<And>y z. x = (y, z) \<Longrightarrow> steps I P (f y z) Q) \<Longrightarrow> steps I P (case x of (y, z) \<Rightarrow> f y z) Q"
  by (cases x) simp

lemma keeps_Let [emits_intros]: "steps I P (f x) Q \<Longrightarrow> steps I P (Let x f) Q"
  by simp

lemma keeps_attempt [emits_intros]:
  "keeps I P m \<Longrightarrow> (\<And>x. keeps I P (f x)) \<Longrightarrow> keeps I P (attempt m f)"
  unfolding attempt_def by (intro emits_intros)

lemma steps_ask:
  "P ev \<Longrightarrow> (\<And>w. I w \<Longrightarrow> Q (answer (w_trace w)) (w\<lparr>w_trace := w_trace w @ [ev]\<rparr>)) \<Longrightarrow> steps I P (ask ev answer) Q"
  by (simp add: steps_def run_ask)

lemma keeps_ask [emits_intros]:
  "P ev \<Longrightarrow> (\<And>w tr. I w \<Longrightarrow> I (w\<lparr>w_trace := tr\<rparr>)) \<Longrightarrow> keeps I P (ask ev answer)"
  by (rule steps_ask)

lemma keeps_emit [emits_intros]:
  "P ev \<Longrightarrow> (\<And>w tr. I w \<Longrightarrow> I (w\<lparr>w_trace := tr\<rparr>)) \<Longrightarrow> keeps I P (emit ev)"
  unfolding emit_def by (rule keeps_ask)

lemma steps_gets: "(\<And>w. I w \<Longrightarrow> Q (f w) w) \<Longrightarrow> steps I P (gets f) Q"
  by (simp add: steps_def run_gets)

lemma keeps_gets [emits_intros]: "keeps I P (gets f)"
  by (rule steps_gets)

lemma keeps_map_order [emits_intros]: "keeps I P (map_order env)"
  unfolding map_order_def by (rule keeps_gets)

lemma steps_modify:
  "(\<And>w. I w \<Longrightarrow> w_trace (f w) = w_trace w \<and> Q () (f w)) \<Longrightarrow> steps I P (modify f) Q"
  by (simp add: steps_def run_modify)

lemma keeps_modify [emits_intros]:
  "(\<And>w. I w \<Longrightarrow> w_trace (f w) = w_trace w) \<Longrightarrow> (\<And>w. I w \<Longrightarrow> I (f w)) \<Longrightarrow> keeps I P (modify f)"
  by (simp add: steps_modify)

lemma keeps_for_each [emits_intros]:
  "(\<And>x. x \<in> set xs \<Longrightarrow> keeps I P (f x)) \<Longrightarrow> keeps I P (for_each xs f)"
proof (induction xs)
  case Nil
  then show ?case by (simp add: keeps_ret)
next
  case (Cons x xs)
  have "keeps I P (for_each xs f)" using Cons by simp
  with Cons.prems show ?case by (simp add: keeps_bind)
qed

text \<open>
  A retried function is a last attempt after attempts that ended in a conflict: what every attempt
  keeps holds throughout, what an attempt guarantees for its result holds of the last one.
\<close>

lemma tries_steps:
  assumes "steps I P f (\<lambda>r w. I w \<and> Q r w)" "I w"
  shows "(\<exists>evs. w_trace (snd (tries n (run_state f) w)) = w_trace w @ evs \<and> (\<forall>ev \<in> set evs. P ev))
    \<and> I (snd (tries n (run_state f) w)) \<and> Q (fst (tries n (run_state f) w)) (snd (tries n (run_state f) w))"
  using assms(2)
proof (induction n arbitrary: w)
  case 0
  then show ?case using assms(1) by (simp add: steps_def)
next
  case (Suc n)
  obtain r w' where r: "run_state f w = (r, w')" by force
  then obtain evs where evs: "w_trace w' = w_trace w @ evs" "\<forall>ev \<in> set evs. P ev" and I: "I w'" "Q r w'"
    using assms(1) Suc.prems unfolding steps_def by fastforce
  obtain evs' where evs': "w_trace (snd (tries n (run_state f) w')) = w_trace w' @ evs'"
      "\<forall>ev \<in> set evs'. P ev" and I': "I (snd (tries n (run_state f) w'))"
      "Q (fst (tries n (run_state f) w')) (snd (tries n (run_state f) w'))"
    using Suc.IH [OF I(1)] by blast
  show ?case
  proof (cases "\<exists>e. r = Some e \<and> IsConflict e")
    case True
    then have "tries (Suc n) (run_state f) w = tries n (run_state f) w'" by (auto simp: r)
    then show ?thesis using evs evs' I' by (intro conjI exI [of _ "evs @ evs'"]) auto
  next
    case False
    then have "tries (Suc n) (run_state f) w = (r, w')" by (auto simp: r split: option.splits)
    then show ?thesis using evs I by auto
  qed
qed

lemma steps_retry:
  assumes "retry_laws (e_retry env)" "steps I P f (\<lambda>r w. I w \<and> Q r w)"
  shows "steps I P (RetryOnConflict env f) (\<lambda>r w. I w \<and> Q r w)"
  unfolding steps_def
proof (intro allI impI)
  fix w assume "I w"
  obtain n where "e_retry env (run_state f) w = tries n (run_state f) w"
    using assms(1) by (auto simp: retry_laws_def)
  then show "(\<exists>evs. w_trace (snd (run_state (RetryOnConflict env f) w)) = w_trace w @ evs \<and>
      (\<forall>ev\<in>set evs. P ev)) \<and> I (snd (run_state (RetryOnConflict env f) w)) \<and>
      Q (fst (run_state (RetryOnConflict env f) w)) (snd (run_state (RetryOnConflict env f) w))"
    using tries_steps [OF assms(2) \<open>I w\<close>, of n] by (simp add: run_RetryOnConflict)
qed

lemma keeps_retry [emits_intros]:
  assumes "retry_laws (e_retry env)" "keeps I P f"
  shows "keeps I P (RetryOnConflict env f)"
  using steps_retry [OF assms(1), of I P f "\<lambda>_ _. True"] assms(2) by simp

text \<open>Reading off one run: the last result and state of a retried function come from an attempt.\<close>

lemma retry_result:
  assumes "lawful env" "steps I P f (\<lambda>r w. I w \<and> Q r w)" "I w"
    "run_state (RetryOnConflict env f) w = (r, w')"
  shows "I w' \<and> Q r w'"
  using stepsD_post [OF steps_retry [OF lawful_laws(2) [OF assms(1)] assms(2)] assms(3)] assms(4) by simp

text \<open>
  Further documented behaviour, assumed where it is needed: a status update that succeeds returns the
  status that was sent, and the client rejects the wrapper type of \<open>pkg/workloadhardeningcheck\<close>, which no
  scheme registers.
\<close>

definition status_echo :: "env \<Rightarrow> bool" where
  "status_echo env \<longleftrightarrow> (\<forall>tr x y. e_StatusUpdateWHC env tr x = (None, y) \<longrightarrow> whc_Status y = whc_Status x)"

definition wrapper_unregistered :: "env \<Rightarrow> bool" where
  "wrapper_unregistered env \<longleftrightarrow> (\<forall>tr w. \<exists>e. e_RefreshWHC env tr w = Inl e)"

end
