(* ===== verification/Duration.thy ===== *)
theory Duration
  imports Prelude
begin

text \<open>
  Durations are signed 64-bit numbers of nanoseconds, as in Go's package \<open>time\<close>: sums wrap, comparisons
  are signed. \<open>ParseDuration\<close> follows the standard library; the floating-point value of a fraction
  (\<open>1.5h\<close>), which the pattern of the CRDs excludes, is the parameter \<open>fraction\<close>. Instants are integers
  (nanoseconds), and \<open>since\<close> saturates as \<open>Time.Sub\<close> does.
\<close>

type_synonym Duration = int64

definition Nanosecond :: nat where "Nanosecond = 1"
definition Microsecond :: nat where "Microsecond = 1000"
definition Millisecond :: nat where "Millisecond = 1000000"
definition Second :: nat where "Second = 1000000000"
definition Minute :: nat where "Minute = 60 * Second"
definition Hour :: nat where "Hour = 60 * Minute"

definition dur :: "nat \<Rightarrow> Duration" where
  "dur n = of_nat n"

definition longer :: "Duration \<Rightarrow> Duration \<Rightarrow> bool" where
  "longer a b \<longleftrightarrow> sint b < sint a"

definition half_dur :: "Duration \<Rightarrow> Duration" where
  "half_dur d = word_of_int (sgn (sint d) * (\<bar>sint d\<bar> div 2))"

definition since :: "int \<Rightarrow> int \<Rightarrow> Duration" where
  "since now t = word_of_int (max (- (2 ^ 63)) (min (2 ^ 63 - 1) (now - t)))"

section \<open>Parsing\<close>

definition is_digit :: "char \<Rightarrow> bool" where
  "is_digit c \<longleftrightarrow> 48 \<le> (of_char c :: nat) \<and> (of_char c :: nat) \<le> 57"

definition digit_val :: "char \<Rightarrow> nat" where
  "digit_val c = of_char c - 48"

text \<open>\<open>leadingInt\<close>: the value of the leading digits and the rest, \<open>None\<close> on overflow.\<close>

fun leading_int :: "nat \<Rightarrow> string \<Rightarrow> (nat \<times> string) option" where
  "leading_int x [] = Some (x, [])"
| "leading_int x (c # s) =
     (if \<not> is_digit c then Some (x, c # s)
      else if x > 2 ^ 63 div 10 then None
      else let y = x * 10 + digit_val c in if y > 2 ^ 63 then None else leading_int y s)"

text \<open>\<open>unitMap\<close>; the two spellings of the micro sign are their UTF-8 bytes.\<close>

definition unit_of :: "string \<Rightarrow> nat option" where
  "unit_of u =
     (if u = ''ns'' then Some Nanosecond
      else if u = ''us'' \<or> u = [CHR 0xC2, CHR 0xB5, CHR ''s''] \<or> u = [CHR 0xCE, CHR 0xBC, CHR ''s''] then Some Microsecond
      else if u = ''ms'' then Some Millisecond
      else if u = ''s'' then Some Second
      else if u = ''m'' then Some Minute
      else if u = ''h'' then Some Hour
      else None)"

definition unit_char :: "char \<Rightarrow> bool" where
  "unit_char c \<longleftrightarrow> \<not> is_digit c \<and> c \<noteq> CHR ''.''"

text \<open>One round of the loop: a number with its unit, added to the sum so far.\<close>

definition parse_component :: "(string \<Rightarrow> nat \<Rightarrow> nat) \<Rightarrow> nat \<Rightarrow> string \<Rightarrow> (nat \<times> string) option" where
  "parse_component fraction d s =
     (if s = [] \<or> unit_char (hd s) then None
      else case leading_int 0 s of None \<Rightarrow> None
      | Some (v, s1) \<Rightarrow>
        let pre = length s1 \<noteq> length s;
            (digits, s2) = (case s1 of
               [] \<Rightarrow> ([], [])
             | c # s' \<Rightarrow> if c = CHR ''.'' then (takeWhile is_digit s', dropWhile is_digit s') else ([], s1));
            post = digits \<noteq> []
        in if \<not> pre \<and> \<not> post then None
           else let u = takeWhile unit_char s2; s3 = dropWhile unit_char s2
           in (case unit_of u of None \<Rightarrow> None
             | Some unit \<Rightarrow>
                 if v > 2 ^ 63 div unit then None
                 else let v' = v * unit + (if post then fraction digits unit else 0)
                 in if v' > 2 ^ 63 then None
                    else let d' = (d + v') mod 2 ^ 64
                    in if d' > 2 ^ 63 then None else Some (d', s3)))"

lemma length_leading_int: "leading_int x s = Some (v, s') \<Longrightarrow> length s' \<le> length s"
  by (induction x s rule: leading_int.induct) (auto simp: Let_def split: if_splits)

lemma unit_of_Nil [simp]: "unit_of [] = None"
  by (simp add: unit_of_def)

lemma length_parse_component:
  assumes "parse_component fraction d s = Some (d', s')"
  shows "length s' < length s"
proof -
  obtain v s1 where li: "leading_int 0 s = Some (v, s1)"
    using assms by (auto simp: parse_component_def split: if_splits option.splits)
  obtain digits s2 where s2: "(case s1 of [] \<Rightarrow> ([], [])
      | c # s' \<Rightarrow> if c = CHR ''.'' then (takeWhile is_digit s', dropWhile is_digit s') else ([], s1)) = (digits, s2)"
    by force
  have "length s2 \<le> length s1"
    using s2 length_dropWhile_le by (auto split: list.splits if_splits intro: le_SucI)
  moreover have "takeWhile unit_char s2 \<noteq> [] \<and> s' = dropWhile unit_char s2"
    using assms by (auto simp: parse_component_def li s2 Let_def split: if_splits option.splits)
  then have "length s' < length s2"
    by (cases s2) (auto simp: le_imp_less_Suc length_dropWhile_le split: if_splits)
  ultimately show ?thesis using length_leading_int [OF li] by simp
qed

function parse_loop :: "(string \<Rightarrow> nat \<Rightarrow> nat) \<Rightarrow> nat \<Rightarrow> string \<Rightarrow> nat option" where
  "parse_loop fraction d s =
     (if s = [] then Some d
      else case parse_component fraction d s of
        None \<Rightarrow> None
      | Some (d', s') \<Rightarrow> parse_loop fraction d' s')"
  by pat_completeness auto

termination
  by (relation "measure (\<lambda>(f, d, s). length s)") (auto dest: length_parse_component)

declare parse_loop.simps [simp del]

definition ParseDuration :: "(string \<Rightarrow> nat \<Rightarrow> nat) \<Rightarrow> string \<Rightarrow> Duration option" where
  "ParseDuration fraction orig =
     (let (neg, s) = (case orig of
            [] \<Rightarrow> (False, [])
          | c # s' \<Rightarrow> if c = CHR ''-'' \<or> c = CHR ''+'' then (c = CHR ''-'', s') else (False, orig))
      in if s = ''0'' then Some 0
         else if s = [] then None
         else (case parse_loop fraction 0 s of
            None \<Rightarrow> None
          | Some d \<Rightarrow>
              if neg then Some (- of_nat d)
              else if d > 2 ^ 63 - 1 then None
              else Some (of_nat d)))"

text \<open>\<open>GetCheckDuration\<close>, of which the repository has three copies: five minutes unless a duration is given and parses.\<close>

definition check_duration :: "(string \<Rightarrow> nat \<Rightarrow> nat) \<Rightarrow> string \<Rightarrow> Duration" where
  "check_duration fraction s =
     (if s = [] then dur (5 * Minute)
      else case ParseDuration fraction s of
        None \<Rightarrow> dur (5 * Minute)
      | Some d \<Rightarrow> d)"

section \<open>Durations of the form the CRDs admit\<close>

fun digits_val :: "nat \<Rightarrow> string \<Rightarrow> nat" where
  "digits_val x [] = x"
| "digits_val x (c # s) = digits_val (x * 10 + digit_val c) s"

lemma digits_val_ge: "x \<le> digits_val x s"
proof (induction s arbitrary: x)
  case (Cons c s)
  show ?case using Cons [of "x * 10 + digit_val c"] by simp
qed simp

lemma leading_int_digits:
  assumes "\<forall>c \<in> set ds. is_digit c" "rest = [] \<or> \<not> is_digit (hd rest)"
  shows "leading_int x (ds @ rest) = (if ds = [] \<or> digits_val x ds \<le> 2 ^ 63 then Some (digits_val x ds, rest) else None)"
  using assms(1)
proof (induction ds arbitrary: x)
  case Nil
  then show ?case using assms(2) by (cases rest) auto
next
  case (Cons c ds)
  let ?y = "x * 10 + digit_val c"
  have c: "is_digit c" using Cons.prems by simp
  have ge: "?y \<le> digits_val ?y ds" by (rule digits_val_ge)
  have lt: "x * 10 \<le> 2 ^ 63" if "\<not> x > 2 ^ 63 div 10" using that by simp
  consider "x > 2 ^ 63 div 10" | "\<not> x > 2 ^ 63 div 10" "?y > 2 ^ 63" | "\<not> x > 2 ^ 63 div 10" "?y \<le> 2 ^ 63" by linarith
  then show ?case
  proof cases
    case 1
    then have "x * 10 > 2 ^ 63" by simp
    then have "\<not> digits_val ?y ds \<le> 2 ^ 63" using ge by linarith
    with 1 c show ?thesis by simp
  next
    case 2
    then have "\<not> digits_val ?y ds \<le> 2 ^ 63" using ge by linarith
    with 2 c show ?thesis by simp
  next
    case 3
    have ih: "leading_int ?y (ds @ rest) = (if ds = [] \<or> digits_val ?y ds \<le> 2 ^ 63 then Some (digits_val ?y ds, rest) else None)"
      using Cons by simp
    show ?thesis using 3 c ih by (cases "ds = []") (simp_all add: Let_def)
  qed
qed

definition simple_unit :: "char \<Rightarrow> nat option" where
  "simple_unit c = (if c = CHR ''s'' then Some Second else if c = CHR ''m'' then Some Minute
     else if c = CHR ''h'' then Some Hour else None)"

lemma simple_unit_unit_of: "simple_unit c = Some u \<Longrightarrow> unit_of [c] = Some u \<and> unit_char c \<and> \<not> is_digit c"
  by (auto simp: simple_unit_def unit_of_def unit_char_def is_digit_def split: if_splits)

lemma ParseDuration_simple:
  assumes "ds \<noteq> []" "\<forall>c \<in> set ds. is_digit c" "simple_unit c = Some u"
  shows "ParseDuration fraction (ds @ [c]) =
    (if digits_val 0 ds * u \<le> 2 ^ 63 - 1 then Some (of_nat (digits_val 0 ds * u)) else None)"
proof -
  let ?v = "digits_val 0 ds"
  note u = simple_unit_unit_of [OF assms(3)]
  have pos: "0 < u" using assms(3) by (auto simp: simple_unit_def Second_def Minute_def Hour_def split: if_splits)
  obtain d ds' where ds: "ds = d # ds'" using assms(1) by (cases ds) auto
  have d: "is_digit d" "\<not> unit_char d" "d \<noteq> CHR ''-''" "d \<noteq> CHR ''+''"
    using assms(2) by (auto simp: ds unit_char_def is_digit_def)
  have cdot: "c \<noteq> CHR ''.''" using u by (auto simp: unit_char_def)
  have li: "leading_int 0 (ds @ [c]) = (if ?v \<le> 2 ^ 63 then Some (?v, [c]) else None)"
    using leading_int_digits [OF assms(2), of "[c]" 0] u assms(1) by simp
  have bound: "?v \<le> 2 ^ 63 div u \<longleftrightarrow> ?v * u \<le> 2 ^ 63"
    using pos by (simp add: less_eq_div_iff_mult_less_eq)
  have le: "?v \<le> 2 ^ 63" if "?v * u \<le> 2 ^ 63"
    using that pos by (metis le_trans mult_le_mono2 nat_mult_1_right Suc_leI One_nat_def)
  have hd: "hd (ds @ [c]) = d" by (simp add: ds)
  have pc: "parse_component fraction 0 (ds @ [c]) = (if ?v * u \<le> 2 ^ 63 then Some (?v * u, []) else None)"
  proof (cases "?v \<le> 2 ^ 63")
    case False
    then have "\<not> ?v * u \<le> 2 ^ 63" using le by blast
    then show ?thesis using False by (simp add: parse_component_def hd d li)
  next
    case True
    then show ?thesis
      using u bound cdot
      by (simp add: parse_component_def hd d li Let_def assms(1) not_less [symmetric])
  qed
  have loop: "parse_loop fraction 0 (ds @ [c]) = (if ?v * u \<le> 2 ^ 63 then Some (?v * u) else None)"
    by (subst parse_loop.simps) (simp add: pc parse_loop.simps [of _ _ "[]"])
  have not0: "ds @ [c] \<noteq> ''0''" using assms(1) by (cases ds) (auto simp: u)
  have "ParseDuration fraction (ds @ [c]) = (case parse_loop fraction 0 (ds @ [c]) of
      None \<Rightarrow> None | Some d \<Rightarrow> if d > 2 ^ 63 - 1 then None else Some (of_nat d))"
    using not0 by (simp add: ParseDuration_def ds d split: option.split)
  then show ?thesis by (simp add: loop)
qed

lemma digits_val_append: "digits_val x (xs @ ys) = digits_val (digits_val x xs) ys"
  by (induction x xs rule: digits_val.induct) simp_all

lemma check_duration_simple:
  assumes "ds \<noteq> []" "\<forall>c \<in> set ds. is_digit c" "simple_unit c = Some u"
  shows "check_duration fraction (ds @ [c]) =
    (if digits_val 0 ds * u \<le> 2 ^ 63 - 1 then of_nat (digits_val 0 ds * u) else dur (5 * Minute))"
  by (simp add: check_duration_def ParseDuration_simple [OF assms])

end
