(* ===== verification/WorkloadUtil.thy ===== *)
theory WorkloadUtil
  imports Effects Duration
begin

text \<open>
  \<open>pkg/util/workload/util.go\<close>: which kinds are supported, whether a workload is rolled out, which pods
  belong to it and whether they are ready. The type switches on the dynamic type of the workload object
  are case distinctions on \<open>wl_Kind\<close>.
\<close>

definition supportedWorkloadKinds :: "string list" where
  "supportedWorkloadKinds = [''deployment'', ''statefulset'', ''daemonset'']"

definition IsSupportedUnstructured :: "Resource \<Rightarrow> bool" where
  "IsSupportedUnstructured r =
     (if u_Kind r = [] \<or> u_APIVersion r = [] then False
      else List.member supportedWorkloadKinds (to_lower (u_Kind r)))"

definition unsupported_kind :: error where
  "unsupported_kind = Errorf ''kind of workloadUnderTest not supported''"

definition VerifyUpdated :: "Workload \<Rightarrow> (error + bool) outcome" where
  "VerifyUpdated wl = (case wl_Kind wl of
     Deployment \<Rightarrow> (case wl_Replicas wl of
         None \<Rightarrow> Panic ''nil pointer dereference''
       | Some n \<Rightarrow> Ret (Inr (n = wl_UpdatedReplicas wl)))
   | StatefulSet \<Rightarrow> (case wl_Replicas wl of
         None \<Rightarrow> Panic ''nil pointer dereference''
       | Some n \<Rightarrow> Ret (Inr (n = wl_CurrentReplicas wl)))
   | DaemonSet \<Rightarrow> Ret (Inr (wl_DesiredNumberScheduled wl = wl_UpdatedNumberScheduled wl))
   | OtherObject \<Rightarrow> Ret (Inl unsupported_kind))"

definition GetLabelSelectorForWorkload :: "env \<Rightarrow> Workload \<Rightarrow> error + opaque" where
  "GetLabelSelectorForWorkload env wl =
     (if wl_Kind wl \<in> {Deployment, StatefulSet, DaemonSet} then e_Selector env (wl_Selector wl)
      else Inl unsupported_kind)"

definition list_pods :: "env \<Rightarrow> string \<Rightarrow> opaque \<Rightarrow> (error + Pod list) prog" where
  "list_pods env ns selector = ask (EvListPods ns selector) (\<lambda>tr. e_ListPods env tr ns selector)"

definition GetPodsForWorkload :: "env \<Rightarrow> Workload \<Rightarrow> (error + Pod list) prog" where
  "GetPodsForWorkload env wl = (case GetLabelSelectorForWorkload env wl of
     Inl e \<Rightarrow> ret (Inl (Wrapf ''failed to get label selector'' e))
   | Inr selector \<Rightarrow> do {
       r \<leftarrow> list_pods env (wl_Namespace wl) selector;
       case r of
         Inl e \<Rightarrow> ret (Inl (Wrapf ''failed to list pods'' e))
       | Inr pods \<Rightarrow> ret (Inr pods) })"

definition pod_id :: "Pod \<Rightarrow> string" where
  "pod_id p = pd_Namespace p @ ''/'' @ pd_Name p"

text \<open>The loops of \<open>VerifyReadiness\<close>: the first pod or container that is not ready decides.\<close>

fun containers_ready :: "Pod \<Rightarrow> ContainerStatus list \<Rightarrow> error option" where
  "containers_ready p [] = None"
| "containers_ready p (cs # rest) =
     (case cs_Waiting cs of
        Some reason \<Rightarrow> Some (Errorf (''pod '' @ pod_id p @ '' container '' @ cs_Name cs @ '' is waiting: '' @ reason))
      | None \<Rightarrow> (case cs_Terminated cs of
          Some reason \<Rightarrow> Some (Errorf (''pod '' @ pod_id p @ '' container '' @ cs_Name cs @ '' is terminated: '' @ reason))
        | None \<Rightarrow>
            (if \<not> cs_Ready cs then Some (Errorf (''pod '' @ pod_id p @ '' container '' @ cs_Name cs @ '' is not ready''))
             else containers_ready p rest)))"

fun pods_ready :: "Pod list \<Rightarrow> error + bool" where
  "pods_ready [] = Inr True"
| "pods_ready (p # rest) =
     (if pd_Phase p \<noteq> ''Running'' then Inl (Errorf (''pod '' @ pod_id p @ '' is not running''))
      else if pd_ContainerStatuses p = [] then Inl (Errorf (''pod '' @ pod_id p @ '' has no container statuses''))
      else (case containers_ready p (pd_ContainerStatuses p) of
          Some e \<Rightarrow> Inl e
        | None \<Rightarrow> pods_ready rest))"

definition VerifyReadiness :: "env \<Rightarrow> Workload \<Rightarrow> (error + bool) prog" where
  "VerifyReadiness env wl = do {
     r \<leftarrow> GetPodsForWorkload env wl;
     case r of
       Inl e \<Rightarrow> ret (Inl (Wrapf ''failed to get pods for workload'' e))
     | Inr pods \<Rightarrow>
         (if pods = [] then
            ret (Inl (Errorf (''no pods found for workload '' @ wl_Namespace wl @ ''/'' @ wl_Name wl)))
          else ret (pods_ready pods)) }"

text \<open>The Boolean result, with Go's \<open>false\<close> beside an error.\<close>

fun ok_value :: "error + bool \<Rightarrow> bool" where
  "ok_value (Inl _) = False"
| "ok_value (Inr b) = b"

section \<open>Properties\<close>

definition container_up :: "ContainerStatus \<Rightarrow> bool" where
  "container_up cs \<longleftrightarrow> cs_Waiting cs = None \<and> cs_Terminated cs = None \<and> cs_Ready cs"

definition pod_up :: "Pod \<Rightarrow> bool" where
  "pod_up p \<longleftrightarrow> pd_Phase p = ''Running'' \<and> pd_ContainerStatuses p \<noteq> []
     \<and> (\<forall>cs \<in> set (pd_ContainerStatuses p). container_up cs)"

lemma containers_ready_None_iff: "containers_ready p css = None \<longleftrightarrow> (\<forall>cs \<in> set css. container_up cs)"
  by (induction css) (auto simp: container_up_def split: option.splits)

lemma pods_ready_iff: "pods_ready ps = Inr b \<longleftrightarrow> b \<and> (\<forall>p \<in> set ps. pod_up p)"
proof (induction ps)
  case (Cons p ps)
  show ?case
  proof (cases "pod_up p")
    case True
    then show ?thesis using Cons containers_ready_None_iff [of p "pd_ContainerStatuses p"]
      by (simp add: pod_up_def del: containers_ready.simps)
  next
    case False
    then show ?thesis using containers_ready_None_iff [of p "pd_ContainerStatuses p"]
      by (auto simp: pod_up_def split: option.splits if_splits simp del: containers_ready.simps)
  qed
qed auto

text \<open>
  A workload counts as ready exactly when its selector yields pods, at least one, and every one of
  them runs and reports containers that all run and are ready; the function never answers false
  without an error.
\<close>

theorem readiness_exact:
  "fst (run_state (VerifyReadiness env wl) w) = Inr b \<longleftrightarrow>
     b \<and> (\<exists>sel pods. GetLabelSelectorForWorkload env wl = Inr sel
       \<and> e_ListPods env (w_trace w) (wl_Namespace wl) sel = Inr pods \<and> pods \<noteq> [] \<and> list_all pod_up pods)"
  by (auto simp: VerifyReadiness_def GetPodsForWorkload_def list_pods_def run_simps pods_ready_iff list_all_iff
      split: sum.splits)

end
