(* ===== verification/Reference.thy ===== *)
theory Reference
  imports Effects
begin

text \<open>
  A reference environment: an API server that holds one custom resource, one workload and its pods and
  a set of namespaces, a Valkey that remembers what was stored, a clock that counts the calls. It
  satisfies the laws of theory Effects, so the properties that assume them speak of something, and the
  witnesses run the operator against it.
\<close>

definition ref_Find :: "Condition list \<Rightarrow> string \<Rightarrow> Condition option" where
  "ref_Find cs t = List.find (\<lambda>c. c_Type c = t) cs"

fun ref_Set :: "int \<Rightarrow> Condition list \<Rightarrow> Condition \<Rightarrow> Condition list" where
  "ref_Set now [] c = [c\<lparr>c_LastTransitionTime := now\<rparr>]"
| "ref_Set now (d # ds) c =
     (if c_Type d = c_Type c
      then c\<lparr>c_LastTransitionTime := (if c_Status d = c_Status c then c_LastTransitionTime d else now)\<rparr> # ds
      else d # ref_Set now ds c)"

definition ref_meta :: meta_api where
  "ref_meta = \<lparr>
     m_Find = ref_Find,
     m_IsTrue = (\<lambda>cs t. case ref_Find cs t of None \<Rightarrow> False | Some c \<Rightarrow> c_Status c = ConditionTrue),
     m_IsFalse = (\<lambda>cs t. case ref_Find cs t of None \<Rightarrow> False | Some c \<Rightarrow> c_Status c = ConditionFalse),
     m_IsPresentAndEqual = (\<lambda>cs t s. case ref_Find cs t of None \<Rightarrow> False | Some c \<Rightarrow> c_Status c = s),
     m_Set = ref_Set\<rparr>"

lemma ref_Find_Cons [simp]: "ref_Find (c # cs) t = (if c_Type c = t then Some c else ref_Find cs t)"
  by (simp add: ref_Find_def)

lemma ref_Find_Nil [simp]: "ref_Find [] t = None"
  by (simp add: ref_Find_def)

lemma ref_Find_Some: "ref_Find cs t = Some c \<Longrightarrow> c \<in> set cs \<and> c_Type c = t"
  by (induction cs) (auto split: if_splits)

lemma ref_Find_None: "ref_Find cs t = None \<longleftrightarrow> t \<notin> c_Type ` set cs"
  by (induction cs) auto

lemma ref_Find_Set: "\<exists>c'. ref_Find (ref_Set now cs c) (c_Type c) = Some c' \<and> c_Status c' = c_Status c
    \<and> c_Reason c' = c_Reason c \<and> c_Message c' = c_Message c"
  by (induction cs) auto

lemma ref_Find_Set_other: "t \<noteq> c_Type c \<Longrightarrow> ref_Find (ref_Set now cs c) t = ref_Find cs t"
  by (induction cs) auto

lemma ref_meta_laws: "meta_laws ref_meta"
  unfolding meta_laws_def ref_meta_def
  by (auto simp: ref_Find_None ref_Find_Set ref_Find_Set_other dest: ref_Find_Some split: option.splits)

definition ref_retry :: "(world \<Rightarrow> error option \<times> world) \<Rightarrow> world \<Rightarrow> error option \<times> world" where
  "ref_retry f w = tries 4 f w"

lemma ref_retry_laws: "retry_laws ref_retry"
  unfolding retry_laws_def ref_retry_def by blast

text \<open>The custom resource after the updates of a trace, and the last value stored under a key.\<close>

fun whc_after :: "WorkloadHardeningCheck \<Rightarrow> trace \<Rightarrow> WorkloadHardeningCheck" where
  "whc_after x [] = x"
| "whc_after x (EvStatusUpdateWHC y # tr) = whc_after (x\<lparr>whc_Status := whc_Status y\<rparr>) tr"
| "whc_after x (EvUpdateWHC y # tr) = whc_after (y\<lparr>whc_Status := whc_Status x\<rparr>) tr"
| "whc_after x (_ # tr) = whc_after x tr"

fun stored_after :: "string \<Rightarrow> string \<Rightarrow> trace \<Rightarrow> string" where
  "stored_after k v [] = v"
| "stored_after k v (EvSet k' v' # tr) = stored_after k (if k' = k then v' else v) tr"
| "stored_after k v (_ # tr) = stored_after k v tr"

fun namespaces_after :: "Namespace list \<Rightarrow> trace \<Rightarrow> Namespace list" where
  "namespaces_after nss [] = nss"
| "namespaces_after nss (EvCreateNamespace x # tr) = namespaces_after (nss @ [x]) tr"
| "namespaces_after nss (EvDeleteNamespace x # tr) = namespaces_after (filter (\<lambda>y. nsp_Name y \<noteq> nsp_Name x) nss) tr"
| "namespaces_after nss (_ # tr) = namespaces_after nss tr"

definition not_found :: error where
  "not_found = ApiError NotFound ''not found''"

definition empty_whc :: WorkloadHardeningCheck where
  "empty_whc = \<lparr>whc_Name = ''whc'', whc_Namespace = ''apps'', whc_DeletionTimestamp = None,
     whc_Finalizers = [FinalizerCleanup], whc_Labels = [], whc_Owners = [],
     whc_Spec = \<lparr>spec_TargetRef = \<lparr>tr_Kind = ''Deployment'', tr_Name = ''web''\<rparr>,
       spec_BaselineRecordingReference = [], spec_RecordingDuration = ''5m'',
       spec_RunMode = RunModeParallel, spec_SecurityContext = None, spec_Suffix = ''abc''\<rparr>,
     whc_Status = \<lparr>st_Conditions = [], st_BaselineRuns = [], st_CheckRuns = [], st_FinalRun = None,
       st_Recommendation = None\<rparr>\<rparr>"

definition ref_container :: Container where
  "ref_container = \<lparr>ctr_Name = ''main'', ctr_SecurityContext = None, ctr_other = []\<rparr>"

definition ref_workload :: "Kind \<Rightarrow> string \<Rightarrow> string \<Rightarrow> Workload" where
  "ref_workload k ns n = \<lparr>wl_Kind = k, wl_Namespace = ns, wl_Name = n, wl_Replicas = Some 1, wl_Selector = ''app=web'',
     wl_Template = \<lparr>ps_SecurityContext = None, ps_Containers = [ref_container], ps_InitContainers = [],
       ps_NodeName = [], ps_other = []\<rparr>,
     wl_UpdatedReplicas = 1, wl_CurrentReplicas = 1, wl_DesiredNumberScheduled = 1,
     wl_UpdatedNumberScheduled = 1, wl_other = []\<rparr>"

definition ref_nhc :: NamespaceHardeningCheck where
  "ref_nhc = \<lparr>nhc_Name = ''nhc'',
     nhc_Spec = \<lparr>nspec_TargetNamespace = ''apps'', nspec_RecordingDuration = ''5m'',
       nspec_RunMode = RunModeParallel, nspec_SecurityContext = None, nspec_Suffix = ''abc''\<rparr>,
     nhc_Status = \<lparr>nst_Conditions = [], nst_Recommendations = []\<rparr>\<rparr>"

definition ref_recording :: WorkloadRecording where
  "ref_recording = \<lparr>wr_Type = ''baseline'', wr_PodStateRunning = True, wr_StartTime = 0, wr_EndTime = 0,
     wr_SecurityContextConfigurations = None, wr_RecordedMetrics = [], wr_Logs = []\<rparr>"

definition ref_finalizers :: finalizer_api where
  "ref_finalizers = \<lparr>f_Contains = (\<lambda>l x. x \<in> set l), f_Add = (\<lambda>l x. if x \<in> set l then l else l @ [x]),
     f_Remove = (\<lambda>l x. filter (\<lambda>y. y \<noteq> x) l)\<rparr>"

text \<open>\<open>ref_env x nss pods\<close>: the custom resource is \<open>x\<close>, the namespaces \<open>nss\<close> exist, every workload has the pods \<open>pods\<close>.\<close>

definition ref_env :: "WorkloadHardeningCheck \<Rightarrow> Namespace list \<Rightarrow> Pod list \<Rightarrow> env" where
  "ref_env x nss pods = \<lparr>
     e_meta = ref_meta,
     e_now = (\<lambda>tr. int (length tr)),
     e_title = (\<lambda>s. s),
     e_order = (\<lambda>tr ks. ks),
     e_retry = ref_retry,
     e_rand = (\<lambda>tr. 0),
     e_randString = (\<lambda>tr n. replicate n CHR ''x''),
     e_parseFraction = (\<lambda>s n. 0),
     e_GetWHC = (\<lambda>tr ns n. if ns = whc_Namespace x \<and> n = whc_Name x
       then Inr ((whc_after x tr)\<lparr>whc_Namespace := ns, whc_Name := n\<rparr>) else Inl not_found),
     e_RefreshWHC = (\<lambda>tr y. Inl (Errorf ''no kind is registered'')),
     e_StatusUpdateWHC = (\<lambda>tr y. (None, y)),
     e_UpdateWHC = (\<lambda>tr y. (None, y)),
     e_CreateWHC = (\<lambda>tr y. None),
     e_ListWHCs = (\<lambda>tr ns. Inr []),
     e_GetNHC = (\<lambda>tr n. Inr ref_nhc),
     e_StatusUpdateNHC = (\<lambda>tr y. (None, y)),
     e_GetWorkload = (\<lambda>tr k ns n. Inr (ref_workload k ns n)),
     e_UpdateWorkload = (\<lambda>tr wl. (None, wl)),
     e_Selector = (\<lambda>s. Inr s),
     e_ListPods = (\<lambda>tr ns sel. Inr pods),
     e_GetPod = (\<lambda>tr p. p),
     e_GetLogs = (\<lambda>tr ns p c prev. Inr ''started''),
     e_ListNodes = (\<lambda>tr. Inr []),
     e_NodeStats = (\<lambda>tr n. None),
     e_next = (\<lambda>tr n. 0),
     e_permutation = (\<lambda>tr n. [0..<n]),
     e_GetNamespace = (\<lambda>tr n. case List.find (\<lambda>y. nsp_Name y = n) (namespaces_after nss tr) of
       None \<Rightarrow> Inl not_found | Some y \<Rightarrow> Inr (y\<lparr>nsp_Name := n\<rparr>)),
     e_ListNamespaces = (\<lambda>tr sel. Inr (filter (\<lambda>y. \<forall>(k, v) \<in> set sel. map_of (nsp_Labels y) k = Some v)
       (namespaces_after nss tr))),
     e_CreateNamespace = (\<lambda>tr y. None),
     e_DeleteNamespace = (\<lambda>tr y. None),
     e_ListCRBs = (\<lambda>tr sel. Inr []),
     e_CreateCRB = (\<lambda>tr y. None),
     e_DeleteCRB = (\<lambda>tr y. None),
     e_namespacedResources = [],
     e_ParseGroupVersion = (\<lambda>s. Inr (''apps'', ''v1'')),
     e_ListResources = (\<lambda>tr g ns. Inr []),
     e_CreateResource = (\<lambda>tr r. None),
     e_FromUnstructured = (\<lambda>r. Some \<lparr>svc_ClusterIP = [], svc_ClusterIPs = [], svc_ExternalIPs = [],
       svc_LoadBalancerIP = [], svc_other = r\<rparr>),
     e_ToUnstructured = svc_other,
     e_Set = (\<lambda>tr k v. None),
     e_Get = (\<lambda>tr k. Inr (stored_after k [] tr)),
     e_Del = (\<lambda>tr k. None),
     e_Marshal = (\<lambda>r. Inr (''json'' @ wr_Type r)),
     e_Unmarshal = (\<lambda>s. Inr (ref_recording\<lparr>wr_Type := drop 4 s\<rparr>)),
     e_UpdateNamespace = (\<lambda>tr y. (None, y)),
     e_OwnNamespace = (\<lambda>c y. y\<lparr>nsp_Owners := [nhc_Name c]\<rparr>),
     e_OwnWHC = (\<lambda>c y. y\<lparr>whc_Owners := [nhc_Name c]\<rparr>),
     e_finalizers = ref_finalizers,
     e_ctxDone = (\<lambda>tr. False),
     e_completed = (\<lambda>tr. [])\<rparr>"

lemma ref_env_api_laws: "api_laws (ref_env x nss pods)"
  unfolding api_laws_def
  by (intro conjI allI impI)
    (auto simp: ref_env_def ref_workload_def split: if_splits option.splits)

lemma ref_env_lawful: "lawful (ref_env x nss pods)"
  unfolding lawful_def using ref_env_api_laws ref_meta_laws ref_retry_laws
  by (simp add: ref_env_def)

lemma ref_env_finalizers: "finalizer_laws (e_finalizers (ref_env x nss pods))"
  by (auto simp: finalizer_laws_def ref_env_def ref_finalizers_def)

lemma ref_env_status_echo: "status_echo (ref_env x nss pods)"
  by (simp add: status_echo_def ref_env_def)

lemma ref_env_wrapper: "wrapper_unregistered (ref_env x nss pods)"
  by (simp add: wrapper_unregistered_def ref_env_def)

definition start_world :: "WorkloadHardeningCheck \<Rightarrow> world" where
  "start_world x = \<lparr>w_trace = [], w_whc = x, w_sc_ptr = None, w_heap = [],
     w_wl = ref_workload Deployment ''apps'' ''web'', w_scaled = ref_workload Deployment ''apps'' ''web'',
     w_nhc = ref_nhc, w_checkSuccessful = False, w_podMetrics = [], w_podMetricsLastUpdate = None,
     w_exec = NewCheckExecutor\<lparr>managerCtx := Some False\<rparr>\<rparr>"

end
