(* ===== verification/WhcOps.thy ===== *)
theory WhcOps
  imports WorkloadUtil SecurityContextUtil Reference
begin

text \<open>
  \<open>pkg/workloadhardeningcheck\<close>: the wrapper around the custom resource that managers, runners and the
  reconciler work through. Its object is \<open>w_whc\<close>; the methods that fetch or update it, the ones that
  fetch or scale the workload under test, and the condition tests are programs, the others functions of
  the object.
\<close>

section \<open>The object and its security-context pointer\<close>

text \<open>
  \<open>Spec.SecurityContext\<close> is a pointer, and \<open>GetSecurityContextForCheckType\<close> hands it out. A fetched object
  brings a new pointer; a response to an update is decoded into the object that was sent, so the pointer
  stays and its target is overwritten.
\<close>

definition whc_SecurityContext :: "world \<Rightarrow> SecurityContextDefaults option" where
  "whc_SecurityContext w = map_option (\<lambda>p. w_heap w ! p) (w_sc_ptr w)"

definition with_SecurityContext :: "SecurityContextDefaults option \<Rightarrow> WorkloadHardeningCheck \<Rightarrow> WorkloadHardeningCheck" where
  "with_SecurityContext sc x = x\<lparr>whc_Spec := (whc_Spec x)\<lparr>spec_SecurityContext := sc\<rparr>\<rparr>"

definition whc_current :: "world \<Rightarrow> WorkloadHardeningCheck" where
  "whc_current w = with_SecurityContext (whc_SecurityContext w) (w_whc w)"

definition fetched :: "WorkloadHardeningCheck \<Rightarrow> world \<Rightarrow> world" where
  "fetched x w = (case spec_SecurityContext (whc_Spec x) of
     None \<Rightarrow> w\<lparr>w_whc := x, w_sc_ptr := None\<rparr>
   | Some sc \<Rightarrow> w\<lparr>w_whc := x, w_sc_ptr := Some (length (w_heap w)), w_heap := w_heap w @ [sc]\<rparr>)"

definition decoded :: "WorkloadHardeningCheck \<Rightarrow> world \<Rightarrow> world" where
  "decoded x w = (case (w_sc_ptr w, spec_SecurityContext (whc_Spec x)) of
     (Some p, Some sc) \<Rightarrow> w\<lparr>w_whc := x, w_heap := (w_heap w)[p := sc]\<rparr>
   | _ \<Rightarrow> fetched x w)"

definition set_status ::
    "(WorkloadHardeningCheckStatus \<Rightarrow> WorkloadHardeningCheckStatus) \<Rightarrow> world \<Rightarrow> world" where
  "set_status f w = w\<lparr>w_whc := (w_whc w)\<lparr>whc_Status := f (whc_Status (w_whc w))\<rparr>\<rparr>"

text \<open>\<open>w.Get(ctx, key of w, &w.WorkloadHardeningCheck)\<close>; an error leaves the object alone.\<close>

definition get_whc :: "env \<Rightarrow> error option prog" where
  "get_whc env = do {
     x \<leftarrow> gets w_whc;
     r \<leftarrow> ask (EvGetWHC (whc_Namespace x) (whc_Name x))
            (\<lambda>tr. e_GetWHC env tr (whc_Namespace x) (whc_Name x));
     case r of
       Inl e \<Rightarrow> ret (Some e)
     | Inr y \<Rightarrow> do { modify (fetched y); ret None } }"

text \<open>\<open>w.Status().Update(ctx, &w.WorkloadHardeningCheck)\<close>\<close>

definition update_status :: "env \<Rightarrow> error option prog" where
  "update_status env = do {
     x \<leftarrow> gets whc_current;
     r \<leftarrow> ask (EvStatusUpdateWHC x) (\<lambda>tr. e_StatusUpdateWHC env tr x);
     (case r of
       (None, y) \<Rightarrow> do { modify (decoded y); ret None }
     | (Some e, y) \<Rightarrow> ret (Some e)) }"

lemma run_get_whc:
  "run_state (get_whc env) w =
    (let ns = whc_Namespace (w_whc w); n = whc_Name (w_whc w); w1 = w\<lparr>w_trace := w_trace w @ [EvGetWHC ns n]\<rparr>
     in (case e_GetWHC env (w_trace w) ns n of Inl e \<Rightarrow> (Some e, w1) | Inr x \<Rightarrow> (None, fetched x w1)))"
  by (simp add: get_whc_def run_simps Let_def split: sum.splits)

lemma run_update_status:
  "run_state (update_status env) w =
    (let x = whc_current w; w1 = w\<lparr>w_trace := w_trace w @ [EvStatusUpdateWHC x]\<rparr>
     in (case e_StatusUpdateWHC env (w_trace w) x of (None, y) \<Rightarrow> (None, decoded y w1) | (Some e, y) \<Rightarrow> (Some e, w1)))"
  by (simp add: update_status_def run_simps Let_def split: prod.splits option.splits)

text \<open>
  \<open>RefreshWorkloadHardeningCheck\<close> passes the wrapper itself to the client and drops the error.
\<close>

definition RefreshWorkloadHardeningCheck :: "env \<Rightarrow> unit prog" where
  "RefreshWorkloadHardeningCheck env = do {
     x \<leftarrow> gets w_whc;
     r \<leftarrow> ask (EvRefreshWHC (whc_Namespace x) (whc_Name x)) (\<lambda>tr. e_RefreshWHC env tr x);
     case r of
       Inl e \<Rightarrow> ret ()
     | Inr y \<Rightarrow> modify (fetched y) }"

section \<open>The workload under test\<close>

definition kind_of :: "string \<Rightarrow> Kind" where
  "kind_of s =
     (if s = ''deployment'' then Deployment
      else if s = ''statefulset'' then StatefulSet
      else if s = ''daemonset'' then DaemonSet
      else OtherObject)"

definition get_workload :: "env \<Rightarrow> Kind \<Rightarrow> string \<Rightarrow> string \<Rightarrow> (error + Workload) prog" where
  "get_workload env k ns name = ask (EvGetWorkload k ns name) (\<lambda>tr. e_GetWorkload env tr k ns name)"

definition GetWorkloadUnderTest :: "env \<Rightarrow> string \<Rightarrow> (error + Workload) prog" where
  "GetWorkloadUnderTest env targetNamespace = do {
     x \<leftarrow> gets w_whc;
     let ref = spec_TargetRef (whc_Spec x);
     r \<leftarrow> get_workload env (kind_of (to_lower (tr_Kind ref))) targetNamespace (tr_Name ref);
     case r of
       Inl e \<Rightarrow>
         (if IsNotFound e
          then ret (Inl (Errorf ''TargetRef not found. You must reference an existing workload to test it''))
          else ret (Inl (Wrapf ''failed to get workloadHardeningCheck.Spec.TargetRef'' e)))
     | Inr wl \<Rightarrow> ret (Inr wl) }"

definition replicas_or_default :: "Workload \<Rightarrow> int32" where
  "replicas_or_default wl = (case wl_Replicas wl of Some n \<Rightarrow> n | None \<Rightarrow> 1)"

definition GetReplicaCount :: "env \<Rightarrow> string \<Rightarrow> (error + int32) prog" where
  "GetReplicaCount env targetNamespace = do {
     r \<leftarrow> GetWorkloadUnderTest env targetNamespace;
     case r of
       Inl e \<Rightarrow> ret (Inl (Wrapf ''failed to get workload under test'' e))
     | Inr wl \<Rightarrow> ret (case wl_Kind wl of
           Deployment \<Rightarrow> Inr (replicas_or_default wl)
         | StatefulSet \<Rightarrow> Inr (replicas_or_default wl)
         | DaemonSet \<Rightarrow> Inl (Errorf ''cannot scale DaemonSet'')
         | OtherObject \<Rightarrow> Inl (Errorf ''unsupported workload kind'')) }"

definition update_workload :: "env \<Rightarrow> Workload \<Rightarrow> (error option \<times> Workload) prog" where
  "update_workload env wl = ask (EvUpdateWorkload wl) (\<lambda>tr. e_UpdateWorkload env tr wl)"

text \<open>The function \<open>ScaleWorkloadUnderTest\<close> retries; the object it works on is \<open>w_scaled\<close>.\<close>

definition scale_write :: "env \<Rightarrow> int32 \<Rightarrow> Workload \<Rightarrow> error option prog" where
  "scale_write env replicas wl = do {
     let wl' = (if wl_Kind wl \<in> {Deployment, StatefulSet}
                then wl\<lparr>wl_Replicas := Some replicas\<rparr> else wl);
     modify (\<lambda>w. w\<lparr>w_scaled := wl'\<rparr>);
     u \<leftarrow> update_workload env wl';
     (case u of
       (Some e, _) \<Rightarrow> ret (Some e)
     | (None, updated) \<Rightarrow> do { modify (\<lambda>w. w\<lparr>w_scaled := updated\<rparr>); ret None }) }"

definition scale_attempt :: "env \<Rightarrow> string \<Rightarrow> int32 \<Rightarrow> error option prog" where
  "scale_attempt env targetNamespace replicas = do {
     wl \<leftarrow> gets w_scaled;
     r \<leftarrow> get_workload env (wl_Kind wl) targetNamespace (wl_Name wl);
     case r of
       Inl e \<Rightarrow>
         (if IsNotFound e then ret None
          else ret (Some (Wrapf ''failed to re-fetch WorkloadHardeningCheck'' e)))
     | Inr wl' \<Rightarrow> scale_write env replicas wl' }"

definition ScaleWorkloadUnderTest :: "env \<Rightarrow> string \<Rightarrow> int32 \<Rightarrow> error option prog" where
  "ScaleWorkloadUnderTest env targetNamespace replicas = do {
     r \<leftarrow> GetWorkloadUnderTest env targetNamespace;
     case r of
       Inl e \<Rightarrow> ret (Some (Wrapf ''failed to get workload under test'' e))
     | Inr wl \<Rightarrow>
         (case wl_Kind wl of
            DaemonSet \<Rightarrow> ret (Some (Errorf ''cannot scale DaemonSet''))
          | OtherObject \<Rightarrow> ret (Some (Errorf ''unsupported workload kind''))
          | _ \<Rightarrow> do {
              modify (\<lambda>w. w\<lparr>w_scaled := wl\<rparr>);
              RetryOnConflict env (scale_attempt env targetNamespace replicas) }) }"

definition GetPodSpecTemplate :: "env \<Rightarrow> string \<Rightarrow> (error + PodSpec) prog" where
  "GetPodSpecTemplate env ns = do {
     r \<leftarrow> GetWorkloadUnderTest env ns;
     case r of
       Inl e \<Rightarrow> ret (Inl (Wrapf ''failed to get workload under test'' e))
     | Inr wl \<Rightarrow>
         (if wl_Kind wl \<in> {Deployment, StatefulSet, DaemonSet} then ret (Inr (wl_Template wl))
          else ret (Inl (Errorf ''unsupported workload kind''))) }"

definition VerifyRunning :: "env \<Rightarrow> string \<Rightarrow> (error + bool) prog" where
  "VerifyRunning env ns = do {
     r \<leftarrow> GetWorkloadUnderTest env ns;
     case r of
       Inl e \<Rightarrow> ret (Inl (Wrapf ''failed to get workload under test'' e))
     | Inr wl \<Rightarrow> VerifyReadiness env wl }"

definition GetLabelSelector :: "env \<Rightarrow> (error + opaque) prog" where
  "GetLabelSelector env = do {
     x \<leftarrow> gets w_whc;
     r \<leftarrow> GetWorkloadUnderTest env (whc_Namespace x);
     case r of
       Inl e \<Rightarrow> ret (Inl e)
     | Inr wl \<Rightarrow> ret (GetLabelSelectorForWorkload env wl) }"

section \<open>Recommendation and duration\<close>

definition RecommendationExists :: "WorkloadHardeningCheck \<Rightarrow> bool" where
  "RecommendationExists x = (case whc_Recommendation x of
     None \<Rightarrow> False
   | Some r \<Rightarrow> \<not> (rec_Pod r = None \<and> rec_Container r = None))"

definition recommended_pod :: "PodSecurityContext \<Rightarrow> PodSecurityContextDefaults" where
  "recommended_pod p = empty_pod_defaults\<lparr>
     pod_RunAsGroup := psc_RunAsGroup p,
     pod_RunAsUser := psc_RunAsUser p,
     pod_RunAsNonRoot := psc_RunAsNonRoot p,
     pod_FSGroup := psc_FSGroup p\<rparr>"

definition recommended_container :: "SecurityContext \<Rightarrow> ContainerSecurityContextDefaults" where
  "recommended_container c = empty_con_defaults\<lparr>
     con_RunAsGroup := sc_RunAsGroup c,
     con_RunAsUser := sc_RunAsUser c,
     con_RunAsNonRoot := sc_RunAsNonRoot c,
     con_ReadOnlyRootFilesystem := sc_ReadOnlyRootFilesystem c,
     con_AllowPrivilegeEscalation := sc_AllowPrivilegeEscalation c,
     con_CapabilitiesDrop := (case sc_Capabilities c of
         None \<Rightarrow> Some []
       | Some caps \<Rightarrow> (case caps_Drop caps of None \<Rightarrow> Some [] | Some d \<Rightarrow> Some d))\<rparr>"

definition GetRecommendedSecurityContext :: "WorkloadHardeningCheck \<Rightarrow> SecurityContextDefaults option" where
  "GetRecommendedSecurityContext x =
     (if \<not> RecommendationExists x then None
      else (case whc_Recommendation x of
        None \<Rightarrow> None
      | Some r \<Rightarrow> Some \<lparr>
          scd_Pod = Some (case rec_Pod r of None \<Rightarrow> empty_pod_defaults | Some p \<Rightarrow> recommended_pod p),
          scd_Container = Some (case rec_Container r of
              None \<Rightarrow> empty_con_defaults | Some c \<Rightarrow> recommended_container c)\<rparr>))"

definition GetCheckDuration :: "env \<Rightarrow> WorkloadHardeningCheck \<Rightarrow> Duration" where
  "GetCheckDuration env x = check_duration (e_parseFraction env) (spec_RecordingDuration (whc_Spec x))"

section \<open>Conditions\<close>

text \<open>\<open>SetCondition\<close>: the function it retries fetches the object, sets the condition and updates the status.\<close>

definition set_condition_attempt :: "env \<Rightarrow> Condition \<Rightarrow> error option prog" where
  "set_condition_attempt env c = do {
     e \<leftarrow> get_whc env;
     case e of
       Some err \<Rightarrow> if IsNotFound err then ret None else ret (Some err)
     | None \<Rightarrow> do {
         now \<leftarrow> ask EvNow (e_now env);
         modify (set_status (\<lambda>st. st\<lparr>st_Conditions := m_Set (e_meta env) now (st_Conditions st) c\<rparr>));
         update_status env } }"

definition SetCondition :: "env \<Rightarrow> Condition \<Rightarrow> error option prog" where
  "SetCondition env c = RetryOnConflict env (set_condition_attempt env c)"

text \<open>A condition as the callers build it; the transition time is filled in by \<open>SetStatusCondition\<close>.\<close>

definition mk_condition :: "string \<Rightarrow> ConditionStatus \<Rightarrow> string \<Rightarrow> string \<Rightarrow> Condition" where
  "mk_condition type status reason message =
     \<lparr>c_Type = type, c_Status = status, c_Reason = reason, c_Message = message, c_LastTransitionTime = 0\<rparr>"

text \<open>The reason of a condition that a test has just found; the code dereferences the result of the search.\<close>

definition condition_of :: "env \<Rightarrow> WorkloadHardeningCheck \<Rightarrow> string \<Rightarrow> Condition outcome" where
  "condition_of env x t = (case m_Find (e_meta env) (whc_Conditions x) t of
     None \<Rightarrow> Panic ''nil pointer dereference''
   | Some c \<Rightarrow> Ret c)"

definition BaselineRecorded :: "env \<Rightarrow> bool outcome prog" where
  "BaselineRecorded env = do {
     RefreshWorkloadHardeningCheck env;
     x \<leftarrow> gets w_whc;
     if m_IsTrue (e_meta env) (whc_Conditions x) ConditionTypeBaseline then
       attempt (ret (condition_of env x ConditionTypeBaseline)) (\<lambda>c.
         ret (Ret (c_Reason c = ReasonBaselineRecordingFinished \<or> c_Reason c = ReasonBaselineRecordingFailed)))
     else ret (Ret False) }"

definition BaselineInProgress :: "env \<Rightarrow> bool outcome prog" where
  "BaselineInProgress env = do {
     RefreshWorkloadHardeningCheck env;
     x \<leftarrow> gets w_whc;
     if m_IsFalse (e_meta env) (whc_Conditions x) ConditionTypeBaseline then
       attempt (ret (condition_of env x ConditionTypeBaseline)) (\<lambda>c.
         ret (Ret (c_Reason c = ReasonBaselineRecording)))
     else ret (Ret False) }"

definition FinalCheckRecorded :: "env \<Rightarrow> bool outcome prog" where
  "FinalCheckRecorded env = do {
     RefreshWorkloadHardeningCheck env;
     x \<leftarrow> gets w_whc;
     if m_IsTrue (e_meta env) (whc_Conditions x) ConditionTypeFinalCheck then
       attempt (ret (condition_of env x ConditionTypeFinalCheck)) (\<lambda>c.
         ret (Ret (c_Reason c = ReasonCheckRecordingFinished \<or> c_Reason c = ReasonCheckRecordingFailed)))
     else ret (Ret False) }"

definition FinalCheckInProgress :: "env \<Rightarrow> bool outcome prog" where
  "FinalCheckInProgress env = do {
     RefreshWorkloadHardeningCheck env;
     x \<leftarrow> gets w_whc;
     if m_IsFalse (e_meta env) (whc_Conditions x) ConditionTypeFinalCheck then
       attempt (ret (condition_of env x ConditionTypeFinalCheck)) (\<lambda>c.
         ret (Ret (c_Reason c = ReasonCheckRecording)))
     else ret (Ret False) }"

definition check_condition_type :: "env \<Rightarrow> string \<Rightarrow> string" where
  "check_condition_type env checkType = e_title env checkType @ ConditionTypeCheck"

definition CheckRecorded :: "env \<Rightarrow> string \<Rightarrow> bool outcome prog" where
  "CheckRecorded env checkType = do {
     RefreshWorkloadHardeningCheck env;
     x \<leftarrow> gets w_whc;
     let conditionType = check_condition_type env checkType;
     if m_IsTrue (e_meta env) (whc_Conditions x) conditionType then
       attempt (ret (condition_of env x conditionType)) (\<lambda>c.
         ret (Ret (c_Reason c = ReasonCheckRecordingFinished \<or> c_Reason c = ReasonCheckRecordingFailed)))
     else ret (Ret False) }"

definition CheckInProgress :: "env \<Rightarrow> string \<Rightarrow> bool outcome prog" where
  "CheckInProgress env checkType = do {
     RefreshWorkloadHardeningCheck env;
     x \<leftarrow> gets w_whc;
     let conditionType = check_condition_type env checkType;
     if m_IsFalse (e_meta env) (whc_Conditions x) conditionType then
       attempt (ret (condition_of env x conditionType)) (\<lambda>c.
         ret (Ret (c_Reason c = ReasonCheckRecording)))
     else ret (Ret False) }"

text \<open>The three overdue tests differ in the condition they look at.\<close>

definition overdue :: "env \<Rightarrow> bool outcome prog \<Rightarrow> string \<Rightarrow> bool outcome prog" where
  "overdue env inProgress conditionType =
     attempt inProgress (\<lambda>running.
       if running then do {
         x \<leftarrow> gets w_whc;
         attempt (ret (condition_of env x conditionType)) (\<lambda>c. do {
           now \<leftarrow> ask EvNow (e_now env);
           ret (Ret (longer (since now (c_LastTransitionTime c)) (GetCheckDuration env x + dur Minute))) }) }
       else ret (Ret False))"

definition BaselineOverdue :: "env \<Rightarrow> bool outcome prog" where
  "BaselineOverdue env = overdue env (BaselineInProgress env) ConditionTypeBaseline"

definition FinalCheckOverdue :: "env \<Rightarrow> bool outcome prog" where
  "FinalCheckOverdue env = overdue env (FinalCheckInProgress env) ConditionTypeFinalCheck"

definition CheckOverdue :: "env \<Rightarrow> string \<Rightarrow> bool outcome prog" where
  "CheckOverdue env checkType =
     overdue env (CheckInProgress env checkType) (check_condition_type env checkType)"

section \<open>What the operations touch\<close>

definition keyed :: "string \<Rightarrow> string \<Rightarrow> world \<Rightarrow> bool" where
  "keyed ns n w \<longleftrightarrow> whc_Namespace (w_whc w) = ns \<and> whc_Name (w_whc w) = n"

lemma keyed_trace [simp]: "keyed ns n (w\<lparr>w_trace := tr\<rparr>) = keyed ns n w"
  by (simp add: keyed_def)

lemma keyed_scaled [simp]: "keyed ns n (w\<lparr>w_scaled := x\<rparr>) = keyed ns n w"
  by (simp add: keyed_def)

lemma fetched_frame [simp]: "w_trace (fetched x w) = w_trace w" "w_whc (fetched x w) = x"
  "w_wl (fetched x w) = w_wl w" "w_exec (fetched x w) = w_exec w"
  by (simp_all add: fetched_def split: option.splits)

lemma decoded_frame [simp]: "w_trace (decoded x w) = w_trace w" "w_whc (decoded x w) = x"
  "w_wl (decoded x w) = w_wl w" "w_exec (decoded x w) = w_exec w"
  by (simp_all add: decoded_def split: option.splits)

lemma set_status_frame [simp]: "w_trace (set_status f w) = w_trace w"
  "whc_Namespace (w_whc (set_status f w)) = whc_Namespace (w_whc w)"
  "whc_Name (w_whc (set_status f w)) = whc_Name (w_whc w)"
  by (simp_all add: set_status_def)

lemma keyed_simps [simp]:
  "keyed ns n (fetched x w) \<longleftrightarrow> whc_Namespace x = ns \<and> whc_Name x = n"
  "keyed ns n (decoded x w) \<longleftrightarrow> whc_Namespace x = ns \<and> whc_Name x = n"
  "keyed ns n (set_status f w) \<longleftrightarrow> keyed ns n w"
  by (simp_all add: keyed_def)

lemma keyed_current [simp]:
  "whc_Namespace (whc_current w) = whc_Namespace (w_whc w)"
  "whc_Name (whc_current w) = whc_Name (w_whc w)"
  "whc_Status (whc_current w) = whc_Status (w_whc w)"
  by (simp_all add: whc_current_def with_SecurityContext_def)

lemma keeps_get_whc [emits_intros]:
  assumes "lawful env" shows "keeps (keyed ns n) (footprint T ns n) (get_whc env)"
  unfolding steps_def
proof (intro allI impI)
  fix w assume k: "keyed ns n w"
  show "(\<exists>evs. w_trace (snd (run_state (get_whc env) w)) = w_trace w @ evs \<and>
      (\<forall>ev\<in>set evs. footprint T ns n ev)) \<and> keyed ns n (snd (run_state (get_whc env) w))"
  proof (cases "e_GetWHC env (w_trace w) ns n")
    case (Inl e)
    then show ?thesis using k by (simp add: get_whc_def run_simps keyed_def)
  next
    case (Inr x)
    then show ?thesis using k GetWHC_key [OF assms Inr] by (simp add: get_whc_def run_simps keyed_def)
  qed
qed

lemma keeps_update_status [emits_intros]:
  assumes "lawful env" shows "keeps (keyed ns n) (footprint T ns n) (update_status env)"
  unfolding steps_def
proof (intro allI impI)
  fix w assume k: "keyed ns n w"
  obtain r y where r: "e_StatusUpdateWHC env (w_trace w) (whc_current w) = (r, y)" by force
  then have "whc_Namespace y = ns" "whc_Name y = n"
    using StatusUpdateWHC_key [OF assms, of "w_trace w" "whc_current w"] k by (simp_all add: keyed_def)
  then show "(\<exists>evs. w_trace (snd (run_state (update_status env) w)) = w_trace w @ evs \<and>
      (\<forall>ev\<in>set evs. footprint T ns n ev)) \<and> keyed ns n (snd (run_state (update_status env) w))"
    using k by (cases r) (simp_all add: update_status_def run_simps r keyed_def)
qed

lemma keeps_Refresh [emits_intros]:
  assumes "lawful env" shows "keeps (keyed ns n) (footprint T ns n) (RefreshWorkloadHardeningCheck env)"
  unfolding steps_def
proof (intro allI impI)
  fix w assume k: "keyed ns n w"
  show "(\<exists>evs. w_trace (snd (run_state (RefreshWorkloadHardeningCheck env) w)) = w_trace w @ evs \<and>
      (\<forall>ev\<in>set evs. footprint T ns n ev)) \<and> keyed ns n (snd (run_state (RefreshWorkloadHardeningCheck env) w))"
  proof (cases "e_RefreshWHC env (w_trace w) (w_whc w)")
    case (Inl e)
    then show ?thesis using k by (simp add: RefreshWorkloadHardeningCheck_def run_simps)
  next
    case (Inr x)
    then show ?thesis using k RefreshWHC_key [OF assms Inr]
      by (simp add: RefreshWorkloadHardeningCheck_def run_simps keyed_def)
  qed
qed

lemma keeps_SetCondition [emits_intros]:
  assumes "lawful env" shows "keeps (keyed ns n) (footprint T ns n) (SetCondition env c)"
proof -
  have "retry_laws (e_retry env)" using assms by (simp add: lawful_def)
  then show ?thesis unfolding SetCondition_def set_condition_attempt_def
    by (intro emits_intros) (auto simp: assms)
qed

lemma keeps_get_workload [emits_intros]:
  "keeps (keyed ns n) (footprint T ns n) (get_workload env k s name)"
  unfolding get_workload_def by (intro emits_intros) auto

lemma keeps_GetWorkloadUnderTest [emits_intros]:
  "keeps (keyed ns n) (footprint T ns n) (GetWorkloadUnderTest env s)"
  unfolding GetWorkloadUnderTest_def by (intro emits_intros)

lemma keeps_list_pods [emits_intros]: "keeps (keyed ns n) (footprint T ns n) (list_pods env s sel)"
  unfolding list_pods_def by (intro emits_intros) auto

lemma keeps_VerifyReadiness [emits_intros]: "keeps (keyed ns n) (footprint T ns n) (VerifyReadiness env wl)"
  unfolding VerifyReadiness_def GetPodsForWorkload_def by (intro emits_intros)

lemma keeps_reads [emits_intros]:
  "keeps (keyed ns n) (footprint T ns n) (GetReplicaCount env s)"
  "keeps (keyed ns n) (footprint T ns n) (GetPodSpecTemplate env s)"
  "keeps (keyed ns n) (footprint T ns n) (GetLabelSelector env)"
  "keeps (keyed ns n) (footprint T ns n) (VerifyRunning env s)"
  unfolding GetReplicaCount_def GetPodSpecTemplate_def GetLabelSelector_def VerifyRunning_def
  by (intro emits_intros)+

lemma keeps_conditions [emits_intros]:
  assumes "lawful env"
  shows "keeps (keyed ns n) (footprint T ns n) (BaselineRecorded env)"
    "keeps (keyed ns n) (footprint T ns n) (BaselineInProgress env)"
    "keeps (keyed ns n) (footprint T ns n) (FinalCheckRecorded env)"
    "keeps (keyed ns n) (footprint T ns n) (FinalCheckInProgress env)"
    "keeps (keyed ns n) (footprint T ns n) (CheckRecorded env t)"
    "keeps (keyed ns n) (footprint T ns n) (CheckInProgress env t)"
  unfolding BaselineRecorded_def BaselineInProgress_def FinalCheckRecorded_def FinalCheckInProgress_def
    CheckRecorded_def CheckInProgress_def
  by (intro emits_intros assms)+

lemma keeps_overdue [emits_intros]:
  assumes "keeps (keyed ns n) (footprint T ns n) m"
  shows "keeps (keyed ns n) (footprint T ns n) (overdue env m t)"
  unfolding overdue_def by (intro emits_intros assms) auto

lemma keeps_overdues [emits_intros]:
  assumes "lawful env"
  shows "keeps (keyed ns n) (footprint T ns n) (BaselineOverdue env)"
    "keeps (keyed ns n) (footprint T ns n) (FinalCheckOverdue env)"
    "keeps (keyed ns n) (footprint T ns n) (CheckOverdue env t)"
  unfolding BaselineOverdue_def FinalCheckOverdue_def CheckOverdue_def
  by (intro emits_intros assms)+

text \<open>Scaling writes only the workload it has just read from the target namespace.\<close>

lemma steps_get_workload:
  assumes "lawful env"
  shows "steps (keyed ns n) (footprint T ns n) (get_workload env k s name)
    (\<lambda>r w. keyed ns n w \<and> (\<forall>wl. r = Inr wl \<longrightarrow> wl_Kind wl = k \<and> wl_Namespace wl = s \<and> wl_Name wl = name))"
  unfolding get_workload_def
  by (rule steps_ask) (auto dest: GetWorkload_key [OF assms])

lemma keeps_update_workload:
  "T = Some (wl_Namespace wl) \<Longrightarrow> keeps (keyed ns n) (footprint T ns n) (update_workload env wl)"
  unfolding update_workload_def by (intro emits_intros) auto

lemma keeps_scale_write:
  "wl_Namespace wl = s \<Longrightarrow> keeps (keyed ns n) (footprint (Some s) ns n) (scale_write env r wl)"
  unfolding scale_write_def Let_def
  by (intro emits_intros keeps_update_workload) auto

lemma keeps_Scale [emits_intros]:
  assumes "lawful env"
  shows "keeps (keyed ns n) (footprint (Some s) ns n) (ScaleWorkloadUnderTest env s r)"
proof -
  have "keeps (keyed ns n) (footprint (Some s) ns n) (scale_attempt env s r)"
    unfolding scale_attempt_def
    by (rule keeps_bind [OF keeps_gets], rule steps_bind_fact [OF steps_get_workload [OF assms]],
        intro emits_intros keeps_scale_write) auto
  with lawful_laws(2) [OF assms]
  have "keeps (keyed ns n) (footprint (Some s) ns n) (RetryOnConflict env (scale_attempt env s r))"
    by (rule keeps_retry)
  note retried = this
  have modified: "keeps (keyed ns n) (footprint (Some s) ns n) (modify (\<lambda>w. w\<lparr>w_scaled := wl\<rparr>))" for wl
    by (rule keeps_modify) simp_all
  show ?thesis unfolding ScaleWorkloadUnderTest_def
  proof (intro keeps_bind keeps_GetWorkloadUnderTest keeps_case_sum keeps_ret)
    fix wl
    show "keeps (keyed ns n) (footprint (Some s) ns n)
      (case wl_Kind wl of DaemonSet \<Rightarrow> ret (Some (Errorf ''cannot scale DaemonSet''))
       | OtherObject \<Rightarrow> ret (Some (Errorf ''unsupported workload kind''))
       | _ \<Rightarrow> do { modify (\<lambda>w. w\<lparr>w_scaled := wl\<rparr>); RetryOnConflict env (scale_attempt env s r) })"
      by (cases "wl_Kind wl") (simp_all add: keeps_ret keeps_bind [OF modified retried])
  qed
qed

section \<open>Setting and testing conditions\<close>

definition has_condition :: "env \<Rightarrow> WorkloadHardeningCheck \<Rightarrow> Condition \<Rightarrow> bool" where
  "has_condition env x c \<longleftrightarrow> (\<exists>c'. m_Find (e_meta env) (whc_Conditions x) (c_Type c) = Some c'
     \<and> c_Status c' = c_Status c \<and> c_Reason c' = c_Reason c \<and> c_Message c' = c_Message c)"

definition found_gone :: "env \<Rightarrow> string \<Rightarrow> string \<Rightarrow> world \<Rightarrow> bool" where
  "found_gone env ns n w \<longleftrightarrow> (\<exists>tr e. w_trace w = tr @ [EvGetWHC ns n] \<and> e_GetWHC env tr ns n = Inl e \<and> IsNotFound e)"

lemma set_condition_attempt_steps:
  assumes "lawful env" "status_echo env"
  shows "steps (keyed ns n) (\<lambda>_. True) (set_condition_attempt env c)
    (\<lambda>r w. keyed ns n w \<and> (r = None \<longrightarrow> has_condition env (w_whc w) c \<or> found_gone env ns n w))"
  unfolding steps_def
proof (intro allI impI)
  fix w assume k: "keyed ns n w"
  have key: "whc_Namespace (w_whc w) = ns" "whc_Name (w_whc w) = n" using k by (auto simp: keyed_def)
  let ?m = "set_condition_attempt env c"
  let ?goal = "(\<exists>evs. w_trace (snd (run_state ?m w)) = w_trace w @ evs \<and> (\<forall>ev\<in>set evs. True)) \<and>
    keyed ns n (snd (run_state ?m w)) \<and> (fst (run_state ?m w) = None \<longrightarrow>
      has_condition env (w_whc (snd (run_state ?m w))) c \<or> found_gone env ns n (snd (run_state ?m w)))"
  show ?goal
  proof (cases "e_GetWHC env (w_trace w) ns n")
    case (Inl e)
    then show ?thesis using k
      by (cases "IsNotFound e")
        (simp_all add: set_condition_attempt_def get_whc_def run_simps key found_gone_def)
  next
    case (Inr x)
    note kx = GetWHC_key [OF assms(1) Inr]
    define w1 where "w1 = fetched x (w\<lparr>w_trace := w_trace w @ [EvGetWHC ns n]\<rparr>)"
    define w2 where "w2 = set_status
      (\<lambda>st. st\<lparr>st_Conditions := m_Set (e_meta env) (e_now env (w_trace w1)) (st_Conditions st) c\<rparr>)
      (w1\<lparr>w_trace := w_trace w1 @ [EvNow]\<rparr>)"
    obtain r y where u: "e_StatusUpdateWHC env (w_trace w2) (whc_current w2) = (r, y)" by force
    have "run_state ?m w = run_state (update_status env) w2"
      using Inr by (simp add: set_condition_attempt_def run_bind run_get_whc Let_def key run_ask run_modify
          w1_def [symmetric] w2_def [symmetric])
    then have run: "run_state ?m w = (case r of
        None \<Rightarrow> (None, decoded y (w2\<lparr>w_trace := w_trace w2 @ [EvStatusUpdateWHC (whc_current w2)]\<rparr>))
      | Some e \<Rightarrow> (Some e, w2\<lparr>w_trace := w_trace w2 @ [EvStatusUpdateWHC (whc_current w2)]\<rparr>))"
      by (simp add: run_update_status Let_def u)
    have tr: "w_trace w2 = w_trace w @ [EvGetWHC ns n, EvNow]" by (simp add: w2_def w1_def)
    have k2: "keyed ns n w2" using kx by (simp add: w2_def w1_def)
    have ky: "whc_Namespace y = ns" "whc_Name y = n"
      using StatusUpdateWHC_key [OF assms(1), of "w_trace w2" "whc_current w2"] u k2 by (simp_all add: keyed_def)
    have conds: "whc_Conditions (whc_current w2) = m_Set (e_meta env) (e_now env (w_trace w1)) (whc_Conditions x) c"
      by (simp add: w2_def w1_def set_status_def)
    show ?thesis
    proof (cases r)
      case None
      then have "whc_Status y = whc_Status (whc_current w2)"
        using u assms(2) unfolding status_echo_def by blast
      then have "has_condition env y c"
        using meta_laws_Find_Set [OF lawful_laws(1) [OF assms(1)]] conds by (simp add: has_condition_def)
      then show ?thesis using ky by (simp add: run None tr)
    next
      case (Some e)
      then show ?thesis using k2 by (simp add: run tr)
    qed
  qed
qed

text \<open>
  When \<open>SetCondition\<close> returns no error, then either the condition is now the object's, with the
  status, reason and message that were asked for, or the API server has just reported the object gone;
  however often the update conflicted and was retried.
\<close>

theorem SetCondition_sets:
  assumes "lawful env" and "status_echo env" and "run_state (SetCondition env c) w = (None, w')"
  shows "has_condition env (w_whc w') c
    \<or> found_gone env (whc_Namespace (w_whc w)) (whc_Name (w_whc w)) w'"
  using retry_result [OF assms(1) set_condition_attempt_steps [OF assms(1,2)], of
      "whc_Namespace (w_whc w)" "whc_Name (w_whc w)" w c None w'] assms(3)
  by (simp add: SetCondition_def keyed_def)

theorem SetCondition_sets_witness:
  "let env = ref_env empty_whc [] []; c = mk_condition ''Baseline'' ConditionTrue ''BaselineRecordingFinished'' [];
       w' = snd (run_state (SetCondition env c) (start_world empty_whc))
   in has_condition env (w_whc w') c \<or> found_gone env ''apps'' ''whc'' w'"
proof -
  let ?env = "ref_env empty_whc [] []"
  let ?c = "mk_condition ''Baseline'' ConditionTrue ''BaselineRecordingFinished'' []"
  let ?w = "start_world empty_whc"
  have run: "run_state (SetCondition ?env ?c) ?w = (None, snd (run_state (SetCondition ?env ?c) ?w))"
    by (simp add: SetCondition_def set_condition_attempt_def get_whc_def update_status_def run_simps
        ref_env_def ref_retry_def eval_nat_numeral empty_whc_def start_world_def)
  show ?thesis
    using SetCondition_sets [OF ref_env_lawful ref_env_status_echo run]
    by (simp add: Let_def start_world_def) (simp add: empty_whc_def)
qed

text \<open>A condition that is present with a status and one of some reasons, in the copy at hand.\<close>

definition cond_is :: "env \<Rightarrow> WorkloadHardeningCheck \<Rightarrow> string \<Rightarrow> ConditionStatus \<Rightarrow> string set \<Rightarrow> bool" where
  "cond_is env x t s reasons \<longleftrightarrow>
     (\<exists>c. m_Find (e_meta env) (whc_Conditions x) t = Some c \<and> c_Status c = s \<and> c_Reason c \<in> reasons)"

definition refreshed :: "world \<Rightarrow> world" where
  "refreshed w = w\<lparr>w_trace := w_trace w @ [EvRefreshWHC (whc_Namespace (w_whc w)) (whc_Name (w_whc w))]\<rparr>"

lemma refreshed_frame [simp]: "w_whc (refreshed w) = w_whc w" "w_exec (refreshed w) = w_exec w"
  "w_heap (refreshed w) = w_heap w" "w_sc_ptr (refreshed w) = w_sc_ptr w" "w_wl (refreshed w) = w_wl w"
  by (simp_all add: refreshed_def)

lemma run_Refresh:
  assumes "wrapper_unregistered env"
  shows "run_state (RefreshWorkloadHardeningCheck env) w = ((), refreshed w)"
proof -
  obtain e where "e_RefreshWHC env (w_trace w) (w_whc w) = Inl e"
    using assms unfolding wrapper_unregistered_def by blast
  then show ?thesis by (simp add: RefreshWorkloadHardeningCheck_def run_simps refreshed_def)
qed

lemma run_test:
  assumes "wrapper_unregistered env"
  shows "run_state (do {
       RefreshWorkloadHardeningCheck env;
       x \<leftarrow> gets w_whc;
       if tst x then
         attempt (ret (condition_of env x t)) (\<lambda>c. ret (Ret (R c)))
       else ret (Ret False) }) w =
    (if tst (w_whc w) then (case m_Find (e_meta env) (whc_Conditions (w_whc w)) t of
        None \<Rightarrow> Panic ''nil pointer dereference'' | Some c \<Rightarrow> Ret (R c)) else Ret False, refreshed w)"
  by (simp add: run_bind run_Refresh [OF assms] run_gets run_attempt run_ret condition_of_def split: option.splits)

lemma true_case:
  assumes "meta_laws (e_meta env)"
  shows "(if m_IsTrue (e_meta env) (whc_Conditions x) t then (case m_Find (e_meta env) (whc_Conditions x) t of
        None \<Rightarrow> Panic p | Some c \<Rightarrow> Ret (c_Reason c = r1 \<or> c_Reason c = r2)) else Ret False)
      = Ret (cond_is env x t ConditionTrue {r1, r2})"
  using meta_laws_IsTrue [OF assms, of "whc_Conditions x" t]
  by (auto simp: cond_is_def split: option.splits)

lemma false_case:
  assumes "meta_laws (e_meta env)"
  shows "(if m_IsFalse (e_meta env) (whc_Conditions x) t then (case m_Find (e_meta env) (whc_Conditions x) t of
        None \<Rightarrow> Panic p | Some c \<Rightarrow> Ret (c_Reason c = r)) else Ret False)
      = Ret (cond_is env x t ConditionFalse {r})"
  using meta_laws_IsFalse [OF assms, of "whc_Conditions x" t]
  by (auto simp: cond_is_def split: option.splits)

lemma run_conditions:
  assumes "meta_laws (e_meta env)" "wrapper_unregistered env"
  shows "run_state (BaselineRecorded env) w = (Ret (cond_is env (w_whc w) ConditionTypeBaseline ConditionTrue
      {ReasonBaselineRecordingFinished, ReasonBaselineRecordingFailed}), refreshed w)"
    "run_state (BaselineInProgress env) w = (Ret (cond_is env (w_whc w) ConditionTypeBaseline ConditionFalse
      {ReasonBaselineRecording}), refreshed w)"
    "run_state (FinalCheckRecorded env) w = (Ret (cond_is env (w_whc w) ConditionTypeFinalCheck ConditionTrue
      {ReasonCheckRecordingFinished, ReasonCheckRecordingFailed}), refreshed w)"
    "run_state (FinalCheckInProgress env) w = (Ret (cond_is env (w_whc w) ConditionTypeFinalCheck ConditionFalse
      {ReasonCheckRecording}), refreshed w)"
    "run_state (CheckRecorded env t) w = (Ret (cond_is env (w_whc w) (check_condition_type env t) ConditionTrue
      {ReasonCheckRecordingFinished, ReasonCheckRecordingFailed}), refreshed w)"
    "run_state (CheckInProgress env t) w = (Ret (cond_is env (w_whc w) (check_condition_type env t) ConditionFalse
      {ReasonCheckRecording}), refreshed w)"
  unfolding BaselineRecorded_def BaselineInProgress_def FinalCheckRecorded_def FinalCheckInProgress_def
    CheckRecorded_def CheckInProgress_def Let_def run_test [OF assms(2)]
    true_case [OF assms(1)] false_case [OF assms(1)]
  by (rule refl)+

text \<open>
  The tests of the conditions read the copy that was fetched last: the refresh before each of them
  fails, its error is dropped, and the copy stays as it is. They never dereference a missing condition,
  and a check is never both recorded and in progress.
\<close>

theorem condition_tests_read_snapshot:
  assumes "meta_laws (e_meta env)" and "wrapper_unregistered env"
  shows "fst (run_state (BaselineRecorded env) w) = Ret (cond_is env (w_whc w) ConditionTypeBaseline ConditionTrue
        {ReasonBaselineRecordingFinished, ReasonBaselineRecordingFailed})
    \<and> fst (run_state (FinalCheckRecorded env) w) = Ret (cond_is env (w_whc w) ConditionTypeFinalCheck ConditionTrue
        {ReasonCheckRecordingFinished, ReasonCheckRecordingFailed})
    \<and> fst (run_state (CheckRecorded env t) w) = Ret (cond_is env (w_whc w) (check_condition_type env t) ConditionTrue
        {ReasonCheckRecordingFinished, ReasonCheckRecordingFailed})
    \<and> w_whc (snd (run_state (CheckRecorded env t) w)) = w_whc w
    \<and> \<not> (fst (run_state (CheckRecorded env t) w) = Ret True \<and> fst (run_state (CheckInProgress env t) w) = Ret True)"
  by (simp add: run_conditions [OF assms]) (auto simp: cond_is_def)

theorem condition_tests_read_snapshot_witness:
  "fst (run_state (BaselineRecorded (ref_env empty_whc [] [])) (start_world empty_whc)) =
    Ret (cond_is (ref_env empty_whc [] []) empty_whc ConditionTypeBaseline ConditionTrue
      {ReasonBaselineRecordingFinished, ReasonBaselineRecordingFailed})"
  using condition_tests_read_snapshot [OF lawful_laws(1) [OF ref_env_lawful [of empty_whc "[]" "[]"]]
      ref_env_wrapper [of empty_whc "[]" "[]"], of "start_world empty_whc"]
  by (simp add: start_world_def)

section \<open>The recommended security context\<close>

definition recommended_pod_fields :: "PodField set" where
  "recommended_pod_fields = {PF_RunAsGroup, PF_RunAsUser, PF_RunAsNonRoot, PF_FSGroup}"

definition recommended_con_fields :: "ConField set" where
  "recommended_con_fields = {CF_RunAsGroup, CF_RunAsUser, CF_RunAsNonRoot, CF_ReadOnlyRootFilesystem,
     CF_AllowPrivilegeEscalation}"

lemma pod_view_recommended:
  "pod_view (the (Pod_ToK8sSecurityContext (Some (recommended_pod p)))) f =
    (if f \<in> recommended_pod_fields then pod_view p f else None)"
  by (cases f) (simp_all add: recommended_pod_def recommended_pod_fields_def Pod_ToK8sSecurityContext_def empty_contexts)

lemma con_view_recommended:
  "f \<noteq> CF_Capabilities \<Longrightarrow> con_view (the (Container_ToK8sSecurityContext (Some (recommended_container c)))) f =
    (if f \<in> recommended_con_fields then con_view c f else None)"
  by (cases f) (simp_all add: recommended_container_def recommended_con_fields_def
      Container_ToK8sSecurityContext_def empty_contexts split: option.splits)

lemma dropped_recommended:
  "dropped (the (Container_ToK8sSecurityContext (Some (recommended_container c)))) = dropped c"
  by (auto simp: recommended_container_def Container_ToK8sSecurityContext_def dropped_def empty_contexts
      split: option.splits)

text \<open>
  What the final check applies of a recommendation that gives both halves: the user, group, file
  system group, non-root, read-only and escalation settings and the dropped capabilities, exactly as
  recommended, and nothing else. In particular a recommended seccomp profile, SELinux option or list of
  supplemental groups is not part of what the final check tests.
\<close>

theorem final_check_applies_recommendation:
  assumes "whc_Recommendation x = Some \<lparr>rec_Container = Some c, rec_Pod = Some p\<rparr>"
  shows "\<exists>pd cd pk ck. GetRecommendedSecurityContext x = Some \<lparr>scd_Pod = Some pd, scd_Container = Some cd\<rparr>
    \<and> Pod_ToK8sSecurityContext (Some pd) = Some pk \<and> Container_ToK8sSecurityContext (Some cd) = Some ck
    \<and> (\<forall>f. pod_view pk f = (if f \<in> recommended_pod_fields then pod_view p f else None))
    \<and> (\<forall>f. f \<noteq> CF_Capabilities \<longrightarrow> con_view ck f = (if f \<in> recommended_con_fields then con_view c f else None))
    \<and> dropped ck = dropped c"
proof -
  have r: "GetRecommendedSecurityContext x =
      Some \<lparr>scd_Pod = Some (recommended_pod p), scd_Container = Some (recommended_container c)\<rparr>"
    by (simp add: GetRecommendedSecurityContext_def RecommendationExists_def assms)
  obtain pk where pk: "Pod_ToK8sSecurityContext (Some (recommended_pod p)) = Some pk"
    by (simp add: Pod_ToK8sSecurityContext_def)
  obtain ck where ck: "Container_ToK8sSecurityContext (Some (recommended_container c)) = Some ck"
    by (simp add: Container_ToK8sSecurityContext_def)
  show ?thesis
    using r pk ck pod_view_recommended [of p] con_view_recommended [of _ c] dropped_recommended [of c]
    by (intro exI [of _ "recommended_pod p"] exI [of _ "recommended_container c"] exI [of _ pk] exI [of _ ck])
      simp
qed

theorem final_check_applies_recommendation_witness:
  "GetRecommendedSecurityContext (empty_whc\<lparr>whc_Status := (whc_Status empty_whc)\<lparr>st_Recommendation :=
      Some \<lparr>rec_Container = Some (empty_sc\<lparr>sc_RunAsUser := Some 1000\<rparr>), rec_Pod = Some empty_psc\<rparr>\<rparr>\<rparr>) \<noteq> None"
  using final_check_applies_recommendation [of "empty_whc\<lparr>whc_Status := (whc_Status empty_whc)\<lparr>st_Recommendation :=
      Some \<lparr>rec_Container = Some (empty_sc\<lparr>sc_RunAsUser := Some 1000\<rparr>), rec_Pod = Some empty_psc\<rparr>\<rparr>\<rparr>"]
  by auto

text \<open>
  For a recording duration of the form the resource definition admits, digits and one of \<open>s\<close>, \<open>m\<close>
  and \<open>h\<close>, the check lasts exactly that long if it fits in 63 bits of nanoseconds, and five minutes otherwise.
\<close>

theorem GetCheckDuration_admitted:
  assumes "spec_RecordingDuration (whc_Spec x) = ds @ [c]" and "ds \<noteq> []" and "\<forall>d \<in> set ds. is_digit d"
    and "simple_unit c = Some u"
  shows "GetCheckDuration env x =
    (if digits_val 0 ds * u \<le> 2 ^ 63 - 1 then of_nat (digits_val 0 ds * u) else dur (5 * Minute))"
  unfolding GetCheckDuration_def assms(1) by (rule check_duration_simple [OF assms(2-4)])

theorem GetCheckDuration_admitted_witness:
  "GetCheckDuration (ref_env empty_whc [] []) empty_whc = of_nat (5 * Minute)"
  using GetCheckDuration_admitted [of empty_whc "''5''" "CHR ''m''" Minute "ref_env empty_whc [] []"]
  by (simp add: empty_whc_def is_digit_def simple_unit_def digit_val_def Minute_def Second_def)

end
