(* ===== verification/Valkey.thy ===== *)
theory Valkey
  imports WhcOps
begin

text \<open>
  \<open>internal/valkey/client.go\<close>: recordings are stored as JSON under a lower-cased key. The server and the
  JSON codec are fields of \<open>env\<close>.
\<close>

definition storeEntry :: "env \<Rightarrow> string \<Rightarrow> string \<Rightarrow> error option prog" where
  "storeEntry env key val = ask (EvSet (to_lower key) val) (\<lambda>tr. e_Set env tr (to_lower key) val)"

definition getEntry :: "env \<Rightarrow> string \<Rightarrow> (error + string) prog" where
  "getEntry env key = ask (EvGet (to_lower key)) (\<lambda>tr. e_Get env tr (to_lower key))"

definition deleteEntry :: "env \<Rightarrow> string \<Rightarrow> error option prog" where
  "deleteEntry env key = ask (EvDel (to_lower key)) (\<lambda>tr. e_Del env tr (to_lower key))"

definition recording_key :: "string \<Rightarrow> string \<Rightarrow> string" where
  "recording_key suffix type = ''recording:'' @ suffix @ '':'' @ type"

definition StoreRecording :: "env \<Rightarrow> string \<Rightarrow> WorkloadRecording \<Rightarrow> error option prog" where
  "StoreRecording env suffix r =
     (case e_Marshal env r of
        Inl e \<Rightarrow> ret (Some e)
      | Inr json \<Rightarrow> storeEntry env (recording_key suffix (wr_Type r)) json)"

definition GetRecording :: "env \<Rightarrow> string \<Rightarrow> (error + WorkloadRecording option) prog" where
  "GetRecording env keySuffix = do {
     r \<leftarrow> getEntry env (''recording:'' @ keySuffix);
     case r of
       Inl e \<Rightarrow> ret (Inl e)
     | Inr val \<Rightarrow>
         (if val = [] then ret (Inr None)
          else (case e_Unmarshal env val of
              Inl e \<Rightarrow> ret (Inl e)
            | Inr rec \<Rightarrow> ret (Inr (Some rec)))) }"

definition DeleteRecording :: "env \<Rightarrow> string \<Rightarrow> string \<Rightarrow> error option prog" where
  "DeleteRecording env keySuffix recordingType = deleteEntry env (''recording:'' @ keySuffix @ '':'' @ recordingType)"

lemma keeps_StoreRecording [emits_intros]: "keeps (keyed ns n) (footprint T ns n) (StoreRecording env s r)"
  unfolding StoreRecording_def storeEntry_def by (intro emits_intros) auto

lemma keeps_GetRecording [emits_intros]: "keeps (keyed ns n) (footprint T ns n) (GetRecording env k)"
  unfolding GetRecording_def getEntry_def by (intro emits_intros) auto

section \<open>Reading back\<close>

text \<open>
  A Valkey that keeps its entries, as long as they do not expire (a day): a value that was set is got
  until the key is set or deleted again. A codec that is faithful on the recording at hand.
\<close>

definition keeps_entries :: "env \<Rightarrow> bool" where
  "keeps_entries env \<longleftrightarrow> (\<forall>tr k v tr'. e_Set env tr k v = None \<longrightarrow>
     (\<forall>v'. EvSet k v' \<notin> set tr') \<longrightarrow> EvDel k \<notin> set tr' \<longrightarrow>
     e_Get env (tr @ EvSet k v # tr') k = Inr v)"

definition codec_faithful :: "env \<Rightarrow> WorkloadRecording \<Rightarrow> bool" where
  "codec_faithful env r \<longleftrightarrow> (\<exists>s. e_Marshal env r = Inr s \<and> s \<noteq> [] \<and> e_Unmarshal env s = Inr r)"

text \<open>
  A recording that was stored without an error is what is read back under the same key, through any
  calls in between that neither overwrite nor delete it, and whatever the letter case of the key.
\<close>

theorem recording_roundtrip:
  assumes "keeps_entries env" and "codec_faithful env r"
    and "run_state (StoreRecording env suffix r) w = (None, w1)"
    and "w_trace w2 = w_trace w1 @ evs"
    and "\<forall>v. EvSet (to_lower (recording_key suffix (wr_Type r))) v \<notin> set evs"
    and "EvDel (to_lower (recording_key suffix (wr_Type r))) \<notin> set evs"
    and "to_lower k = to_lower (suffix @ '':'' @ wr_Type r)"
  shows "fst (run_state (GetRecording env k) w2) = Inr (Some r)"
proof -
  let ?k = "to_lower (recording_key suffix (wr_Type r))"
  obtain s where s: "e_Marshal env r = Inr s" "s \<noteq> []" "e_Unmarshal env s = Inr r"
    using assms(2) by (auto simp: codec_faithful_def)
  have set: "e_Set env (w_trace w) ?k s = None" and w1: "w_trace w1 = w_trace w @ [EvSet ?k s]"
    using assms(3) by (auto simp: StoreRecording_def storeEntry_def s run_simps)
  have key: "to_lower (''recording:'' @ k) = ?k" using assms(7) by (simp only: recording_key_def to_lower_append)
  have "e_Get env (w_trace w2) ?k = Inr s"
    using assms(1,4,5,6) set w1 unfolding keeps_entries_def by simp
  then show ?thesis unfolding GetRecording_def getEntry_def key by (simp add: run_simps s)
qed

lemma stored_after_append: "stored_after k v (tr @ tr') = stored_after k (stored_after k v tr) tr'"
  by (induction k v tr rule: stored_after.induct) simp_all

lemma stored_after_other: "(\<forall>v'. EvSet k v' \<notin> set tr) \<Longrightarrow> stored_after k v tr = v"
  by (induction k v tr rule: stored_after.induct) auto

lemma ref_env_keeps_entries: "keeps_entries (ref_env x nss pods)"
  by (auto simp: keeps_entries_def ref_env_def stored_after_append stored_after_other)

theorem recording_roundtrip_witness:
  "let env = ref_env empty_whc [] []; w1 = snd (run_state (StoreRecording env ''apps:abc'' ref_recording) (start_world empty_whc))
   in fst (run_state (GetRecording env ''APPS:abc:baseline'') w1) = Inr (Some ref_recording)"
proof -
  let ?env = "ref_env empty_whc [] []"
  let ?w1 = "snd (run_state (StoreRecording ?env ''apps:abc'' ref_recording) (start_world empty_whc))"
  have codec: "codec_faithful ?env ref_recording"
    by (simp add: codec_faithful_def ref_env_def ref_recording_def)
  have store: "run_state (StoreRecording ?env ''apps:abc'' ref_recording) (start_world empty_whc) = (None, ?w1)"
    by (simp add: StoreRecording_def storeEntry_def run_simps ref_env_def)
  have key: "to_lower ''APPS:abc:baseline'' = to_lower (''apps:abc'' @ '':'' @ wr_Type ref_recording)"
    unfolding ref_recording_def by code_simp
  show ?thesis
    using recording_roundtrip [OF ref_env_keeps_entries codec store, of ?w1 "[]" "''APPS:abc:baseline''"] key
    by (simp add: Let_def)
qed

end
