(* ===== verification/Regexp.thy ===== *)
theory Regexp
  imports Prelude
begin

text \<open>
  The fragment of Go's package \<open>regexp\<close> that the log oracle uses, on byte strings: classes, greedy
  repetition of a class, alternatives, options, word boundaries, the end of the text and groups. The
  matcher is the backtracking one, which finds the match that Go's leftmost-first semantics prefers:
  the first in the order of alternatives, longest repetition first. It passes on the byte before the
  position (for \<open>\b\<close>), the rest of the text and the groups so far.
\<close>

datatype regex =
    Cls "char \<Rightarrow> bool"
  | Many "char \<Rightarrow> bool"
  | Seq regex regex
  | Alt regex regex
  | Eps
  | WordB
  | EndText
  | Group nat regex

type_synonym groups = "(nat \<times> string) list"
type_synonym 'r cont = "char option \<Rightarrow> string \<Rightarrow> groups \<Rightarrow> 'r option"

definition or_else :: "'r option \<Rightarrow> 'r option \<Rightarrow> 'r option" where
  "or_else a b = (case a of None \<Rightarrow> b | Some x \<Rightarrow> Some x)"

lemma or_else_simps [simp]: "or_else None b = b" "or_else (Some x) b = Some x"
  by (simp_all add: or_else_def)

definition is_word :: "char \<Rightarrow> bool" where
  "is_word c \<longleftrightarrow> (let n = (of_char c :: nat) in
     (48 \<le> n \<and> n \<le> 57) \<or> (65 \<le> n \<and> n \<le> 90) \<or> n = 95 \<or> (97 \<le> n \<and> n \<le> 122))"

definition word_boundary :: "char option \<Rightarrow> string \<Rightarrow> bool" where
  "word_boundary prev s \<longleftrightarrow>
     (case prev of None \<Rightarrow> False | Some c \<Rightarrow> is_word c) \<noteq> (case s of [] \<Rightarrow> False | c # _ \<Rightarrow> is_word c)"

text \<open>Any number of bytes of a class, as many as possible first.\<close>

fun many :: "(char \<Rightarrow> bool) \<Rightarrow> char option \<Rightarrow> string \<Rightarrow> groups \<Rightarrow> 'r cont \<Rightarrow> 'r option" where
  "many C prev [] gs k = k prev [] gs"
| "many C prev (c # s) gs k =
     (if C c then or_else (many C (Some c) s gs k) (k prev (c # s) gs) else k prev (c # s) gs)"

fun run :: "regex \<Rightarrow> char option \<Rightarrow> string \<Rightarrow> groups \<Rightarrow> 'r cont \<Rightarrow> 'r option" where
  "run (Cls C) prev s gs k = (case s of [] \<Rightarrow> None | c # s' \<Rightarrow> if C c then k (Some c) s' gs else None)"
| "run (Many C) prev s gs k =
     (case s of [] \<Rightarrow> None | c # s' \<Rightarrow> if C c then many C (Some c) s' gs k else None)"
| "run (Seq a b) prev s gs k = run a prev s gs (\<lambda>prev' s' gs'. run b prev' s' gs' k)"
| "run (Alt a b) prev s gs k = or_else (run a prev s gs k) (run b prev s gs k)"
| "run Eps prev s gs k = k prev s gs"
| "run WordB prev s gs k = (if word_boundary prev s then k prev s gs else None)"
| "run EndText prev s gs k = (if s = [] then k prev s gs else None)"
| "run (Group n r) prev s gs k =
     run r prev s gs (\<lambda>prev' s' gs'. k prev' s' ((n, take (length s - length s') s) # gs'))"

definition Opt :: "regex \<Rightarrow> regex" where
  "Opt r = Alt r Eps"

fun seq_all :: "regex list \<Rightarrow> regex" where
  "seq_all [] = Eps"
| "seq_all [r] = r"
| "seq_all (r # rs) = Seq r (seq_all rs)"

fun alt_all :: "regex list \<Rightarrow> regex" where
  "alt_all [] = Cls (\<lambda>_. False)"
| "alt_all [r] = r"
| "alt_all (r # rs) = Alt r (alt_all rs)"

definition lit :: "string \<Rightarrow> regex" where
  "lit s = seq_all (map (\<lambda>c. Cls (\<lambda>d. d = c)) s)"

definition digit :: "char \<Rightarrow> bool" where
  "digit c \<longleftrightarrow> (let n = (of_char c :: nat) in 48 \<le> n \<and> n \<le> 57)"

text \<open>The class \<open>\s\<close>.\<close>

definition blank :: "char \<Rightarrow> bool" where
  "blank c \<longleftrightarrow> (of_char c :: nat) \<in> {9, 10, 12, 13, 32}"

definition digits :: "nat \<Rightarrow> regex" where
  "digits n = seq_all (replicate n (Cls digit))"

section \<open>Matching and replacing\<close>

text \<open>A match at a position: the bytes it takes (none of the patterns matches the empty string).\<close>

definition match_here :: "regex \<Rightarrow> char option \<Rightarrow> string \<Rightarrow> nat option" where
  "match_here r prev s = run r prev s [] (\<lambda>_ s' _. Some (length s - length s'))"

text \<open>\<open>ReplaceAllString\<close> by a text without \<open>$\<close>, for a pattern that takes at least one byte.\<close>

function replace_all :: "regex \<Rightarrow> string \<Rightarrow> char option \<Rightarrow> string \<Rightarrow> string" where
  "replace_all r by_text prev [] = []"
| "replace_all r by_text prev (c # s) =
     (case match_here r prev (c # s) of
        Some (Suc n) \<Rightarrow> by_text @ replace_all r by_text (Some ((c # s) ! n)) (drop n s)
      | _ \<Rightarrow> c # replace_all r by_text (Some c) s)"
  by pat_completeness auto
termination by (relation "measure (\<lambda>(r, t, p, s). length s)") auto

definition ReplaceAllString :: "regex \<Rightarrow> string \<Rightarrow> string \<Rightarrow> string" where
  "ReplaceAllString r line by_text = replace_all r by_text None line"

text \<open>\<open>FindStringSubmatch\<close>: the groups of the leftmost match.\<close>

fun find_submatch :: "regex \<Rightarrow> char option \<Rightarrow> string \<Rightarrow> groups option" where
  "find_submatch r prev [] = run r prev [] [] (\<lambda>_ _ gs. Some gs)"
| "find_submatch r prev (c # s) =
     or_else (run r prev (c # s) [] (\<lambda>_ _ gs. Some gs)) (find_submatch r (Some c) s)"

section \<open>Patterns that need a digit\<close>

text \<open>\<open>needs_digit\<close>: a pattern that no match of avoids a digit, a sufficient test.\<close>

fun needs_digit :: "regex \<Rightarrow> bool" where
  "needs_digit (Cls C) = (\<forall>c. C c \<longrightarrow> digit c)"
| "needs_digit (Many C) = (\<forall>c. C c \<longrightarrow> digit c)"
| "needs_digit (Seq a b) = (needs_digit a \<or> needs_digit b)"
| "needs_digit (Alt a b) = (needs_digit a \<and> needs_digit b)"
| "needs_digit (Group n r) = needs_digit r"
| "needs_digit _ = False"

lemma many_suffix:
  assumes "\<And>prev' s' gs'. \<exists>u. s = u @ s' \<Longrightarrow> k prev' s' gs' = None"
  shows "many C prev s gs k = None"
  using assms
proof (induction s arbitrary: prev)
  case Nil
  then show ?case by simp
next
  case (Cons c s)
  have "many C (Some c) s gs k = None"
    by (rule Cons.IH) (metis Cons.prems append_Cons)
  moreover have "k prev (c # s) gs = None" using Cons.prems by blast
  ultimately show ?case by simp
qed

lemma run_suffix:
  assumes "\<And>prev' s' gs'. \<exists>u. s = u @ s' \<Longrightarrow> k prev' s' gs' = None"
  shows "run r prev s gs k = None"
  using assms
proof (induction r arbitrary: prev s gs k)
  case (Cls C)
  have "k (Some c) s' gs = None" if "s = c # s'" for c s'
    by (rule Cls) (simp add: that)
  then show ?case by (cases s) simp_all
next
  case (Many C)
  have "many C (Some c) s' gs k = None" if "s = c # s'" for c s'
    by (rule many_suffix) (use Many that in force)
  then show ?case by (cases s) simp_all
next
  case (Seq a b)
  have "run b prev' s' gs' k = None" if "\<exists>u. s = u @ s'" for prev' s' gs'
    by (rule Seq.IH(2)) (use Seq.prems that in force)
  then show ?case by (simp add: Seq.IH(1))
next
  case (Group n r)
  then show ?case by simp
qed (use assms in \<open>auto simp: or_else_def\<close>)

lemma run_needs_digit:
  assumes "needs_digit r" "\<forall>c \<in> set s. \<not> digit c"
  shows "run r prev s gs k = None"
  using assms
proof (induction r arbitrary: prev s gs k)
  case (Cls C)
  then show ?case by (cases s) auto
next
  case (Many C)
  then show ?case by (cases s) auto
next
  case (Seq a b)
  show ?case
  proof (cases "needs_digit a")
    case True
    then show ?thesis using Seq by simp
  next
    case False
    then have "run b prev' s' gs' k = None" if "\<exists>u. s = u @ s'" for prev' s' gs'
      using Seq that by auto
    then show ?thesis by (simp add: run_suffix)
  qed
qed auto

lemma replace_all_no_digit:
  assumes "needs_digit r" "\<forall>c \<in> set s. \<not> digit c"
  shows "replace_all r t prev s = s"
  using assms(2)
proof (induction s arbitrary: prev)
  case Nil
  then show ?case by simp
next
  case (Cons c s)
  have "match_here r prev (c # s) = None"
    unfolding match_here_def by (rule run_needs_digit [OF assms(1) Cons.prems])
  then show ?case using Cons by simp
qed

end
