(* ===== verification/Oracle.thy ===== *)
theory Oracle
  imports Valkey Regexp
begin

text \<open>
  \<open>pkg/orakel\<close>: timestamps in log lines are replaced by a token, a log oracle trains the template miner
  Drain with the lines of the baselines and reports the lines of a check run that match no template, and
  the log analyzer does so per container. Drain (\<open>github.com/faceair/drain\<close>) is the parameter \<open>drain_api\<close>;
  the orders in which Go ranges over maps are arguments.
\<close>

section \<open>Normalisation of timestamps\<close>

definition one_of :: "string \<Rightarrow> regex" where
  "one_of s = Cls (\<lambda>c. c \<in> set s)"

definition clock :: regex where
  "clock = seq_all [digits 2, lit '':'', digits 2, lit '':'', digits 2]"

definition date :: regex where
  "date = seq_all [digits 4, lit ''-'', digits 2, lit ''-'', digits 2]"

definition fraction :: regex where
  "fraction = Opt (Seq (lit ''.'') (Many digit))"

definition offset :: regex where
  "offset = seq_all [one_of ''+-'', digits 2, lit '':'', digits 2]"

definition months :: "string list" where
  "months = [''Jan'', ''Feb'', ''Mar'', ''Apr'', ''May'', ''Jun'', ''Jul'', ''Aug'', ''Sep'', ''Oct'', ''Nov'', ''Dec'']"

definition timestampPatterns :: "regex list" where
  "timestampPatterns = [
     seq_all [date, lit ''T'', clock, fraction, Alt (lit ''Z'') offset],
     seq_all [date, Many blank, clock, fraction, Opt offset],
     seq_all [alt_all (map lit months), Many blank, Seq (Cls digit) (Opt (Cls digit)), Many blank, clock],
     seq_all [WordB, digits 10, lit ''.'', Many digit, WordB],
     seq_all [WordB, digits 10, WordB],
     seq_all [WordB, clock, one_of ''.,'', Many digit, WordB],
     seq_all [WordB, clock, WordB]]"

definition timeToken :: string where
  "timeToken = ''<TIME>''"

definition NormalizeTimestamps :: "string \<Rightarrow> string" where
  "NormalizeTimestamps line = foldl (\<lambda>l pattern. ReplaceAllString pattern l timeToken) line timestampPatterns"

section \<open>The log oracle\<close>

record 'd drain_api =
  d_New :: 'd
  d_Train :: "'d \<Rightarrow> string \<Rightarrow> 'd"
  d_Match :: "'d \<Rightarrow> string \<Rightarrow> bool"
  d_Clusters :: "'d \<Rightarrow> string list"

record 'd LogOrakel =
  lo_Drain :: 'd
  lo_BaselineLogsCount :: nat
  lo_TargetLogCount :: nat
  lo_Anomalies :: "string list"
  lo_normalizeTimestamps :: bool

definition NewLogOrakelWithNormalization :: "'d drain_api \<Rightarrow> bool \<Rightarrow> 'd LogOrakel" where
  "NewLogOrakelWithNormalization da norm_ts = \<lparr>lo_Drain = d_New da, lo_BaselineLogsCount = 0,
     lo_TargetLogCount = 0, lo_Anomalies = [], lo_normalizeTimestamps = norm_ts\<rparr>"

definition NewLogOrakel :: "'d drain_api \<Rightarrow> 'd LogOrakel" where
  "NewLogOrakel da = \<lparr>lo_Drain = d_New da, lo_BaselineLogsCount = 0,
     lo_TargetLogCount = 0, lo_Anomalies = [], lo_normalizeTimestamps = False\<rparr>"

text \<open>What the oracle makes of a line: nothing of a blank one, else it is trimmed and normalised.\<close>

definition prepared :: "bool \<Rightarrow> string \<Rightarrow> string" where
  "prepared norm_ts line = (if norm_ts then NormalizeTimestamps (trim_space line) else trim_space line)"

fun LoadBaseline_lines :: "'d drain_api \<Rightarrow> string list \<Rightarrow> 'd LogOrakel \<Rightarrow> 'd LogOrakel" where
  "LoadBaseline_lines da [] lo = lo"
| "LoadBaseline_lines da (line # input) lo =
     (if trim_space line = [] then LoadBaseline_lines da input lo
      else LoadBaseline_lines da input (lo\<lparr>lo_BaselineLogsCount := lo_BaselineLogsCount lo + 1,
        lo_Drain := d_Train da (lo_Drain lo) (prepared (lo_normalizeTimestamps lo) line)\<rparr>))"

definition LogOrakel_LoadBaseline :: "'d drain_api \<Rightarrow> string list \<Rightarrow> 'd LogOrakel \<Rightarrow> (nat \<times> nat) \<times> 'd LogOrakel" where
  "LogOrakel_LoadBaseline da input lo =
     (let lo' = LoadBaseline_lines da input lo
      in ((lo_BaselineLogsCount lo', length (d_Clusters da (lo_Drain lo'))), lo'))"

fun AnalyzeTarget_lines :: "'d drain_api \<Rightarrow> string list \<Rightarrow> 'd LogOrakel \<Rightarrow> 'd LogOrakel" where
  "AnalyzeTarget_lines da [] lo = lo"
| "AnalyzeTarget_lines da (line # input) lo =
     (if trim_space line = [] then AnalyzeTarget_lines da input lo
      else let lo' = lo\<lparr>lo_TargetLogCount := lo_TargetLogCount lo + 1\<rparr>;
               l = prepared (lo_normalizeTimestamps lo) line
           in (if \<not> d_Match da (lo_Drain lo) l
               then AnalyzeTarget_lines da input (lo'\<lparr>lo_Anomalies := lo_Anomalies lo @ [l]\<rparr>)
               else AnalyzeTarget_lines da input lo'))"

definition LogOrakel_AnalyzeTarget :: "'d drain_api \<Rightarrow> string list \<Rightarrow> 'd LogOrakel \<Rightarrow> (string list \<times> nat) \<times> 'd LogOrakel" where
  "LogOrakel_AnalyzeTarget da input lo =
     (let lo' = AnalyzeTarget_lines da input (lo\<lparr>lo_TargetLogCount := 0, lo_Anomalies := []\<rparr>)
      in ((lo_Anomalies lo', lo_TargetLogCount lo'), lo'))"

section \<open>Templates\<close>

definition drainTemplateRegex :: regex where
  "drainTemplateRegex = seq_all [lit ''id={'', Many digit, lit ''}'', Many blank, lit '':'', Many blank,
     lit ''size={'', Group 1 (Many digit), lit ''}'', Many blank, lit '':'', Many blank,
     Group 2 (Alt (Many (\<lambda>c. c \<noteq> CHR 0x0A)) Eps), EndText]"

text \<open>\<open>strconv.Atoi\<close> on digits, with the value it returns beside a range error.\<close>

definition digits_to_nat :: "string \<Rightarrow> nat" where
  "digits_to_nat s = min (2 ^ 63 - 1) (foldl (\<lambda>x c. x * 10 + (of_char c - 48)) 0 s)"

text \<open>The map from templates to sizes; indexing the result of a failed match panics.\<close>

fun collect_templates :: "string list \<Rightarrow> (string, nat) gomap \<Rightarrow> (string, nat) gomap outcome" where
  "collect_templates [] templates = Ret templates"
| "collect_templates (cluster # rest) templates =
     (case find_submatch drainTemplateRegex None (trim_space cluster) of
        None \<Rightarrow> Panic ''index out of range''
      | Some gs \<Rightarrow>
          (case (map_of gs 2, map_of gs 1) of
             (Some template, Some sz) \<Rightarrow>
               collect_templates rest (AList.update template (digits_to_nat sz) templates)
           | _ \<Rightarrow> Panic ''index out of range''))"

definition size_of :: "(string, nat) gomap \<Rightarrow> string \<Rightarrow> nat" where
  "size_of templates t = (case map_of templates t of None \<Rightarrow> 0 | Some n \<Rightarrow> n)"

text \<open>
  \<open>sort.Slice\<close> on the keys in the order \<open>ord\<close> of the range over the map: largest first, ties in any order,
  which the choice of \<open>ord\<close> covers.
\<close>

definition GetTemplates :: "'d drain_api \<Rightarrow> (string list \<Rightarrow> string list) \<Rightarrow> 'd LogOrakel \<Rightarrow> string list outcome" where
  "GetTemplates da ord lo = bind_outcome (collect_templates (d_Clusters da (lo_Drain lo)) []) (\<lambda>templates.
     Ret (sort_key (\<lambda>t. - int (size_of templates t)) (ord (gm_keys templates))))"

section \<open>The log analyzer\<close>

record 'd LogAnalyzer =
  la_orakels :: "(string, 'd LogOrakel) gomap"
  la_maxAnomaliesPerContainer :: nat
  la_normalizeTimestamps :: bool

record AnalysisResult =
  ar_Success :: bool
  ar_FailureReason :: string
  ar_Anomalies :: "(string, string list) gomap"

definition NewLogAnalyzer :: "'d LogAnalyzer" where
  "NewLogAnalyzer = \<lparr>la_orakels = [], la_maxAnomaliesPerContainer = 10, la_normalizeTimestamps = False\<rparr>"

definition NewLogAnalyzerWithNormalization :: "bool \<Rightarrow> 'd LogAnalyzer" where
  "NewLogAnalyzerWithNormalization norm_ts =
     \<lparr>la_orakels = [], la_maxAnomaliesPerContainer = 10, la_normalizeTimestamps = norm_ts\<rparr>"

definition logs_of :: "WorkloadRecording \<Rightarrow> string \<Rightarrow> string list" where
  "logs_of rec c = (case map_of (wr_Logs rec) c of None \<Rightarrow> [] | Some l \<Rightarrow> l)"

definition load_container :: "'d drain_api \<Rightarrow> WorkloadRecording \<Rightarrow> string \<Rightarrow> 'd LogAnalyzer \<Rightarrow> 'd LogAnalyzer" where
  "load_container da rec c la =
     (let o' = (case map_of (la_orakels la) c of
          None \<Rightarrow> NewLogOrakelWithNormalization da (la_normalizeTimestamps la) | Some x \<Rightarrow> x)
      in la\<lparr>la_orakels := AList.update c (snd (LogOrakel_LoadBaseline da (logs_of rec c) o')) (la_orakels la)\<rparr>)"

definition LoadBaseline :: "'d drain_api \<Rightarrow> (string list \<Rightarrow> string list) \<Rightarrow> WorkloadRecording option \<Rightarrow>
    'd LogAnalyzer \<Rightarrow> error option \<times> 'd LogAnalyzer" where
  "LoadBaseline da ord rec la = (case rec of
     None \<Rightarrow> (Some (Errorf ''nil recording provided''), la)
   | Some rec \<Rightarrow> (None, fold (load_container da rec) (ord (gm_keys (wr_Logs rec))) la))"

definition add_reason :: "string \<Rightarrow> string \<Rightarrow> string" where
  "add_reason old c = (if old = [] then ''Anomalies found in logs of container '' @ c
     else old @ '', Anomalies found in logs of container '' @ c)"

text \<open>The entries reported for a container with anomalies; long lists are summarised.\<close>

definition reported :: "'d drain_api \<Rightarrow> (string list \<Rightarrow> string list) \<Rightarrow> 'd LogAnalyzer \<Rightarrow> string list \<Rightarrow> string list \<Rightarrow>
    string list outcome" where
  "reported da ord la logs anomalies =
     (if length anomalies \<le> la_maxAnomaliesPerContainer la then Ret anomalies
      else let miner = snd (LogOrakel_LoadBaseline da logs (NewLogOrakelWithNormalization da (la_normalizeTimestamps la)))
           in bind_outcome (GetTemplates da ord miner) (\<lambda>templates.
                Ret (if length templates > 5 then take 5 templates else templates)))"

fun analyze_containers :: "'d drain_api \<Rightarrow> (string list \<Rightarrow> string list) \<Rightarrow> WorkloadRecording \<Rightarrow> string list \<Rightarrow>
    AnalysisResult \<Rightarrow> 'd LogAnalyzer \<Rightarrow> AnalysisResult outcome \<times> 'd LogAnalyzer" where
  "analyze_containers da ord rec [] result la = (Ret result, la)"
| "analyze_containers da ord rec (c # cs) result la =
     (case map_of (la_orakels la) c of
        None \<Rightarrow> analyze_containers da ord rec cs result la
      | Some lo \<Rightarrow>
          (let res = LogOrakel_AnalyzeTarget da (logs_of rec c) lo;
               anomalies = fst (fst res);
               la' = la\<lparr>la_orakels := AList.update c (snd res) (la_orakels la)\<rparr>
           in if anomalies = [] then analyze_containers da ord rec cs result la'
              else (case reported da ord la (logs_of rec c) anomalies of
                  Ret entries \<Rightarrow> analyze_containers da ord rec cs
                    (result\<lparr>ar_Success := False, ar_FailureReason := add_reason (ar_FailureReason result) c,
                       ar_Anomalies := AList.update c entries (ar_Anomalies result)\<rparr>) la'
                | Panic p \<Rightarrow> (Panic p, la')
                | NoReturn \<Rightarrow> (NoReturn, la'))))"

definition AnalyzeTarget :: "'d drain_api \<Rightarrow> (string list \<Rightarrow> string list) \<Rightarrow> WorkloadRecording option \<Rightarrow>
    'd LogAnalyzer \<Rightarrow> AnalysisResult outcome \<times> 'd LogAnalyzer" where
  "AnalyzeTarget da ord rec la = (case rec of
     None \<Rightarrow> (Ret \<lparr>ar_Success = False, ar_FailureReason = ''nil recording'', ar_Anomalies = []\<rparr>, la)
   | Some rec \<Rightarrow> analyze_containers da ord rec (ord (gm_keys (wr_Logs rec)))
       \<lparr>ar_Success = True, ar_FailureReason = [], ar_Anomalies = []\<rparr> la)"

section \<open>What the log oracle computes\<close>

definition prepared_lines :: "bool \<Rightarrow> string list \<Rightarrow> string list" where
  "prepared_lines norm_ts input = map (prepared norm_ts) (filter (\<lambda>l. trim_space l \<noteq> []) input)"

lemma prepared_lines_simps [simp]:
  "prepared_lines nt [] = []"
  "prepared_lines nt (l # ls) = (if trim_space l = [] then prepared_lines nt ls else prepared nt l # prepared_lines nt ls)"
  by (simp_all add: prepared_lines_def)

lemma prepared_lines_append: "prepared_lines nt (xs @ ys) = prepared_lines nt xs @ prepared_lines nt ys"
  by (simp add: prepared_lines_def)

lemma LoadBaseline_lines_eq:
  "LoadBaseline_lines da input lo =
    lo\<lparr>lo_BaselineLogsCount := lo_BaselineLogsCount lo + length (prepared_lines (lo_normalizeTimestamps lo) input),
      lo_Drain := foldl (d_Train da) (lo_Drain lo) (prepared_lines (lo_normalizeTimestamps lo) input)\<rparr>"
  by (induction da input lo rule: LoadBaseline_lines.induct) simp_all

lemma AnalyzeTarget_lines_eq:
  "AnalyzeTarget_lines da input lo =
    lo\<lparr>lo_TargetLogCount := lo_TargetLogCount lo + length (prepared_lines (lo_normalizeTimestamps lo) input),
      lo_Anomalies := lo_Anomalies lo @
        filter (\<lambda>l. \<not> d_Match da (lo_Drain lo) l) (prepared_lines (lo_normalizeTimestamps lo) input)\<rparr>"
  by (induction da input lo rule: AnalyzeTarget_lines.induct) (simp_all add: Let_def)

definition unmatched :: "'d drain_api \<Rightarrow> 'd LogOrakel \<Rightarrow> string list \<Rightarrow> string list" where
  "unmatched da lo input = filter (\<lambda>l. \<not> d_Match da (lo_Drain lo) l) (prepared_lines (lo_normalizeTimestamps lo) input)"

text \<open>
  The log oracle reports exactly the non-blank lines of the target, trimmed and normalised, that
  match none of the templates learnt from the baselines, in order, and counts the non-blank lines.
  An analysis neither learns nor forgets: the next one does not depend on it.
\<close>

theorem log_oracle_anomalies:
  "fst (LogOrakel_AnalyzeTarget da input lo) =
      (unmatched da lo input, length (prepared_lines (lo_normalizeTimestamps lo) input))
    \<and> fst (LogOrakel_AnalyzeTarget da input' (snd (LogOrakel_AnalyzeTarget da input lo))) =
      fst (LogOrakel_AnalyzeTarget da input' lo)
    \<and> snd (LogOrakel_LoadBaseline da (input @ input') lo) =
      snd (LogOrakel_LoadBaseline da input' (snd (LogOrakel_LoadBaseline da input lo)))"
  by (simp add: LogOrakel_AnalyzeTarget_def LogOrakel_LoadBaseline_def Let_def AnalyzeTarget_lines_eq
      LoadBaseline_lines_eq unmatched_def prepared_lines_append)

lemma snd_LogOrakel_AnalyzeTarget_frame:
  "lo_Drain (snd (LogOrakel_AnalyzeTarget da input lo)) = lo_Drain lo"
  "lo_normalizeTimestamps (snd (LogOrakel_AnalyzeTarget da input lo)) = lo_normalizeTimestamps lo"
  by (simp_all add: LogOrakel_AnalyzeTarget_def Let_def AnalyzeTarget_lines_eq)

lemma fst_LogOrakel_AnalyzeTarget:
  "fst (LogOrakel_AnalyzeTarget da input lo) =
     (unmatched da lo input, length (prepared_lines (lo_normalizeTimestamps lo) input))"
  by (simp add: LogOrakel_AnalyzeTarget_def Let_def AnalyzeTarget_lines_eq unmatched_def)

section \<open>What the analyzer computes\<close>

text \<open>Drain prints a cluster as documented, so that the pattern finds its size and template.\<close>

definition drain_prints :: "'d drain_api \<Rightarrow> bool" where
  "drain_prints da \<longleftrightarrow> (\<forall>d. \<forall>cl \<in> set (d_Clusters da d). \<exists>gs t n.
     find_submatch drainTemplateRegex None (trim_space cl) = Some gs \<and> map_of gs 2 = Some t \<and> map_of gs 1 = Some n)"

lemma collect_templates_returns:
  assumes "\<forall>cl \<in> set cls. \<exists>gs t n. find_submatch drainTemplateRegex None (trim_space cl) = Some gs
    \<and> map_of gs 2 = Some t \<and> map_of gs 1 = Some n"
  shows "\<exists>ts. collect_templates cls templates = Ret ts"
  using assms
proof (induction cls arbitrary: templates)
  case Nil
  then show ?case by simp
next
  case (Cons cl cls)
  then obtain gs t n where gs: "find_submatch drainTemplateRegex None (trim_space cl) = Some gs"
      "map_of gs 2 = Some t" "map_of gs 1 = Some n" by (meson list.set_intros(1))
  have "\<exists>ts. collect_templates cls (AList.update t (digits_to_nat n) templates) = Ret ts"
    using Cons by simp
  then show ?case by (simp only: collect_templates.simps gs option.case prod.case)
qed

lemma reported_returns:
  assumes "drain_prints da" "la_maxAnomaliesPerContainer la = 10"
  shows "\<exists>entries. reported da ord la logs anomalies = Ret entries \<and> length entries \<le> 10"
proof (cases "length anomalies \<le> 10")
  case True
  then show ?thesis by (simp add: reported_def assms(2))
next
  case False
  let ?m = "snd (LogOrakel_LoadBaseline da logs (NewLogOrakelWithNormalization da (la_normalizeTimestamps la)))"
  have "\<exists>ts. collect_templates (d_Clusters da (lo_Drain ?m)) [] = Ret ts"
    by (rule collect_templates_returns) (use assms(1) in \<open>auto simp: drain_prints_def\<close>)
  then show ?thesis using False by (auto simp: reported_def assms(2) GetTemplates_def Let_def)
qed

definition trained :: "'d LogAnalyzer \<Rightarrow> string \<Rightarrow> 'd LogOrakel option" where
  "trained la c = map_of (la_orakels la) c"

text \<open>The anomalies of a container, none if no baseline had the container.\<close>

definition anomalies_of :: "'d drain_api \<Rightarrow> 'd LogAnalyzer \<Rightarrow> WorkloadRecording \<Rightarrow> string \<Rightarrow> string list" where
  "anomalies_of da la rec c = (case trained la c of None \<Rightarrow> [] | Some lo \<Rightarrow> unmatched da lo (logs_of rec c))"

lemma unmatched_cong:
  "lo_Drain lo = lo_Drain lo' \<Longrightarrow> lo_normalizeTimestamps lo = lo_normalizeTimestamps lo' \<Longrightarrow>
   unmatched da lo input = unmatched da lo' input"
  by (simp add: unmatched_def)

lemma anomalies_of_update:
  assumes "trained la c = Some lo"
  shows "anomalies_of da (la\<lparr>la_orakels := AList.update c (snd (LogOrakel_AnalyzeTarget da input lo)) (la_orakels la)\<rparr>) rec c'
    = anomalies_of da la rec c'"
  using assms unmatched_cong [OF snd_LogOrakel_AnalyzeTarget_frame]
  by (auto simp: anomalies_of_def trained_def update_conv')

lemma analyze_containers_spec:
  assumes "drain_prints da" "la_maxAnomaliesPerContainer la = 10" "distinct cs"
    "(ar_FailureReason result = []) = ar_Success result"
    "\<forall>es \<in> ran (map_of (ar_Anomalies result)). length es \<le> 10"
    "set cs \<inter> dom (map_of (ar_Anomalies result)) = {}"
  shows "\<exists>r. fst (analyze_containers da ord rec cs result la) = Ret r
    \<and> (ar_Success r \<longleftrightarrow> ar_Success result \<and> (\<forall>c \<in> set cs. anomalies_of da la rec c = []))
    \<and> (ar_FailureReason r = [] \<longleftrightarrow> ar_Success r)
    \<and> dom (map_of (ar_Anomalies r)) = dom (map_of (ar_Anomalies result)) \<union> {c \<in> set cs. anomalies_of da la rec c \<noteq> []}
    \<and> (\<forall>es \<in> ran (map_of (ar_Anomalies r)). length es \<le> 10)"
  using assms(2-)
proof (induction cs arbitrary: result la)
  case Nil
  then show ?case by auto
next
  case (Cons c cs)
  show ?case
  proof (cases "map_of (la_orakels la) c")
    case None
    then have "anomalies_of da la rec c = []" by (simp add: anomalies_of_def trained_def)
    then show ?thesis using Cons.IH [OF Cons.prems(1) _ Cons.prems(3,4)] Cons.prems(2,5) None by auto
  next
    case (Some lo)
    let ?an = "unmatched da lo (logs_of rec c)"
    let ?la' = "la\<lparr>la_orakels := AList.update c (snd (LogOrakel_AnalyzeTarget da (logs_of rec c) lo)) (la_orakels la)\<rparr>"
    have an: "fst (fst (LogOrakel_AnalyzeTarget da (logs_of rec c) lo)) = ?an"
      by (simp add: fst_LogOrakel_AnalyzeTarget)
    have a: "anomalies_of da la rec c = ?an" using Some by (simp add: anomalies_of_def trained_def)
    have same: "anomalies_of da ?la' rec c' = anomalies_of da la rec c'" for c'
      by (rule anomalies_of_update) (simp add: trained_def Some)
    have max: "la_maxAnomaliesPerContainer ?la' = 10" using Cons.prems(1) by simp
    show ?thesis
    proof (cases "?an = []")
      case True
      have step: "analyze_containers da ord rec (c # cs) result la = analyze_containers da ord rec cs result ?la'"
        by (simp add: Some Let_def an True)
      show ?thesis unfolding step
        using Cons.IH [OF max _ Cons.prems(3,4)] Cons.prems(2,5) a True by (auto simp: same)
    next
      case False
      obtain es where es: "reported da ord la (logs_of rec c) ?an = Ret es" "length es \<le> 10"
        using reported_returns [OF assms(1) Cons.prems(1)] by blast
      let ?r = "result\<lparr>ar_Success := False, ar_FailureReason := add_reason (ar_FailureReason result) c,
          ar_Anomalies := AList.update c es (ar_Anomalies result)\<rparr>"
      have step: "analyze_containers da ord rec (c # cs) result la = analyze_containers da ord rec cs ?r ?la'"
        by (simp add: Some Let_def an False es(1))
      have reason: "(ar_FailureReason ?r = []) = ar_Success ?r" by (simp add: add_reason_def)
      have notin: "c \<notin> dom (map_of (ar_Anomalies result))" using Cons.prems(5) by auto
      have "ran (map_of (ar_Anomalies ?r)) = insert es (ran (map_of (ar_Anomalies result)))"
        using notin by (simp add: update_conv' domIff)
      then have bound: "\<forall>x \<in> ran (map_of (ar_Anomalies ?r)). length x \<le> 10" using Cons.prems(4) es(2) by simp
      have dom: "dom (map_of (ar_Anomalies ?r)) = insert c (dom (map_of (ar_Anomalies result)))"
        by (simp add: update_conv')
      have disj: "set cs \<inter> dom (map_of (ar_Anomalies ?r)) = {}" using Cons.prems(2,5) dom by auto
      have dist: "distinct cs" using Cons.prems(2) by simp
      show ?thesis unfolding step
        using Cons.IH [OF max dist reason bound disj] a False dom by (auto simp: same)
    qed
  qed
qed

text \<open>
  The verdict of the log analyzer on a recording: it succeeds exactly when no container that some
  baseline had logs an unmatched line, whatever the order of the range over the map; a failure has a
  reason; the containers reported are those with unmatched lines, with at most ten entries each.
\<close>

theorem analyzer_verdict:
  assumes "drain_prints da" and "is_order ord" and "la_maxAnomaliesPerContainer la = 10"
  shows "\<exists>r. fst (AnalyzeTarget da ord (Some rec) la) = Ret r
    \<and> (ar_Success r \<longleftrightarrow> (\<forall>c \<in> dom (map_of (wr_Logs rec)). anomalies_of da la rec c = []))
    \<and> (ar_FailureReason r = [] \<longleftrightarrow> ar_Success r)
    \<and> dom (map_of (ar_Anomalies r)) = {c \<in> dom (map_of (wr_Logs rec)). anomalies_of da la rec c \<noteq> []}
    \<and> (\<forall>es \<in> ran (map_of (ar_Anomalies r)). length es \<le> 10)"
proof -
  have "distinct (ord (gm_keys (wr_Logs rec)))" "set (ord (gm_keys (wr_Logs rec))) = dom (map_of (wr_Logs rec))"
    using is_order_distinct [OF assms(2)] is_order_set [OF assms(2)] by simp_all
  then show ?thesis
    using analyze_containers_spec [OF assms(1,3), of "ord (gm_keys (wr_Logs rec))"
        "\<lparr>ar_Success = True, ar_FailureReason = [], ar_Anomalies = []\<rparr>" ord rec]
    by (simp add: AnalyzeTarget_def)
qed

text \<open>A miner that learns whole lines, for the witnesses.\<close>

definition line_miner :: "string list drain_api" where
  "line_miner = \<lparr>d_New = [], d_Train = (\<lambda>d l. d @ [l]), d_Match = (\<lambda>d l. l \<in> set d), d_Clusters = (\<lambda>d. [])\<rparr>"

lemma line_miner_prints: "drain_prints line_miner"
  by (simp add: drain_prints_def line_miner_def)

definition sample_recording :: "string \<Rightarrow> WorkloadRecording" where
  "sample_recording l = ref_recording\<lparr>wr_Logs := [(''main'', [l])]\<rparr>"

definition sample_analyzer :: "string list LogAnalyzer" where
  "sample_analyzer = snd (LoadBaseline line_miner (\<lambda>ks. ks) (Some (sample_recording ''listening''))
     (NewLogAnalyzerWithNormalization False))"

lemma sample_analyzer_eq: "sample_analyzer = \<lparr>la_orakels = [(''main'', \<lparr>lo_Drain = [''listening''],
    lo_BaselineLogsCount = 1, lo_TargetLogCount = 0, lo_Anomalies = [], lo_normalizeTimestamps = False\<rparr>)],
    la_maxAnomaliesPerContainer = 10, la_normalizeTimestamps = False\<rparr>"
  unfolding sample_analyzer_def sample_recording_def ref_recording_def line_miner_def by code_simp

theorem analyzer_verdict_witness:
  "\<exists>r. fst (AnalyzeTarget line_miner (\<lambda>ks. ks) (Some (sample_recording ''permission denied'')) sample_analyzer) = Ret r
    \<and> \<not> ar_Success r"
proof -
  let ?rec = "sample_recording ''permission denied''"
  have max: "la_maxAnomaliesPerContainer sample_analyzer = 10" by (simp add: sample_analyzer_eq)
  have "anomalies_of line_miner sample_analyzer ?rec ''main'' = [''permission denied'']"
    unfolding sample_analyzer_eq line_miner_def sample_recording_def ref_recording_def by code_simp
  moreover have "''main'' \<in> dom (map_of (wr_Logs ?rec))" by (simp add: sample_recording_def)
  ultimately show ?thesis
    using analyzer_verdict [OF line_miner_prints is_order_id max, of ?rec] by force
qed

section \<open>Training\<close>

definition trained_with :: "'d drain_api \<Rightarrow> WorkloadRecording \<Rightarrow> 'd LogAnalyzer \<Rightarrow> string \<Rightarrow> 'd LogOrakel option" where
  "trained_with da rec la c =
     (if c \<in> dom (map_of (wr_Logs rec))
      then Some (snd (LogOrakel_LoadBaseline da (logs_of rec c) (case trained la c of
          None \<Rightarrow> NewLogOrakelWithNormalization da (la_normalizeTimestamps la) | Some lo \<Rightarrow> lo)))
      else trained la c)"

lemma load_container_frame [simp]:
  "la_normalizeTimestamps (load_container da rec c la) = la_normalizeTimestamps la"
  "la_maxAnomaliesPerContainer (load_container da rec c la) = la_maxAnomaliesPerContainer la"
  by (simp_all add: load_container_def Let_def)

lemma trained_load_container:
  "trained (load_container da rec c la) c' = (if c' = c
     then Some (snd (LogOrakel_LoadBaseline da (logs_of rec c) (case trained la c of
          None \<Rightarrow> NewLogOrakelWithNormalization da (la_normalizeTimestamps la) | Some lo \<Rightarrow> lo)))
     else trained la c')"
  by (simp add: trained_def load_container_def Let_def update_conv')

lemma trained_fold:
  assumes "distinct cs"
  shows "trained (fold (load_container da rec) cs la) c = (if c \<in> set cs
     then Some (snd (LogOrakel_LoadBaseline da (logs_of rec c) (case trained la c of
          None \<Rightarrow> NewLogOrakelWithNormalization da (la_normalizeTimestamps la) | Some lo \<Rightarrow> lo)))
     else trained la c)"
  using assms by (induction cs arbitrary: la) (simp_all add: trained_load_container cong: option.case_cong)

text \<open>
  Loading a baseline trains the oracle of each container of the recording, new or already trained,
  with exactly the lines of that container and leaves the other oracles alone, in whatever order the
  containers are visited; without a recording it fails and changes nothing.
\<close>

theorem baseline_trains_per_container:
  assumes "is_order ord"
  shows "fst (LoadBaseline da ord (Some rec) la) = None
    \<and> trained (snd (LoadBaseline da ord (Some rec) la)) c = trained_with da rec la c
    \<and> fst (LoadBaseline da ord None la) \<noteq> None \<and> snd (LoadBaseline da ord None la) = la"
proof -
  have "distinct (ord (gm_keys (wr_Logs rec)))" "set (ord (gm_keys (wr_Logs rec))) = dom (map_of (wr_Logs rec))"
    using is_order_distinct [OF assms] is_order_set [OF assms] by simp_all
  then show ?thesis by (simp add: LoadBaseline_def trained_fold trained_with_def)
qed

theorem baseline_trains_per_container_witness:
  "trained (snd (LoadBaseline line_miner rev (Some (sample_recording ''ready'')) sample_analyzer)) ''main'' =
    trained_with line_miner (sample_recording ''ready'') sample_analyzer ''main''"
  using baseline_trains_per_container [OF is_order_rev, of line_miner "sample_recording ''ready''" sample_analyzer "''main''"]
  by blast

text \<open>
  When more than ten lines are unmatched, the entries reported are mined from all lines of the
  container: they are the same whichever lines were the anomalies, so templates of ordinary lines are
  reported as anomalies.
\<close>

theorem summary_ignores_anomalies:
  assumes "la_maxAnomaliesPerContainer la < length anomalies"
    and "la_maxAnomaliesPerContainer la < length anomalies'"
  shows "reported da ord la logs anomalies = reported da ord la logs anomalies'"
  using assms by (simp add: reported_def)

theorem summary_ignores_anomalies_witness:
  "reported line_miner (\<lambda>ks. ks) sample_analyzer [''a''] (replicate 11 ''x'') =
    reported line_miner (\<lambda>ks. ks) sample_analyzer [''a''] (replicate 12 ''y'')"
  by (rule summary_ignores_anomalies) (simp_all add: sample_analyzer_eq)

section \<open>ISO 8601 timestamps\<close>

lemma many_all:
  assumes "\<forall>c \<in> set ds. C c" "rest = [] \<or> \<not> C (hd rest)" "\<And>prev. k prev rest gs = Some r"
  shows "many C prev (ds @ rest) gs k = Some r"
  using assms(1)
proof (induction ds arbitrary: prev)
  case Nil
  then show ?case using assms(2,3) by (cases rest) auto
next
  case (Cons d ds)
  then show ?case by simp
qed

lemma replace_all_skip:
  assumes "\<And>prev c s. \<not> digit c \<Longrightarrow> match_here r prev (c # s) = None" "\<forall>c \<in> set pre. \<not> digit c"
  shows "\<exists>prev'. replace_all r t prev (pre @ s) = pre @ replace_all r t prev' s"
  using assms(2)
proof (induction pre arbitrary: prev)
  case Nil
  then show ?case by auto
next
  case (Cons c pre)
  then obtain prev' where "replace_all r t (Some c) (pre @ s) = pre @ replace_all r t prev' s" by auto
  then show ?case using Cons.prems assms(1) [of c] by auto
qed

definition iso_timestamp :: "string \<Rightarrow> string \<Rightarrow> string \<Rightarrow> string" where
  "iso_timestamp d t f = take 4 d @ ''-'' @ take 2 (drop 4 d) @ ''-'' @ drop 6 d @ ''T''
     @ take 2 t @ '':'' @ take 2 (drop 2 t) @ '':'' @ drop 4 t @ (if f = [] then [] else ''.'' @ f) @ ''Z''"

abbreviation iso_pattern :: regex where
  "iso_pattern \<equiv> seq_all [date, lit ''T'', clock, fraction, Alt (lit ''Z'') offset]"

lemma eight_chars: "length d = 8 \<Longrightarrow> \<exists>a b c e f g h i. d = [a, b, c, e, f, g, h, i]"
  by (auto simp: eval_nat_numeral length_Suc_conv)

lemma six_chars: "length d = 6 \<Longrightarrow> \<exists>a b c e f g. d = [a, b, c, e, f, g]"
  by (auto simp: eval_nat_numeral length_Suc_conv)

lemma digits_run_2 [simp]:
  "run (digits 2) prev s gs k = (case s of a # b # s' \<Rightarrow> if digit a \<and> digit b then k (Some b) s' gs else None | _ \<Rightarrow> None)"
  by (auto simp: digits_def eval_nat_numeral split: list.split)

lemma digits_run_4 [simp]:
  "run (digits 4) prev s gs k = (case s of a # b # c # d # s' \<Rightarrow>
     if digit a \<and> digit b \<and> digit c \<and> digit d then k (Some d) s' gs else None | _ \<Rightarrow> None)"
  by (auto simp: digits_def eval_nat_numeral split: list.split)

lemma lit1_run [simp]:
  "run (lit [a]) prev s gs k = (case s of [] \<Rightarrow> None | c # s' \<Rightarrow> if c = a then k (Some c) s' gs else None)"
  by (simp add: lit_def)

lemma not_digit_sep: "\<not> digit (CHR ''Z'')" "\<not> digit (CHR ''.'')"
  by (simp_all add: digit_def)

lemma iso_match:
  assumes "length d = 8" "\<forall>c \<in> set d. digit c" "length t = 6" "\<forall>c \<in> set t. digit c" "\<forall>c \<in> set f. digit c"
  shows "match_here iso_pattern prev (iso_timestamp d t f @ s) = Some (length (iso_timestamp d t f))"
proof -
  obtain a b c e g h i j where d: "d = [a, b, c, e, g, h, i, j]" using eight_chars [OF assms(1)] by blast
  obtain k l m n q r where t: "t = [k, l, m, n, q, r]" using six_chars [OF assms(3)] by blast
  show ?thesis
  proof (cases f)
    case Nil
    then show ?thesis using assms(2,4)
      by (simp add: match_here_def iso_timestamp_def d t date_def clock_def fraction_def Opt_def not_digit_sep)
  next
    case (Cons x f')
    have many: "many digit (Some x) (f' @ CHR ''Z'' # s) [] k = Some v"
      if "\<And>prev. k prev (CHR ''Z'' # s) [] = Some v" for k and v :: nat
      by (rule many_all) (use assms(5) that in \<open>auto simp: Cons not_digit_sep\<close>)
    show ?thesis using assms(2,4,5)
      by (simp add: match_here_def iso_timestamp_def d t date_def clock_def fraction_def Opt_def Cons many)
  qed
qed

lemma iso_first: "\<not> digit c \<Longrightarrow> match_here iso_pattern prev (c # s) = None"
  by (simp add: match_here_def date_def split: list.split)

lemma later_patterns_need_digits: "\<forall>r \<in> set timestampPatterns. needs_digit r"
  by (simp add: timestampPatterns_def date_def clock_def digits_def eval_nat_numeral)

lemma foldl_no_digit:
  "\<forall>r \<in> set rs. needs_digit r \<Longrightarrow> \<forall>c \<in> set l. \<not> digit c \<Longrightarrow>
   foldl (\<lambda>l r. ReplaceAllString r l timeToken) l rs = l"
  by (induction rs) (simp_all add: ReplaceAllString_def replace_all_no_digit)

text \<open>
  A line without digits is not changed by the normalisation, and an ISO 8601 timestamp in UTC, with
  or without a fraction of a second, between texts without digits becomes the token, whatever its
  digits: two such lines that differ only in their timestamps become the same line.
\<close>

theorem normalization_of_iso_timestamps:
  assumes "\<forall>c \<in> set pre. \<not> digit c" and "\<forall>c \<in> set suf. \<not> digit c"
    and "length d = 8" and "\<forall>c \<in> set d. digit c" and "length t = 6" and "\<forall>c \<in> set t. digit c"
    and "\<forall>c \<in> set f. digit c"
  shows "NormalizeTimestamps (pre @ iso_timestamp d t f @ suf) = pre @ timeToken @ suf
    \<and> NormalizeTimestamps pre = pre"
proof -
  let ?ts = "iso_timestamp d t f"
  obtain rs where rs: "timestampPatterns = iso_pattern # rs" by (simp add: timestampPatterns_def)
  have need: "\<forall>r \<in> set rs. needs_digit r" "needs_digit iso_pattern"
    using later_patterns_need_digits unfolding rs list.set ball_simps by blast+
  obtain x xs where ts: "?ts = x # xs" by (cases ?ts) (auto simp: iso_timestamp_def)
  obtain prev where prev: "replace_all iso_pattern timeToken None (pre @ ?ts @ suf) =
      pre @ replace_all iso_pattern timeToken prev (?ts @ suf)"
    using replace_all_skip [OF iso_first assms(1)] by blast
  have "match_here iso_pattern prev (x # xs @ suf) = Some (Suc (length xs))"
    using iso_match [OF assms(3-7), of prev suf] by (simp add: ts)
  then have here: "replace_all iso_pattern timeToken prev (?ts @ suf) = timeToken @ suf"
    using need(2) assms(2) by (simp add: ts replace_all_no_digit)
  have token: "\<forall>c \<in> set timeToken. \<not> digit c" by (simp add: timeToken_def digit_def)
  have "\<forall>c \<in> set (pre @ timeToken @ suf). \<not> digit c" using assms(1,2) token by auto
  then have "foldl (\<lambda>l r. ReplaceAllString r l timeToken) (pre @ timeToken @ suf) rs = pre @ timeToken @ suf"
    using need(1) by (rule foldl_no_digit [rotated])
  then show ?thesis
    using foldl_no_digit [OF later_patterns_need_digits assms(1)]
    unfolding NormalizeTimestamps_def rs by (simp add: ReplaceAllString_def prev here del: seq_all.simps)
qed

theorem normalization_of_iso_timestamps_witness:
  "NormalizeTimestamps (''at '' @ iso_timestamp ''20250707'' ''135939'' ''378'' @ '' ready'') = ''at '' @ timeToken @ '' ready''"
  using normalization_of_iso_timestamps [of "''at ''" "'' ready''" "''20250707''" "''135939''" "''378''"]
  by (simp add: digit_def)

section \<open>The interface of an oracle\<close>

text \<open>
  What a client of the interface \<open>Orakel\<close> relies on: a missing recording is an error or a failure, and a
  verdict has a reason exactly when it is a failure. \<open>judged\<close> is what the manager makes of a verdict.
\<close>

definition join_reason :: "string \<Rightarrow> string \<Rightarrow> string" where
  "join_reason old new = (if old = [] then new else old @ '', '' @ new)"

definition judged :: "WorkloadRecording \<Rightarrow> AnalysisResult \<Rightarrow> CheckRun \<Rightarrow> CheckRun" where
  "judged rec res cr =
     (let ok = (case cr_CheckSuccessfull cr of None \<Rightarrow> wr_PodStateRunning rec | Some b \<Rightarrow> b)
      in if \<not> ar_Success res
         then cr\<lparr>cr_FailureReason := join_reason (cr_FailureReason cr) (ar_FailureReason res),
                cr_LogAnomalies := ar_Anomalies res, cr_CheckSuccessfull := Some False\<rparr>
         else cr\<lparr>cr_CheckSuccessfull := Some ok\<rparr>)"

locale orakel =
  fixes load :: "'r option \<Rightarrow> 's \<Rightarrow> error option \<times> 's"
    and analyze :: "'r option \<Rightarrow> 's \<Rightarrow> AnalysisResult outcome \<times> 's"
  assumes load_nil: "fst (load None s) \<noteq> None \<and> snd (load None s) = s"
    and load_ok: "fst (load (Some r) s) = None"
    and analyze_nil: "fst (analyze None s) = Ret res \<Longrightarrow> \<not> ar_Success res"
    and verdict_reason: "fst (analyze x s) = Ret res \<Longrightarrow> ar_FailureReason res = [] \<longleftrightarrow> ar_Success res"
begin

lemma judged_failure_has_reason:
  assumes "fst (analyze x s) = Ret res" "\<not> ar_Success res"
  shows "cr_CheckSuccessfull (judged rec res cr) = Some False \<and> cr_FailureReason (judged rec res cr) \<noteq> []"
  using verdict_reason [OF assms(1)] assms(2) by (auto simp: judged_def join_reason_def)

lemma judged_success_iff:
  assumes "fst (analyze x s) = Ret res"
  shows "cr_CheckSuccessfull (judged rec res cr) = Some True \<longleftrightarrow>
    ar_FailureReason res = [] \<and> (cr_CheckSuccessfull cr = Some True \<or> cr_CheckSuccessfull cr = None \<and> wr_PodStateRunning rec)"
  using verdict_reason [OF assms] by (auto simp: judged_def split: option.splits)

end

lemma analyze_containers_reason:
  "fst (analyze_containers da ord rec cs result la) = Ret r \<Longrightarrow>
   (ar_FailureReason result = []) = ar_Success result \<Longrightarrow> (ar_FailureReason r = []) = ar_Success r"
proof (induction cs arbitrary: result la)
  case Nil
  then show ?case by simp
next
  case (Cons c cs)
  show ?case
  proof (cases "map_of (la_orakels la) c")
    case None
    then show ?thesis using Cons by simp
  next
    case (Some lo)
    let ?res = "LogOrakel_AnalyzeTarget da (logs_of rec c) lo"
    show ?thesis
    proof (cases "fst (fst ?res) = []")
      case True
      then show ?thesis using Cons Some by (simp add: Let_def)
    next
      case False
      then show ?thesis using Cons.prems Some
        by (cases "reported da ord la (logs_of rec c) (fst (fst ?res))")
          (auto simp: Let_def add_reason_def intro!: Cons.IH)
    qed
  qed
qed

interpretation logs: orakel "LoadBaseline da ord" "AnalyzeTarget da ord" for da ord
  by unfold_locales
    (auto simp: LoadBaseline_def AnalyzeTarget_def dest: analyze_containers_reason split: option.splits)

end
