(* ===== verification/Manager.thy ===== *)
theory Manager
  imports Oracle Checks
begin

text \<open>
  \<open>internal/workload\<close>: the manager of one custom resource. It analyses the recordings of the check runs,
  merges the security contexts of the successful ones into a recommendation, determines the checks a
  workload needs and the security context of each, and resets the conditions. The manager's copy of the
  custom resource is \<open>w_whc\<close>.
\<close>

section \<open>Analysis\<close>

definition NewWorkloadCheckManager :: "WorkloadHardeningCheck \<Rightarrow> unit prog" where
  "NewWorkloadCheckManager x = modify (fetched x)"

definition recording_id :: "WorkloadHardeningCheck \<Rightarrow> string \<Rightarrow> string" where
  "recording_id x name = whc_Namespace x @ '':'' @ spec_Suffix (whc_Spec x) @ '':'' @ name"

definition baseline_references :: "WorkloadHardeningCheck \<Rightarrow> string list" where
  "baseline_references x =
     (if length (spec_BaselineRecordingReference (whc_Spec x)) > 0
      then spec_BaselineRecordingReference (whc_Spec x)
      else [recording_id x ''baseline'', recording_id x ''baseline-2''])"

text \<open>The loop that loads the baselines; \<open>Inl\<close> is an early return of \<open>AnalyzeCheckRuns\<close> with that error or none.\<close>

fun load_baselines :: "env \<Rightarrow> 'd drain_api \<Rightarrow> string list \<Rightarrow> 'd LogAnalyzer \<Rightarrow>
    (error option + 'd LogAnalyzer) prog" where
  "load_baselines env da [] la = ret (Inr la)"
| "load_baselines env da (b # bs) la = do {
     r \<leftarrow> GetRecording env b;
     case r of
       Inl e \<Rightarrow> ret (Inl (Some (Wrapf ''failed to get baseline recording from ValKey'' e)))
     | Inr rec \<Rightarrow>
         (if rec = None then ret (Inl None)
          else do {
            ord \<leftarrow> map_order env;
            (case LoadBaseline da ord rec la of
              (Some e, _) \<Rightarrow> ret (Inl (Some (Wrapf ''failed to load baseline into oracle'' e)))
            | (None, la') \<Rightarrow> load_baselines env da bs la') }) }"

text \<open>The loop over the check runs, in the order \<open>keys\<close>.\<close>

fun analyze_runs :: "env \<Rightarrow> 'd drain_api \<Rightarrow> CheckRun list \<Rightarrow> 'd LogAnalyzer \<Rightarrow> (string, CheckRun) gomap \<Rightarrow>
    (error + (string, CheckRun) gomap) outcome prog" where
  "analyze_runs env da [] la updated = ret (Ret (Inr updated))"
| "analyze_runs env da (cr # crs) la updated = do {
     x \<leftarrow> gets w_whc;
     r \<leftarrow> GetRecording env (recording_id x (cr_Name cr));
     case r of
       Inl e \<Rightarrow> ret (Ret (Inl (Wrapf ''failed to get recording for check run from ValKey'' e)))
     | Inr rec \<Rightarrow> (case rec of
         None \<Rightarrow> ret (Ret (Inl (Errorf (''no recording found for check run '' @ cr_Name cr))))
       | Some rec \<Rightarrow> do {
           ord \<leftarrow> map_order env;
           let (verdict, la') = AnalyzeTarget da ord (Some rec) la;
           attempt (ret verdict) (\<lambda>res.
             analyze_runs env da crs la' (AList.update (cr_Name cr) (judged rec res cr) updated)) }) }"

definition check_runs_in :: "string list \<Rightarrow> (string, CheckRun) gomap \<Rightarrow> CheckRun list" where
  "check_runs_in keys crs = List.map_filter (map_of crs) keys"

definition write_check_runs :: "env \<Rightarrow> (string, CheckRun) gomap \<Rightarrow> error option prog" where
  "write_check_runs env updated = do {
     e \<leftarrow> get_whc env;
     case e of
       Some err \<Rightarrow> (if IsNotFound err then ret None
         else ret (Some (Wrapf ''failed to re-fetch WorkloadHardeningCheck'' err)))
     | None \<Rightarrow> do {
         modify (set_status (\<lambda>st. st\<lparr>st_CheckRuns := updated\<rparr>));
         update_status env } }"

definition AnalyzeCheckRuns :: "env \<Rightarrow> 'd drain_api \<Rightarrow> bool \<Rightarrow> error option outcome prog" where
  "AnalyzeCheckRuns env da normalizeTimestamps = do {
     e \<leftarrow> get_whc env;
     case e of
       Some err \<Rightarrow> ret (Ret (Some (Wrapf ''failed to re-fetch WorkloadHardeningCheck before analysis'' err)))
     | None \<Rightarrow> do {
         x \<leftarrow> gets w_whc;
         l \<leftarrow> load_baselines env da (baseline_references x) (NewLogAnalyzerWithNormalization normalizeTimestamps);
         case l of
           Inl early \<Rightarrow> ret (Ret early)
         | Inr la \<Rightarrow> do {
             y \<leftarrow> gets w_whc;
             let checkRuns = st_CheckRuns (whc_Status y);
             if checkRuns = [] then ret (Ret None)
             else do {
               ord \<leftarrow> map_order env;
               attempt (analyze_runs env da (check_runs_in (ord (gm_keys checkRuns)) checkRuns) la [])
                 (\<lambda>r. case r of
                    Inl err \<Rightarrow> ret (Ret (Some err))
                  | Inr updated \<Rightarrow> do {
                      u \<leftarrow> RetryOnConflict env (write_check_runs env updated);
                      ret (Ret u) }) } } } }"

section \<open>Recommendation\<close>

text \<open>The map of security contexts of the check runs that count; \<open>None\<close> is a nil pointer in it.\<close>

definition counts :: "CheckRun \<Rightarrow> bool" where
  "counts cr \<longleftrightarrow> cr_Name cr \<noteq> ''baseline'' \<and> cr_CheckSuccessfull cr \<noteq> Some False"

fun collect_contexts :: "CheckRun list \<Rightarrow> (string, SecurityContextDefaults option) gomap" where
  "collect_contexts crs = fold (\<lambda>cr m. if counts cr then AList.update (cr_Name cr) (cr_SecurityContext cr) m else m) crs []"

text \<open>Merging them onto the contexts of the manifest; a nil pointer is dereferenced.\<close>

fun merge_contexts :: "(string list \<Rightarrow> string list) \<Rightarrow> SecurityContextDefaults option list \<Rightarrow>
    PodSecurityContext option \<times> SecurityContext option \<Rightarrow>
    (PodSecurityContext option \<times> SecurityContext option) outcome" where
  "merge_contexts ko [] acc = Ret acc"
| "merge_contexts ko (s # ss) (pod, con) =
     (case s of
        None \<Rightarrow> Panic ''nil pointer dereference''
      | Some s \<Rightarrow> merge_contexts ko ss
          (MergePodSecurityContexts pod (Pod_ToK8sSecurityContext (scd_Pod s)),
           MergeContainerSecurityContexts ko con (Container_ToK8sSecurityContext (scd_Container s))))"

definition manifest_contexts :: "PodSpec \<Rightarrow> PodSecurityContext \<times> SecurityContext" where
  "manifest_contexts ps =
     ((case ps_SecurityContext ps of None \<Rightarrow> empty_psc | Some p \<Rightarrow> p),
      (case ps_Containers ps of
         [] \<Rightarrow> empty_sc
       | c # cs \<Rightarrow> (case ctr_SecurityContext c of None \<Rightarrow> empty_sc | Some s \<Rightarrow> s)))"

definition write_recommendation :: "env \<Rightarrow> PodSecurityContext option \<times> SecurityContext option \<Rightarrow> error option prog" where
  "write_recommendation env merged = do {
     e \<leftarrow> get_whc env;
     case e of
       Some err \<Rightarrow> ret (Some (Wrapf ''failed to re-fetch WorkloadHardeningCheck'' err))
     | None \<Rightarrow> do {
         modify (set_status (\<lambda>st. st\<lparr>st_Recommendation :=
           Some \<lparr>rec_Container = snd merged, rec_Pod = fst merged\<rparr>\<rparr>));
         update_status env } }"

definition SetRecommendation :: "env \<Rightarrow> error option outcome prog" where
  "SetRecommendation env = do {
     x \<leftarrow> gets w_whc;
     ord \<leftarrow> map_order env;
     let crs = st_CheckRuns (whc_Status x);
     let contexts = collect_contexts (check_runs_in (ord (gm_keys crs)) crs);
     t \<leftarrow> GetPodSpecTemplate env (whc_Namespace x);
     case t of
       Inl e \<Rightarrow> ret (Ret (Some (Wrapf ''failed to get workload under test'' e)))
     | Inr ps \<Rightarrow> do {
         ko \<leftarrow> map_order env;
         let (pod, con) = manifest_contexts ps;
         attempt (ret (merge_contexts ko (List.map_filter (map_of contexts) (ko (gm_keys contexts))) (Some pod, Some con)))
           (\<lambda>merged. do {
              u \<leftarrow> RetryOnConflict env (write_recommendation env merged);
              case u of
                Some e \<Rightarrow> ret (Ret (Some (Wrapf ''failed to update recommendation in WorkloadHardeningCheck status'' e)))
              | None \<Rightarrow> ret (Ret None) }) } }"

section \<open>Baselines given by reference\<close>

definition finished_baseline :: "string \<Rightarrow> CheckRun" where
  "finished_baseline name = \<lparr>cr_Name = name, cr_RecordingSuccessfull = Some True, cr_CheckSuccessfull = Some True,
     cr_SecurityContext = None, cr_FailureReason = [], cr_LogAnomalies = []\<rparr>"

definition write_baseline_runs :: "env \<Rightarrow> error option prog" where
  "write_baseline_runs env = do {
     e \<leftarrow> get_whc env;
     if (case e of Some err \<Rightarrow> IsNotFound err | None \<Rightarrow> False) then ret None
     else do {
       modify (set_status (\<lambda>st. st\<lparr>st_BaselineRuns :=
         [finished_baseline ''baseline'', finished_baseline ''baseline-2'']\<rparr>));
       update_status env } }"

definition SetBaselineRecorded :: "env \<Rightarrow> error option prog" where
  "SetBaselineRecorded env = do {
     e \<leftarrow> SetCondition env (mk_condition ConditionTypeBaseline ConditionTrue ReasonBaselineRecordingFinished
            ''Baseline recording has been finished'');
     case e of
       Some err \<Rightarrow> ret (Some (Wrapf ''failed to set BaselineRecorded condition'' err))
     | None \<Rightarrow> RetryOnConflict env (write_baseline_runs env) }"

section \<open>Which checks, and with which security context\<close>

text \<open>The loop over \<open>allChecks\<close>; \<open>ps\<close> is \<open>None\<close> when the type switch found no pod template.\<close>

fun required_checks :: "env \<Rightarrow> PodSpec option \<Rightarrow> string list \<Rightarrow> string list \<Rightarrow> string list outcome prog" where
  "required_checks env ps [] found = ret (Ret found)"
| "required_checks env ps (t # ts) found =
     (case (ps, map_of GetAllChecks t) of
        (Some ps, Some check) \<Rightarrow>
          (if ShouldRun check ps then do {
             x \<leftarrow> gets w_whc;
             let checkType = GetType check;
             if m_Find (e_meta env) (whc_Conditions x) (check_condition_type env checkType) = None then do {
               SetCondition env (mk_condition (check_condition_type env checkType) ConditionUnknown
                 ReasonCheckNotStarted (''Check '' @ checkType @ '' has not been started yet''));
               required_checks env (Some ps) ts (List.insert checkType found) }
             else required_checks env (Some ps) ts (List.insert checkType found) }
           else required_checks env (Some ps) ts found)
      | _ \<Rightarrow> ret (Panic ''nil pointer dereference''))"

definition GetRequiredCheckRuns :: "env \<Rightarrow> string list outcome prog" where
  "GetRequiredCheckRuns env = do {
     x \<leftarrow> gets w_whc;
     r \<leftarrow> GetWorkloadUnderTest env (whc_Namespace x);
     case r of
       Inl e \<Rightarrow> ret (Ret [])
     | Inr wl \<Rightarrow> do {
         ord \<leftarrow> map_order env;
         let ps = (if wl_Kind wl \<in> {Deployment, StatefulSet, DaemonSet} then Some (wl_Template wl) else None);
         attempt (required_checks env ps (ord (gm_keys GetAllChecks)) []) (\<lambda>found. do {
           ord' \<leftarrow> map_order env;
           ret (Ret (ord' found)) }) } }"

text \<open>
  The base is the context the specification points to, or a fresh one; the check changes it in place and
  its address is returned.
\<close>

definition base_context :: "nat prog" where
  "base_context = do {
     p \<leftarrow> gets w_sc_ptr;
     case p of
       Some a \<Rightarrow> ret a
     | None \<Rightarrow> do {
         a \<leftarrow> gets (\<lambda>w. length (w_heap w));
         modify (\<lambda>w. w\<lparr>w_heap := w_heap w @ [\<lparr>scd_Pod = Some empty_pod_defaults, scd_Container = Some empty_con_defaults\<rparr>]\<rparr>);
         ret a } }"

definition GetSecurityContextForCheckType :: "string \<Rightarrow> nat outcome prog" where
  "GetSecurityContextForCheckType checkType = do {
     a \<leftarrow> base_context;
     case map_of GetAllChecks checkType of
       None \<Rightarrow> ret (Panic ''nil pointer dereference'')
     | Some check \<Rightarrow> do {
         sc \<leftarrow> gets (\<lambda>w. w_heap w ! a);
         let (r, sc') = GetSecurityContextDefaults check sc;
         modify (\<lambda>w. w\<lparr>w_heap := (w_heap w)[a := sc']\<rparr>);
         ret (bind_outcome r (\<lambda>_. Ret a)) } }"

section \<open>Conditions\<close>

definition kept_condition :: "Condition \<Rightarrow> bool" where
  "kept_condition c \<longleftrightarrow> c_Type c = ConditionTypeFinished \<or> c_Type c = ConditionTypeAnalysis"

definition remove_conditions_attempt :: "env \<Rightarrow> error option prog" where
  "remove_conditions_attempt env = do {
     e \<leftarrow> get_whc env;
     case e of
       Some err \<Rightarrow> ret (Some err)
     | None \<Rightarrow> do {
         modify (set_status (\<lambda>st. st\<lparr>st_Conditions := filter kept_condition (st_Conditions st)\<rparr>));
         update_status env } }"

definition RemoveCheckConditions :: "env \<Rightarrow> error option prog" where
  "RemoveCheckConditions env = RetryOnConflict env (remove_conditions_attempt env)"

fun all_recorded :: "env \<Rightarrow> string list \<Rightarrow> bool outcome prog" where
  "all_recorded env [] = ret (Ret True)"
| "all_recorded env (t # ts) = attempt (CheckRecorded env t) (\<lambda>b.
     if \<not> b then ret (Ret False) else all_recorded env ts)"

definition AllChecksFinished :: "env \<Rightarrow> bool outcome prog" where
  "AllChecksFinished env = do {
     RefreshWorkloadHardeningCheck env;
     attempt (BaselineRecorded env) (\<lambda>b.
       if \<not> b then ret (Ret False)
       else attempt (GetRequiredCheckRuns env) (all_recorded env)) }"

section \<open>What the manager touches\<close>

lemma keyed_heap [simp]: "keyed ns n (w\<lparr>w_heap := h\<rparr>) = keyed ns n w"
  by (simp add: keyed_def)

lemma keeps_set_status [emits_intros]: "keeps (keyed ns n) P (modify (set_status f))"
  by (rule keeps_modify) simp_all

lemma keeps_attempt_ret [emits_intros]: "(\<And>x. keeps I P (f x)) \<Longrightarrow> keeps I P (attempt (ret r) f)"
  by (intro emits_intros)

lemma keeps_load_baselines [emits_intros]:
  "keeps (keyed ns n) (footprint T ns n) (load_baselines env da bs la)"
  by (induction bs arbitrary: la) (auto intro!: emits_intros)

lemma keeps_analyze_runs [emits_intros]:
  "keeps (keyed ns n) (footprint T ns n) (analyze_runs env da crs la updated)"
  by (induction crs arbitrary: la updated) (auto intro!: emits_intros)

lemma keeps_AnalyzeCheckRuns [emits_intros]:
  assumes "lawful env" shows "keeps (keyed ns n) (footprint T ns n) (AnalyzeCheckRuns env da b)"
  unfolding AnalyzeCheckRuns_def write_check_runs_def Let_def
  by (intro emits_intros assms lawful_laws(2) [OF assms])

lemma keeps_SetRecommendation [emits_intros]:
  assumes "lawful env" shows "keeps (keyed ns n) (footprint T ns n) (SetRecommendation env)"
  unfolding SetRecommendation_def write_recommendation_def Let_def
  by (intro emits_intros assms lawful_laws(2) [OF assms])

lemma keeps_SetBaselineRecorded [emits_intros]:
  assumes "lawful env" shows "keeps (keyed ns n) (footprint T ns n) (SetBaselineRecorded env)"
  unfolding SetBaselineRecorded_def write_baseline_runs_def
  by (intro emits_intros assms lawful_laws(2) [OF assms])

lemma keeps_required_checks [emits_intros]:
  assumes "lawful env" shows "keeps (keyed ns n) (footprint T ns n) (required_checks env ps ts found)"
  by (induction ts arbitrary: found)
    (auto simp: Let_def intro!: emits_intros assms split: option.splits)

lemma keeps_GetRequiredCheckRuns [emits_intros]:
  assumes "lawful env" shows "keeps (keyed ns n) (footprint T ns n) (GetRequiredCheckRuns env)"
  unfolding GetRequiredCheckRuns_def Let_def by (intro emits_intros assms)

lemma keeps_GetSecurityContext [emits_intros]:
  "keeps (keyed ns n) (footprint T ns n) (GetSecurityContextForCheckType t)"
  unfolding GetSecurityContextForCheckType_def base_context_def Let_def by (intro emits_intros) auto

lemma keeps_RemoveCheckConditions [emits_intros]:
  assumes "lawful env" shows "keeps (keyed ns n) (footprint T ns n) (RemoveCheckConditions env)"
  unfolding RemoveCheckConditions_def remove_conditions_attempt_def
  by (intro emits_intros assms lawful_laws(2) [OF assms])

lemma keeps_all_recorded [emits_intros]:
  assumes "lawful env" shows "keeps (keyed ns n) (footprint T ns n) (all_recorded env ts)"
  by (induction ts) (auto intro!: emits_intros assms)

lemma keeps_AllChecksFinished [emits_intros]:
  assumes "lawful env" shows "keeps (keyed ns n) (footprint T ns n) (AllChecksFinished env)"
  unfolding AllChecksFinished_def by (intro emits_intros assms)

section \<open>What the recommendation contains\<close>

definition pod_exts :: "SecurityContextDefaults list \<Rightarrow> PodSecurityContext list" where
  "pod_exts ss = List.map_filter (\<lambda>s. Pod_ToK8sSecurityContext (scd_Pod s)) ss"

definition con_exts :: "SecurityContextDefaults list \<Rightarrow> SecurityContext list" where
  "con_exts ss = List.map_filter (\<lambda>s. Container_ToK8sSecurityContext (scd_Container s)) ss"

lemma Merge_Some:
  "MergePodSecurityContexts (Some p) e = Some (case e of None \<Rightarrow> p | Some e \<Rightarrow> merge_pod_fields p e)"
  "MergeContainerSecurityContexts ko (Some c) e' = Some (case e' of None \<Rightarrow> c | Some e \<Rightarrow> merge_container_fields ko c e)"
  by (simp_all add: MergePodSecurityContexts_def MergeContainerSecurityContexts_def split: option.splits)

lemma exts_simps [simp]:
  "pod_exts [] = []" "con_exts [] = []"
  "pod_exts (s # ss) = (case Pod_ToK8sSecurityContext (scd_Pod s) of None \<Rightarrow> pod_exts ss | Some p \<Rightarrow> p # pod_exts ss)"
  "con_exts (s # ss) = (case Container_ToK8sSecurityContext (scd_Container s) of None \<Rightarrow> con_exts ss | Some c \<Rightarrow> c # con_exts ss)"
  by (simp_all add: pod_exts_def con_exts_def List.map_filter_def split: option.splits)

lemma set_exts:
  "set (pod_exts ss) = {p. \<exists>s \<in> set ss. Pod_ToK8sSecurityContext (scd_Pod s) = Some p}"
  "set (con_exts ss) = {c. \<exists>s \<in> set ss. Container_ToK8sSecurityContext (scd_Container s) = Some c}"
  by (induction ss) (auto split: option.splits)

lemma merge_contexts_Some:
  "merge_contexts ko (map Some ss) (Some p, Some c) =
    Ret (Some (foldl merge_pod_fields p (pod_exts ss)), Some (foldl (merge_container_fields ko) c (con_exts ss)))"
proof (induction ss arbitrary: p c)
  case Nil
  then show ?case by simp
next
  case (Cons s ss)
  show ?case
    by (cases "Pod_ToK8sSecurityContext (scd_Pod s)"; cases "Container_ToK8sSecurityContext (scd_Container s)")
      (simp_all add: Merge_Some Cons)
qed

lemma dropped_foldl:
  assumes "is_order ko"
  shows "dropped (foldl (merge_container_fields ko) c es) = dropped c \<union> (\<Union>e \<in> set es. dropped e)"
  by (induction es arbitrary: c) (auto simp: dropped_merge [OF assms])


definition recommended_defaults :: SecurityContextDefaults where
  "recommended_defaults = \<lparr>scd_Pod = Some (empty_pod_defaults\<lparr>pod_RunAsUser := Some 1000\<rparr>),
     scd_Container = Some (empty_con_defaults\<lparr>con_CapabilitiesDrop := Some [''ALL'']\<rparr>)\<rparr>"




section \<open>What the analysis writes\<close>

definition has_verdict :: "CheckRun \<Rightarrow> bool" where
  "has_verdict cr \<longleftrightarrow> cr_CheckSuccessfull cr \<noteq> None"

definition verdicts_only :: "event \<Rightarrow> bool" where
  "verdicts_only ev = (case ev of
     EvStatusUpdateWHC x \<Rightarrow> \<forall>cr \<in> ran (map_of (st_CheckRuns (whc_Status x))). has_verdict cr
   | EvGetWHC ns n \<Rightarrow> True
   | EvGet k \<Rightarrow> True
   | _ \<Rightarrow> False)"

lemma keeps_get_whc_any:
  assumes "\<And>a b. P (EvGetWHC a b)" shows "keeps anywhere P (get_whc env)"
  using assms by (simp add: steps_def run_get_whc Let_def split: sum.splits)

lemma judged_has_verdict [simp]: "has_verdict (judged rec res cr)"
  by (cases "ar_Success res"; cases "cr_CheckSuccessfull cr") (simp_all add: has_verdict_def judged_def Let_def)

lemma ran_update: "ran (map_of (AList.update k v m)) \<subseteq> insert v (ran (map_of m))"
  by (auto simp: update_conv' ran_def split: if_splits)

lemma keeps_GetRecording_any [emits_intros]:
  "(\<And>k. P (EvGet k)) \<Longrightarrow> keeps anywhere P (GetRecording env k)"
  unfolding GetRecording_def getEntry_def by (intro emits_intros) auto

lemma steps_case_sum_fact:
  "(\<And>y. x = Inl y \<Longrightarrow> steps I P (f y) Q) \<Longrightarrow> (\<And>z. x = Inr z \<Longrightarrow> steps I P (g z) Q) \<Longrightarrow>
   steps I P (case x of Inl y \<Rightarrow> f y | Inr z \<Rightarrow> g z) Q"
  by (rule keeps_case_sum)

lemma steps_attempt_fact:
  assumes "steps I P m (\<lambda>r w. I w \<and> (\<forall>x. r = Ret x \<longrightarrow> R x))" "\<And>x. R x \<Longrightarrow> steps I P (f x) Q"
    "\<And>p w. I w \<Longrightarrow> Q (Panic p) w" "\<And>w. I w \<Longrightarrow> Q NoReturn w"
  shows "steps I P (attempt m f) Q"
  unfolding attempt_def
proof (rule steps_bind_fact [OF assms(1)])
  fix r assume "\<forall>x. r = Ret x \<longrightarrow> R x"
  then show "steps I P (case r of Ret x \<Rightarrow> f x | Panic p \<Rightarrow> ret (Panic p) | NoReturn \<Rightarrow> ret NoReturn) Q"
    using assms(2-4) by (cases r) (auto intro: steps_ret)
qed

lemma analyze_runs_verdicts:
  assumes "\<forall>cr \<in> ran (map_of updated). has_verdict cr"
  shows "steps anywhere verdicts_only (analyze_runs env da crs la updated)
    (\<lambda>r w. anywhere w \<and> (\<forall>x. r = Ret x \<longrightarrow> (\<forall>u. x = Inr u \<longrightarrow> (\<forall>cr \<in> ran (map_of u). has_verdict cr))))"
  using assms
proof (induction crs arbitrary: la updated)
  case Nil
  then show ?case by (simp add: steps_ret)
next
  case (Cons cr crs)
  have upd: "\<forall>c \<in> ran (map_of (AList.update (cr_Name cr) (judged rec res cr) updated)). has_verdict c" for rec res
    using Cons.prems ran_update [of "cr_Name cr" "judged rec res cr" updated] by auto
  have get: "keeps anywhere verdicts_only (GetRecording env k)" for k
    by (rule keeps_GetRecording_any) (simp add: verdicts_only_def)
  have stop: "steps anywhere verdicts_only (ret (Ret (Inl e)))
    (\<lambda>r w. anywhere w \<and> (\<forall>x. r = Ret x \<longrightarrow> (\<forall>u. x = Inr u \<longrightarrow> (\<forall>cr \<in> ran (map_of u). has_verdict cr))))" for e
    by (rule steps_ret) simp
  show ?case
    unfolding analyze_runs.simps Let_def
    apply (rule steps_bind [OF keeps_gets], rule steps_bind [OF get], rule keeps_case_sum, rule stop,
        rule keeps_case_option, rule stop, rule steps_bind [OF keeps_map_order], rule keeps_case_prod)
    apply (rule steps_attempt_fact [where R = "\<lambda>_. True"])
       apply (rule steps_ret, simp)
      apply (rule Cons.IH [OF upd])
     apply simp_all
    done
qed

lemma write_check_runs_verdicts:
  assumes "\<forall>cr \<in> ran (map_of updated). has_verdict cr"
  shows "keeps anywhere verdicts_only (write_check_runs env updated)"
  using assms
  by (auto simp: steps_def write_check_runs_def run_bind run_get_whc Let_def run_modify run_update_status
      run_state_if run_state_case_option run_ret verdicts_only_def set_status_def split: sum.splits option.splits prod.splits)

lemma load_baselines_reads: "keeps anywhere verdicts_only (load_baselines env da bs la)"
  by (induction bs arbitrary: la)
    (auto intro!: keeps_bind keeps_case_sum keeps_case_option keeps_case_prod keeps_if keeps_ret
      keeps_map_order keeps_GetRecording_any simp: verdicts_only_def)



section \<open>Security contexts are shared by pointer\<close>

definition context_after :: "string \<Rightarrow> SecurityContextDefaults \<Rightarrow> SecurityContextDefaults" where
  "context_after t sc = (case map_of GetAllChecks t of
     None \<Rightarrow> sc
   | Some check \<Rightarrow> snd (GetSecurityContextDefaults check sc))"

definition fresh_context :: SecurityContextDefaults where
  "fresh_context = \<lparr>scd_Pod = Some empty_pod_defaults, scd_Container = Some empty_con_defaults\<rparr>"

lemma run_GetSecurityContext:
  assumes "run_state (GetSecurityContextForCheckType t) w = (Ret a, w')"
  shows "case w_sc_ptr w of
      Some p \<Rightarrow> a = p \<and> w' = w\<lparr>w_heap := (w_heap w)[p := context_after t (w_heap w ! p)]\<rparr>
    | None \<Rightarrow> a = length (w_heap w) \<and> w' = w\<lparr>w_heap := w_heap w @ [context_after t fresh_context]\<rparr>"
proof (cases "map_of GetAllChecks t")
  case None
  then show ?thesis using assms
    by (cases "w_sc_ptr w") (auto simp: GetSecurityContextForCheckType_def base_context_def run_bind run_gets run_modify run_ret)
next
  case (Some check)
  obtain r sc where r: "GetSecurityContextDefaults check (case w_sc_ptr w of Some p \<Rightarrow> w_heap w ! p | None \<Rightarrow> fresh_context) = (r, sc)"
    by force
  then show ?thesis using assms Some
    by (cases "w_sc_ptr w") (auto simp: GetSecurityContextForCheckType_def base_context_def run_bind run_gets
        run_modify run_ret context_after_def fresh_context_def bind_outcome_Ret_iff)
qed

text \<open>
  Where the specification gives a security context, the contexts of two checks are one and the same
  object: the second check adds its settings to it while the run of the first holds it, so that both
  run with the settings of both. Without one, the checks get separate objects, each with the settings of
  its own check only.
\<close>

theorem check_contexts_shared:
  assumes "run_state (GetSecurityContextForCheckType t1) w = (Ret a1, w1)"
    and "run_state (GetSecurityContextForCheckType t2) w1 = (Ret a2, w2)"
    and "\<And>p. w_sc_ptr w = Some p \<Longrightarrow> p < length (w_heap w)"
  shows "case w_sc_ptr w of
      Some p \<Rightarrow> a1 = p \<and> a2 = p \<and> w_heap w2 ! a1 = context_after t2 (context_after t1 (w_heap w ! p))
    | None \<Rightarrow> a1 \<noteq> a2 \<and> w_heap w2 ! a1 = context_after t1 fresh_context
        \<and> w_heap w2 ! a2 = context_after t2 fresh_context
        \<and> (\<forall>p < length (w_heap w). w_heap w2 ! p = w_heap w ! p)"
  using run_GetSecurityContext [OF assms(1)] run_GetSecurityContext [OF assms(2)] assms(3)
  by (cases "w_sc_ptr w") (auto simp: nth_append)

definition spec_context :: SecurityContextDefaults where
  "spec_context = \<lparr>scd_Pod = Some empty_pod_defaults, scd_Container = Some empty_con_defaults\<rparr>"

theorem check_contexts_shared_witness:
  "let w = (start_world empty_whc)\<lparr>w_sc_ptr := Some 0, w_heap := [spec_context]\<rparr>;
       w1 = snd (run_state (GetSecurityContextForCheckType ''readOnlyRootFilesystem'') w);
       w2 = snd (run_state (GetSecurityContextForCheckType ''user'') w1)
   in fst (run_state (GetSecurityContextForCheckType ''user'') w1) = Ret 0
     \<and> w_heap w2 ! 0 = context_after ''user'' (context_after ''readOnlyRootFilesystem'' spec_context)"
proof -
  let ?w = "(start_world empty_whc)\<lparr>w_sc_ptr := Some 0, w_heap := [spec_context]\<rparr>"
  let ?m = "GetSecurityContextForCheckType"
  let ?w1 = "snd (run_state (?m ''readOnlyRootFilesystem'') ?w)"
  have step: "run_state (?m t) w = (Ret 0, w\<lparr>w_heap := [sc']\<rparr>)"
    if "map_of GetAllChecks t = Some check" "w_sc_ptr w = Some 0" "w_heap w = [sc]"
      "GetSecurityContextDefaults check sc = (Ret (), sc')" for t w sc sc' check
    using that by (simp add: GetSecurityContextForCheckType_def base_context_def run_bind run_gets run_modify run_ret)
  have checks: "map_of GetAllChecks ''readOnlyRootFilesystem'' = Some ReadOnlyRootFilesystemCheck"
    "map_of GetAllChecks ''user'' = Some UserCheck" by (simp_all add: GetAllChecks_eq)
  obtain s1 where s1: "GetSecurityContextDefaults ReadOnlyRootFilesystemCheck spec_context = (Ret (), s1)"
      "scd_Pod s1 \<noteq> None" "scd_Container s1 \<noteq> None"
    by (simp add: check_records check_defaults with_container_def spec_context_def)
  obtain s2 where s2: "GetSecurityContextDefaults UserCheck s1 = (Ret (), s2)"
    using s1(2,3) by (auto simp: check_records check_defaults with_container_def with_pod_def then_do_def)
  have w1: "run_state (?m ''readOnlyRootFilesystem'') ?w = (Ret 0, ?w\<lparr>w_heap := [s1]\<rparr>)"
    by (rule step [OF checks(1) _ _ s1(1)]) simp_all
  have w2: "run_state (?m ''user'') (?w\<lparr>w_heap := [s1]\<rparr>) = (Ret 0, ?w\<lparr>w_heap := [s1]\<rparr>\<lparr>w_heap := [s2]\<rparr>)"
    by (rule step [OF checks(2) _ _ s2]) simp_all
  show ?thesis
    using check_contexts_shared [OF w1 w2] by (simp add: w1 w2 [simplified])
qed

section \<open>Resetting the conditions\<close>

lemma remove_conditions_steps:
  assumes "lawful env" "status_echo env"
  shows "steps (keyed ns n) (\<lambda>_. True) (remove_conditions_attempt env)
    (\<lambda>r w. keyed ns n w \<and> (r = None \<longrightarrow> (\<forall>c \<in> set (whc_Conditions (w_whc w)). kept_condition c)))"
  unfolding steps_def
proof (intro allI impI)
  fix w assume k: "keyed ns n w"
  let ?m = "remove_conditions_attempt env"
  have key: "whc_Namespace (w_whc w) = ns" "whc_Name (w_whc w) = n" using k by (auto simp: keyed_def)
  have frame: "(\<exists>evs. w_trace (snd (run_state ?m w)) = w_trace w @ evs) \<and> keyed ns n (snd (run_state ?m w))"
  proof -
    have "keeps (keyed ns n) (footprint None ns n) ?m"
      unfolding remove_conditions_attempt_def by (intro emits_intros assms)
    from stepsD_trace [OF this k] stepsD_post [OF this k] show ?thesis by blast
  qed
  moreover have "fst (run_state ?m w) = None \<longrightarrow> (\<forall>c \<in> set (whc_Conditions (w_whc (snd (run_state ?m w)))). kept_condition c)"
  proof (cases "e_GetWHC env (w_trace w) ns n")
    case (Inl e)
    then show ?thesis by (simp add: remove_conditions_attempt_def run_bind run_get_whc Let_def key run_ret)
  next
    case (Inr x)
    define w2 where "w2 = set_status (\<lambda>st. st\<lparr>st_Conditions := filter kept_condition (st_Conditions st)\<rparr>)
      (fetched x (w\<lparr>w_trace := w_trace w @ [EvGetWHC ns n]\<rparr>))"
    obtain r y where u: "e_StatusUpdateWHC env (w_trace w2) (whc_current w2) = (r, y)" by force
    have run: "run_state ?m w = run_state (update_status env) w2"
      using Inr by (simp add: remove_conditions_attempt_def run_bind run_get_whc Let_def key run_modify w2_def)
    show ?thesis
    proof (cases r)
      case None
      then have "whc_Status y = whc_Status (whc_current w2)"
        using u assms(2) unfolding status_echo_def by blast
      then have "\<forall>c \<in> set (whc_Conditions y). kept_condition c"
        by (simp add: w2_def set_status_def)
      then show ?thesis by (simp add: run run_update_status Let_def u None)
    next
      case (Some e)
      then show ?thesis by (simp add: run run_update_status Let_def u)
    qed
  qed
  ultimately show "(\<exists>evs. w_trace (snd (run_state ?m w)) = w_trace w @ evs \<and> (\<forall>ev\<in>set evs. True)) \<and>
    keyed ns n (snd (run_state ?m w)) \<and> (fst (run_state ?m w) = None \<longrightarrow>
      (\<forall>c \<in> set (whc_Conditions (w_whc (snd (run_state ?m w)))). kept_condition c))"
    by blast
qed

text \<open>
  When the manager has reset the conditions without error, no condition is left but the ones
  that say whether the check has finished and what the analysis does; in particular every test for a
  recorded or running baseline, check or final check is false afterwards, and the whole cycle runs again.
\<close>

theorem RemoveCheckConditions_resets:
  assumes "lawful env" and "status_echo env" and "run_state (RemoveCheckConditions env) w = (None, w')"
  shows "(\<forall>c \<in> set (whc_Conditions (w_whc w')). c_Type c = ConditionTypeFinished \<or> c_Type c = ConditionTypeAnalysis)
    \<and> \<not> cond_is env (w_whc w') ConditionTypeBaseline s rs \<and> \<not> cond_is env (w_whc w') ConditionTypeFinalCheck s rs"
proof -
  have kept: "\<forall>c \<in> set (whc_Conditions (w_whc w')). kept_condition c"
    using retry_result [OF assms(1) remove_conditions_steps [OF assms(1,2)], of
        "whc_Namespace (w_whc w)" "whc_Name (w_whc w)" w None w'] assms(3)
    by (simp add: RemoveCheckConditions_def keyed_def)
  have "\<not> cond_is env (w_whc w') t s rs" if "t \<noteq> ConditionTypeFinished" "t \<noteq> ConditionTypeAnalysis" for t
  proof
    assume "cond_is env (w_whc w') t s rs"
    then obtain c where "m_Find (e_meta env) (whc_Conditions (w_whc w')) t = Some c"
      unfolding cond_is_def by blast
    with lawful_laws(1) [OF assms(1)] have "c \<in> set (whc_Conditions (w_whc w'))" "c_Type c = t"
      unfolding meta_laws_def by blast+
    with kept that show False by (auto simp: kept_condition_def)
  qed
  with kept show ?thesis by (simp add: kept_condition_def ConditionTypeBaseline_def ConditionTypeFinalCheck_def ConditionTypeFinished_def ConditionTypeAnalysis_def)
qed

theorem RemoveCheckConditions_resets_witness:
  "let env = ref_env empty_whc [] []; w' = snd (run_state (RemoveCheckConditions env) (start_world empty_whc))
   in \<not> cond_is env (w_whc w') ConditionTypeBaseline ConditionTrue {ReasonBaselineRecordingFinished}"
proof -
  let ?env = "ref_env empty_whc [] []"
  let ?w = "start_world empty_whc"
  have run: "run_state (RemoveCheckConditions ?env) ?w = (None, snd (run_state (RemoveCheckConditions ?env) ?w))"
    by (simp add: RemoveCheckConditions_def remove_conditions_attempt_def get_whc_def update_status_def run_simps
        ref_env_def ref_retry_def eval_nat_numeral empty_whc_def start_world_def)
  show ?thesis
    using RemoveCheckConditions_resets [OF ref_env_lawful ref_env_status_echo run, of ConditionTrue
        "{ReasonBaselineRecordingFinished}"] by (simp add: Let_def)
qed

section \<open>The checks a workload needs\<close>

definition needs :: "PodSpec \<Rightarrow> string set" where
  "needs ps = {t. \<exists>check. map_of GetAllChecks t = Some check \<and> ShouldRun check ps}"

lemma GetType_registered: "map_of GetAllChecks t = Some check \<Longrightarrow> GetType check = t"
  by (rule GetAllChecks_types [OF map_of_SomeD])

lemma required_checks_result:
  assumes "set ts \<subseteq> dom (map_of GetAllChecks)"
  shows "\<exists>found'. fst (run_state (required_checks env (Some ps) ts found) w) = Ret found'
    \<and> set found' = set found \<union> set ts \<inter> needs ps"
  using assms
proof (induction ts arbitrary: found w)
  case Nil
  then show ?case by (simp add: run_ret)
next
  case (Cons t ts)
  then obtain check where c: "map_of GetAllChecks t = Some check" by auto
  note ih = Cons.IH [OF order_trans [OF set_subset_Cons Cons.prems]]
  show ?case
  proof (cases "ShouldRun check ps")
    case False
    then show ?thesis using ih [of found w] c by (auto simp: needs_def)
  next
    case True
    define u where "u = snd (run_state (SetCondition env (mk_condition (check_condition_type env t) ConditionUnknown
      ReasonCheckNotStarted (''Check '' @ t @ '' has not been started yet''))) w)"
    obtain v where "run_state (required_checks env (Some ps) (t # ts) found) w =
        run_state (required_checks env (Some ps) ts (List.insert t found)) v"
      using True c GetType_registered [OF c] that [of w] that [of u]
      by (cases "m_Find (e_meta env) (whc_Conditions (w_whc w)) (check_condition_type env t)")
        (simp_all add: run_bind run_gets Let_def u_def split_beta)
    then show ?thesis using ih [of "List.insert t found" v] True c by (auto simp: needs_def)
  qed
qed

text \<open>
  C37. The checks the manager asks for are exactly the registered ones whose test applies to the pod
  template of the workload, in whatever order the registry is visited and whatever becomes of the
  conditions it adds on the way. When the workload cannot be read, the list is empty, which the caller
  cannot tell from a workload that needs no check.
\<close>

theorem required_checks_exact:
  assumes "\<And>tr. is_order (e_order env tr)" and "run_state (GetWorkloadUnderTest env (whc_Namespace (w_whc w))) w = (r, v)"
    and "\<And>wl. r = Inr wl \<Longrightarrow> wl_Kind wl \<noteq> OtherObject"
  shows "\<exists>found. fst (run_state (GetRequiredCheckRuns env) w) = Ret found
    \<and> set found = (case r of Inl e \<Rightarrow> {} | Inr wl \<Rightarrow> needs (wl_Template wl))"
proof (cases r)
  case (Inl e)
  then show ?thesis by (simp add: GetRequiredCheckRuns_def run_bind run_gets assms(2) run_ret)
next
  case (Inr wl)
  let ?ts = "e_order env (w_trace v) (gm_keys GetAllChecks)"
  have ts: "set ?ts = dom (map_of GetAllChecks)" using is_order_set [OF assms(1)] by simp
  then have "set ?ts \<inter> needs (wl_Template wl) = needs (wl_Template wl)" by (auto simp: needs_def)
  then obtain found where found: "fst (run_state (required_checks env (Some (wl_Template wl)) ?ts []) v) = Ret found"
      "set found = needs (wl_Template wl)"
    using required_checks_result [OF equalityD1 [OF ts], of env "wl_Template wl" "[]" v] by auto
  have kind: "wl_Kind wl \<in> {Deployment, StatefulSet, DaemonSet}"
    using assms(3) [OF Inr] by (cases "wl_Kind wl") auto
  obtain v' where "run_state (required_checks env (Some (wl_Template wl)) ?ts []) v = (Ret found, v')"
    using found(1) by (metis prod.collapse)
  then show ?thesis using kind found(2) is_order_set [OF assms(1)] Inr
    by (simp add: GetRequiredCheckRuns_def run_bind run_gets assms(2) run_ret map_order_def run_attempt Let_def)
qed

lemma kind_of_Deployment: "kind_of (to_lower ''Deployment'') = Deployment"
  by code_simp

theorem required_checks_exact_witness:
  "\<exists>found. fst (run_state (GetRequiredCheckRuns (ref_env empty_whc [] [])) (start_world empty_whc)) = Ret found
    \<and> ''user'' \<in> set found"
proof -
  let ?env = "ref_env empty_whc [] []"
  obtain wl v where run: "run_state (GetWorkloadUnderTest ?env (whc_Namespace (w_whc (start_world empty_whc))))
        (start_world empty_whc) = (Inr wl, v)"
      and wl: "wl_Kind wl = Deployment" "ps_SecurityContext (wl_Template wl) = None"
    by (auto simp: GetWorkloadUnderTest_def get_workload_def run_simps ref_env_def start_world_def Let_def
        empty_whc_def ref_workload_def kind_of_Deployment)
  have "''user'' \<in> needs (wl_Template wl)"
    using wl(2) by (simp add: needs_def GetAllChecks_eq check_records UserCheck_ShouldRun_def)
  moreover have "is_order (e_order ?env tr)" for tr by (simp add: ref_env_def)
  ultimately show ?thesis
    using required_checks_exact [OF _ run] wl(1) by auto
qed

text \<open>
  Once the baseline counts as recorded, a workload that cannot be read makes all its checks count as
  finished, although none of them needs to have run: the missing list of checks is taken for an empty one.
\<close>

theorem unreadable_workload_finishes_checks:
  assumes "meta_laws (e_meta env)" and "wrapper_unregistered env"
    and "cond_is env (w_whc w) ConditionTypeBaseline ConditionTrue
      {ReasonBaselineRecordingFinished, ReasonBaselineRecordingFailed}"
    and "\<And>tr k ns n. \<exists>e. e_GetWorkload env tr k ns n = Inl e"
  shows "fst (run_state (AllChecksFinished env) w) = Ret True"
proof -
  have read: "\<exists>e v. run_state (GetWorkloadUnderTest env ns) u = (Inl e, v)" for ns u
  proof -
    let ?ref = "spec_TargetRef (whc_Spec (w_whc u))"
    obtain e where "e_GetWorkload env (w_trace u) (kind_of (to_lower (tr_Kind ?ref))) ns (tr_Name ?ref) = Inl e"
      using assms(4) by blast
    then show ?thesis
      by (simp add: GetWorkloadUnderTest_def get_workload_def run_bind run_gets run_ask Let_def run_state_if run_ret)
  qed
  obtain e v where "run_state (GetWorkloadUnderTest env (whc_Namespace (w_whc w))) (refreshed (refreshed w)) = (Inl e, v)"
    using read by blast
  then show ?thesis using assms(3)
    by (simp add: AllChecksFinished_def run_bind run_Refresh [OF assms(2)] run_attempt
        run_conditions [OF assms(1,2)] GetRequiredCheckRuns_def run_gets run_ret)
qed

definition unreadable :: "env \<Rightarrow> env" where
  "unreadable env = env\<lparr>e_GetWorkload := \<lambda>tr k ns n. Inl not_found\<rparr>"

definition baseline_done :: WorkloadHardeningCheck where
  "baseline_done = empty_whc\<lparr>whc_Status := (whc_Status empty_whc)\<lparr>st_Conditions :=
     [mk_condition ConditionTypeBaseline ConditionTrue ReasonBaselineRecordingFinished []]\<rparr>\<rparr>"

theorem unreadable_workload_finishes_checks_witness:
  "fst (run_state (AllChecksFinished (unreadable (ref_env baseline_done [] []))) (start_world baseline_done)) = Ret True"
proof (rule unreadable_workload_finishes_checks)
  show "meta_laws (e_meta (unreadable (ref_env baseline_done [] [])))"
    using ref_meta_laws by (simp add: unreadable_def ref_env_def)
  show "wrapper_unregistered (unreadable (ref_env baseline_done [] []))"
    by (simp add: wrapper_unregistered_def unreadable_def ref_env_def)
  show "cond_is (unreadable (ref_env baseline_done [] [])) (w_whc (start_world baseline_done)) ConditionTypeBaseline
      ConditionTrue {ReasonBaselineRecordingFinished, ReasonBaselineRecordingFailed}"
    by (simp add: cond_is_def unreadable_def ref_env_def ref_meta_def start_world_def baseline_done_def mk_condition_def)
qed (simp add: unreadable_def)

end
