(* ===== verification/Namespaces.thy ===== *)
theory Namespaces
  imports WorkloadUtil Reference
begin

text \<open>
  \<open>internal/namespace\<close>: finding the top-level resources of a namespace, cloning a namespace together with
  the cluster role bindings of its service accounts, and deleting a clone. What the discovery client
  finds when the operator starts is a parameter (\<open>e_namespacedResources\<close>), as is the conversion
  of services (\<open>e_FromUnstructured\<close>, \<open>e_ToUnstructured\<close>).
\<close>

section \<open>Resources of a namespace\<close>

definition resourcesToSkip :: "string list" where
  "resourcesToSkip = [''binding'', ''bindings'', ''localsubjectaccessreview'', ''localsubjectaccessreviews'',
     ''endpointslice'', ''endpointslices'', ''endpoint'', ''endpoints'', ''event'', ''events'', ''ingress'',
     ''ingresses'', ''httproute'', ''httproutes'', ''gateway'', ''gateways'', ''podmetric'', ''podmetrics'',
     ''controllerrevision'', ''controllerrevisions'', ''workloadhardeningcheck'', ''workloadhardeningchecks'',
     ''namespacehardeningcheck'', ''namespacehardeningchecks'']"

definition skipped_type :: "APIResource \<Rightarrow> bool" where
  "skipped_type rt \<longleftrightarrow> \<not> ar_Namespaced rt \<or> str_contains (ar_Group rt) ''metrics''
     \<or> List.member resourcesToSkip (to_lower (ar_Kind rt)) \<or> str_contains (ar_Name rt) ''/''"

definition items_of :: "(string, Resource list) gomap \<Rightarrow> string \<Rightarrow> Resource list" where
  "items_of resources k = (case map_of resources k of None \<Rightarrow> [] | Some rs \<Rightarrow> rs)"

fun list_types :: "env \<Rightarrow> string \<Rightarrow> string \<Rightarrow> APIResource list \<Rightarrow> (string, Resource list) gomap \<Rightarrow>
    (string, Resource list) gomap prog" where
  "list_types env namespace gv [] resources = ret resources"
| "list_types env namespace gv (rt # rts) resources =
     (if skipped_type rt then list_types env namespace gv rts resources
      else (case e_ParseGroupVersion env gv of
        Inl e \<Rightarrow> list_types env namespace gv rts resources
      | Inr (apiGroup, version) \<Rightarrow> do {
          let gvr = (apiGroup, version, ar_Name rt);
          r \<leftarrow> ask (EvListResources gvr namespace) (\<lambda>tr. e_ListResources env tr gvr namespace);
          case r of
            Inl e \<Rightarrow> list_types env namespace gv rts resources
          | Inr items \<Rightarrow>
              (if items = [] then list_types env namespace gv rts resources
               else list_types env namespace gv rts
                 (AList.update (ar_Name rt) (items_of resources (ar_Name rt) @ items) resources)) }))"

fun list_groups :: "env \<Rightarrow> string \<Rightarrow> APIResourceList list \<Rightarrow> (string, Resource list) gomap \<Rightarrow>
    (string, Resource list) gomap prog" where
  "list_groups env namespace [] resources = ret resources"
| "list_groups env namespace (l # ls) resources =
     (if arl_APIResources l = [] then list_groups env namespace ls resources
      else do {
        resources' \<leftarrow> list_types env namespace (arl_GroupVersion l) (arl_APIResources l) resources;
        list_groups env namespace ls resources' })"

definition getAllResources :: "env \<Rightarrow> string \<Rightarrow> (string, Resource list) gomap prog" where
  "getAllResources env namespace = list_groups env namespace (e_namespacedResources env) []"

definition unowned :: "Resource \<Rightarrow> bool" where
  "unowned r \<longleftrightarrow> u_OwnerReferences r = []"

definition GetTopLevelResources :: "env \<Rightarrow> string \<Rightarrow> Resource list prog" where
  "GetTopLevelResources env namespace = do {
     allResources \<leftarrow> getAllResources env namespace;
     ord \<leftarrow> map_order env;
     ret (concat (map (\<lambda>k. filter unowned (items_of allResources k)) (ord (gm_keys allResources)))) }"

definition GetSupportedWorkloadResources :: "env \<Rightarrow> string \<Rightarrow> Resource list prog" where
  "GetSupportedWorkloadResources env targetNamespace = do {
     allTopLevelResources \<leftarrow> GetTopLevelResources env targetNamespace;
     if allTopLevelResources = [] then ret []
     else ret (filter IsSupportedUnstructured allTopLevelResources) }"

section \<open>Cluster role bindings\<close>

definition bound_in :: "string \<Rightarrow> Subject \<Rightarrow> bool" where
  "bound_in sourceNamespace s \<longleftrightarrow> sub_Kind s = ''ServiceAccount'' \<and> sub_Namespace s = sourceNamespace"

definition moved_subject :: "string \<Rightarrow> string \<Rightarrow> Subject \<Rightarrow> Subject" where
  "moved_subject src tgt s = (if bound_in src s then s\<lparr>sub_Namespace := tgt\<rparr> else s)"

text \<open>\<open>utilrand.String\<close>, which makes a slice of the given length.\<close>

definition rand_string :: "env \<Rightarrow> int \<Rightarrow> string outcome prog" where
  "rand_string env n =
     (if n < 0 then ret (Panic ''makeslice: len out of range'')
      else ask (EvRand (nat n)) (\<lambda>tr. Ret (e_randString env tr (nat n))))"

definition cloned_name :: "env \<Rightarrow> string \<Rightarrow> string \<Rightarrow> string outcome prog" where
  "cloned_name env name targetNamespace = do {
     let roleBindingName = name @ ''-'' @ targetNamespace;
     if length roleBindingName > 250 then do {
       let suffixLength = (if length name > 245 then 253 - int (length name) else 10);
       attempt (rand_string env suffixLength) (\<lambda>s. do {
         let short = name @ ''-'' @ s;
         ret (Ret (if length short > 253 then take 253 short else short)) }) }
     else ret (Ret roleBindingName) }"

definition cloned_binding :: "string \<Rightarrow> string \<Rightarrow> string \<Rightarrow> string \<Rightarrow> ClusterRoleBinding \<Rightarrow> ClusterRoleBinding" where
  "cloned_binding src tgt suffix name crb = crb\<lparr>
     crb_ResourceVersion := [], crb_SelfLink := [], crb_UID := [], crb_Generation := 0, crb_Name := name,
     crb_Labels := AList.update LabelSuffix suffix (AList.update LabelTargetNamespace tgt
       (AList.update LabelSourceNamespace src (AList.update LabelManagedBy ManagedByValue (crb_Labels crb)))),
     crb_Subjects := map (moved_subject src tgt) (crb_Subjects crb)\<rparr>"

fun clone_bindings :: "env \<Rightarrow> string \<Rightarrow> string \<Rightarrow> string \<Rightarrow> ClusterRoleBinding list \<Rightarrow> nat \<Rightarrow>
    (nat \<times> error option) outcome prog" where
  "clone_bindings env src tgt suffix [] n = ret (Ret (n, None))"
| "clone_bindings env src tgt suffix (crb # crbs) n =
     (if list_ex (bound_in src) (crb_Subjects crb) then
        attempt (cloned_name env (crb_Name crb) tgt) (\<lambda>name. do {
          let clone = cloned_binding src tgt suffix name crb;
          e \<leftarrow> ask (EvCreateCRB clone) (\<lambda>tr. e_CreateCRB env tr clone);
          case e of
            Some err \<Rightarrow> ret (Ret (Suc n, Some (Wrapf (''error creating cluster role binding '' @ crb_Name crb) err)))
          | None \<Rightarrow> clone_bindings env src tgt suffix crbs (Suc n) })
      else clone_bindings env src tgt suffix crbs n)"

text \<open>The error of the list call is dropped; the list is then empty.\<close>

definition cloneClusterRoleBindings :: "env \<Rightarrow> string \<Rightarrow> string \<Rightarrow> string \<Rightarrow> (nat \<times> error option) outcome prog" where
  "cloneClusterRoleBindings env src tgt suffix = do {
     r \<leftarrow> ask (EvListCRBs []) (\<lambda>tr. e_ListCRBs env tr []);
     clone_bindings env src tgt suffix (case r of Inl e \<Rightarrow> [] | Inr crbs \<Rightarrow> crbs) 0 }"

section \<open>Clone\<close>

definition automatic_resource :: "Resource \<Rightarrow> bool" where
  "automatic_resource r \<longleftrightarrow> u_Kind r = ''ServiceAccount'' \<and> u_Name r = ''default''
     \<or> u_Kind r = ''ConfigMap'' \<and> u_Name r = ''kube-root-ca.crt''"

definition cleaned :: "string \<Rightarrow> Resource \<Rightarrow> Resource" where
  "cleaned tgt r = r\<lparr>u_ResourceVersion := [], u_SelfLink := [], u_Generation := 0, u_UID := [], u_Namespace := tgt\<rparr>"

definition unbound_claim :: "Resource \<Rightarrow> Resource outcome" where
  "unbound_claim r =
     (if u_Kind r = ''PersistentVolumeClaim'' then
        (case u_Spec r of
           None \<Rightarrow> Panic ''interface conversion: spec is not a map''
         | Some spec \<Rightarrow> Ret (r\<lparr>u_Annotations := [], u_Spec := Some (AList.update ''volumeName'' [] spec)\<rparr>))
      else Ret r)"

definition without_addresses :: "Service \<Rightarrow> Service" where
  "without_addresses svc = svc\<lparr>svc_ClusterIP := [], svc_ClusterIPs := [], svc_ExternalIPs := [], svc_LoadBalancerIP := []\<rparr>"

definition released_service :: "env \<Rightarrow> Resource \<Rightarrow> Resource outcome" where
  "released_service env r =
     (if u_Kind r = ''Service'' then
        (case e_FromUnstructured env r of
           None \<Rightarrow> Panic ''nil pointer dereference''
         | Some svc \<Rightarrow> Ret (e_ToUnstructured env (without_addresses svc)))
      else Ret r)"

definition rebound :: "string \<Rightarrow> string \<Rightarrow> (string, string) gomap \<Rightarrow> (string, string) gomap" where
  "rebound src tgt s =
     (if map_of s ''kind'' = Some ''ServiceAccount'' \<and> map_of s ''namespace'' = Some src
      then AList.update ''namespace'' tgt s else s)"

definition rebound_subjects :: "string \<Rightarrow> string \<Rightarrow> Resource \<Rightarrow> Resource outcome" where
  "rebound_subjects src tgt r =
     (if u_Kind r = ''RoleBinding'' then
        (case u_Subjects r of
           None \<Rightarrow> Panic ''interface conversion: subjects is not a list''
         | Some ss \<Rightarrow> Ret (r\<lparr>u_Subjects := Some (map (rebound src tgt) ss)\<rparr>))
      else Ret r)"

definition cloned_resource :: "env \<Rightarrow> string \<Rightarrow> string \<Rightarrow> Resource \<Rightarrow> Resource outcome" where
  "cloned_resource env src tgt r =
     bind_outcome (unbound_claim (cleaned tgt r)) (\<lambda>r1.
     bind_outcome (released_service env r1) (rebound_subjects src tgt))"

text \<open>A resource that cannot be created is only counted.\<close>

fun clone_resources :: "env \<Rightarrow> string \<Rightarrow> string \<Rightarrow> Resource list \<Rightarrow> unit outcome prog" where
  "clone_resources env src tgt [] = ret (Ret ())"
| "clone_resources env src tgt (r # rs) =
     (if automatic_resource r then clone_resources env src tgt rs
      else attempt (ret (cloned_resource env src tgt r)) (\<lambda>c. do {
        e \<leftarrow> ask (EvCreateResource c) (\<lambda>tr. e_CreateResource env tr c);
        clone_resources env src tgt rs }))"

definition clone_namespace :: "string \<Rightarrow> string \<Rightarrow> string \<Rightarrow> Namespace" where
  "clone_namespace src tgt suffix = \<lparr>nsp_Name = tgt,
     nsp_Labels = [(''app.kubernetes.io/name'', tgt), (LabelManagedBy, ManagedByValue),
       (LabelSourceNamespace, src), (LabelSuffix, suffix)],
     nsp_CreationTimestamp = 0, nsp_Owners = []\<rparr>"

definition clone_into :: "env \<Rightarrow> string \<Rightarrow> string \<Rightarrow> string \<Rightarrow> error option outcome prog" where
  "clone_into env src tgt suffix = do {
     topLevelResources \<leftarrow> GetTopLevelResources env src;
     let targetNs = clone_namespace src tgt suffix;
     e \<leftarrow> ask (EvCreateNamespace targetNs) (\<lambda>tr. e_CreateNamespace env tr targetNs);
     case e of
       Some err \<Rightarrow> ret (Ret (Some (Wrapf ''error creating target namespace'' err)))
     | None \<Rightarrow> attempt (cloneClusterRoleBindings env src tgt suffix) (\<lambda>(n, e').
         case e' of
           Some err \<Rightarrow> ret (Ret (Some (Wrapf ''error cloning cluster role bindings'' err)))
         | None \<Rightarrow> attempt (clone_resources env src tgt topLevelResources) (\<lambda>_. ret (Ret None))) }"

definition Clone :: "env \<Rightarrow> string \<Rightarrow> string \<Rightarrow> string \<Rightarrow> error option outcome prog" where
  "Clone env sourceNamespace targetNamespace suffix = do {
     r \<leftarrow> ask (EvGetNamespace targetNamespace) (\<lambda>tr. e_GetNamespace env tr targetNamespace);
     case r of
       Inr ns \<Rightarrow> ret (Ret (Some (Errorf (''target namespace already exists '' @ targetNamespace))))
     | Inl e \<Rightarrow>
         (if \<not> IsNotFound e then ret (Ret (Some (Wrapf ''error fetching namespace'' e)))
          else clone_into env sourceNamespace targetNamespace suffix) }"

section \<open>Delete\<close>

definition clone_selector :: "string \<Rightarrow> label_set" where
  "clone_selector tgt = [(LabelTargetNamespace, tgt)]"

definition delete_binding :: "env \<Rightarrow> ClusterRoleBinding \<Rightarrow> unit prog" where
  "delete_binding env crb = do {
     e \<leftarrow> ask (EvDeleteCRB crb) (\<lambda>tr. e_DeleteCRB env tr crb);
     ret () }"

definition Delete :: "env \<Rightarrow> string \<Rightarrow> error option prog" where
  "Delete env targetNamespace = do {
     r \<leftarrow> ask (EvGetNamespace targetNamespace) (\<lambda>tr. e_GetNamespace env tr targetNamespace);
     case r of
       Inl e \<Rightarrow> (if IsNotFound e then ret None else ret (Some e))
     | Inr targetNs \<Rightarrow> do {
         e \<leftarrow> ask (EvDeleteNamespace targetNs) (\<lambda>tr. e_DeleteNamespace env tr targetNs);
         case e of
           Some err \<Rightarrow> ret (Some err)
         | None \<Rightarrow> do {
             l \<leftarrow> ask (EvListCRBs (clone_selector targetNamespace)) (\<lambda>tr. e_ListCRBs env tr (clone_selector targetNamespace));
             case l of
               Inl err \<Rightarrow> ret (Some err)
             | Inr crbs \<Rightarrow> do { for_each crbs (delete_binding env); ret None } } } }"

section \<open>What cloning touches\<close>

text \<open>Documented of the converter: the metadata of a service survives the two conversions.\<close>

definition service_conversion :: "env \<Rightarrow> bool" where
  "service_conversion env \<longleftrightarrow> (\<forall>r svc. e_FromUnstructured env r = Some svc \<longrightarrow>
     (let r' = e_ToUnstructured env (without_addresses svc) in
        u_Namespace r' = u_Namespace r \<and> u_Kind r' = u_Kind r
        \<and> u_ResourceVersion r' = u_ResourceVersion r \<and> u_UID r' = u_UID r))"

definition detached_subjects :: "string \<Rightarrow> Resource \<Rightarrow> bool" where
  "detached_subjects src r \<longleftrightarrow> (u_Kind r = ''RoleBinding'' \<longrightarrow>
     (\<exists>ss. u_Subjects r = Some ss \<and> (\<forall>s \<in> set ss.
        \<not> (map_of s ''kind'' = Some ''ServiceAccount'' \<and> map_of s ''namespace'' = Some src))))"

definition labelled :: "string \<Rightarrow> ClusterRoleBinding \<Rightarrow> bool" where
  "labelled tgt b \<longleftrightarrow> map_of (crb_Labels b) LabelTargetNamespace = Some tgt"

definition clones :: "string \<Rightarrow> string \<Rightarrow> event \<Rightarrow> bool" where
  "clones src tgt ev = (case ev of
     EvGetNamespace n \<Rightarrow> n = tgt
   | EvListResources g ns \<Rightarrow> ns = src
   | EvListCRBs sel \<Rightarrow> sel = []
   | EvRand n \<Rightarrow> True
   | EvCreateNamespace x \<Rightarrow> nsp_Name x = tgt \<and> map_of (nsp_Labels x) LabelManagedBy = Some ManagedByValue
       \<and> map_of (nsp_Labels x) LabelSourceNamespace = Some src
   | EvCreateCRB b \<Rightarrow> labelled tgt b \<and> map_of (crb_Labels b) LabelManagedBy = Some ManagedByValue
       \<and> \<not> list_ex (bound_in src) (crb_Subjects b) \<and> crb_UID b = [] \<and> crb_ResourceVersion b = []
   | EvCreateResource r \<Rightarrow> u_Namespace r = tgt \<and> u_UID r = [] \<and> u_ResourceVersion r = [] \<and> detached_subjects src r
   | _ \<Rightarrow> False)"

lemma labels_distinct:
  "LabelManagedBy \<noteq> LabelSourceNamespace" "LabelManagedBy \<noteq> LabelTargetNamespace" "LabelManagedBy \<noteq> LabelSuffix"
  "LabelSourceNamespace \<noteq> LabelTargetNamespace" "LabelSourceNamespace \<noteq> LabelSuffix"
  "LabelTargetNamespace \<noteq> LabelSuffix" "LabelManagedBy \<noteq> ''app.kubernetes.io/name''"
  "LabelSourceNamespace \<noteq> ''app.kubernetes.io/name''"
  by (simp_all add: label_consts)

lemma cloned_binding_clones:
  "src \<noteq> tgt \<Longrightarrow> clones src tgt (EvCreateCRB (cloned_binding src tgt suffix name b))"
  using labels_distinct
  by (auto simp: clones_def cloned_binding_def labelled_def update_conv' list_ex_iff moved_subject_def bound_in_def)

lemma clone_namespace_clones: "clones src tgt (EvCreateNamespace (clone_namespace src tgt suffix))"
  using labels_distinct by (auto simp: clones_def clone_namespace_def)

lemma cloned_resource_clones:
  assumes "service_conversion env" "src \<noteq> tgt" "cloned_resource env src tgt r = Ret c"
  shows "clones src tgt (EvCreateResource c)"
proof -
  obtain r1 r2 where r1: "unbound_claim (cleaned tgt r) = Ret r1" and r2: "released_service env r1 = Ret r2"
    and c: "rebound_subjects src tgt r2 = Ret c"
    using assms(3) by (auto simp: cloned_resource_def bind_outcome_Ret_iff)
  have "u_Namespace r1 = tgt" "u_UID r1 = []" "u_ResourceVersion r1 = []"
    using r1 by (auto simp: unbound_claim_def cleaned_def split: if_splits option.splits)
  then have "u_Namespace r2 = tgt" "u_UID r2 = []" "u_ResourceVersion r2 = []"
    using r2 assms(1) by (auto simp: released_service_def service_conversion_def Let_def split: if_splits option.splits)
  moreover have "detached_subjects src c"
    using c assms(2) by (auto simp: rebound_subjects_def detached_subjects_def rebound_def update_conv' split: if_splits option.splits)
  ultimately show ?thesis
    using c by (auto simp: clones_def rebound_subjects_def split: if_splits option.splits)
qed

lemma keeps_list_types:
  "(\<And>g. P (EvListResources g ns)) \<Longrightarrow> (\<And>w tr. I w \<Longrightarrow> I (w\<lparr>w_trace := tr\<rparr>)) \<Longrightarrow>
   keeps I P (list_types env ns gv rts rs)"
  by (induction rts arbitrary: rs) (auto simp: Let_def intro!: emits_intros)

lemma keeps_list_groups:
  "(\<And>g. P (EvListResources g ns)) \<Longrightarrow> (\<And>w tr. I w \<Longrightarrow> I (w\<lparr>w_trace := tr\<rparr>)) \<Longrightarrow>
   keeps I P (list_groups env ns ls rs)"
  by (induction ls arbitrary: rs) (auto intro!: emits_intros keeps_list_types)

lemma keeps_GetTopLevelResources:
  assumes "\<And>g. P (EvListResources g ns)" "\<And>w tr. I w \<Longrightarrow> I (w\<lparr>w_trace := tr\<rparr>)"
  shows "keeps I P (GetTopLevelResources env ns)"
  unfolding GetTopLevelResources_def getAllResources_def
  by (intro emits_intros keeps_list_groups assms)

lemma keeps_clone_bindings:
  assumes "src \<noteq> tgt" "\<And>w tr. I w \<Longrightarrow> I (w\<lparr>w_trace := tr\<rparr>)"
  shows "keeps I (clones src tgt) (clone_bindings env src tgt suffix crbs n)"
proof -
  have rand: "clones src tgt (EvRand k)" for k by (simp add: clones_def)
  show ?thesis
    by (induction crbs arbitrary: n)
      (auto simp: cloned_name_def rand_string_def Let_def
        intro!: emits_intros cloned_binding_clones assms rand)
qed

lemma keeps_clone_resources:
  assumes "service_conversion env" "src \<noteq> tgt" "\<And>w tr. I w \<Longrightarrow> I (w\<lparr>w_trace := tr\<rparr>)"
  shows "keeps I (clones src tgt) (clone_resources env src tgt rs)"
proof (induction rs)
  case Nil
  then show ?case by (simp add: keeps_ret)
next
  case (Cons r rs)
  show ?case
  proof (cases "cloned_resource env src tgt r")
    case (Ret c)
    have "keeps I (clones src tgt) (do {
        e \<leftarrow> ask (EvCreateResource c) (\<lambda>tr. e_CreateResource env tr c); clone_resources env src tgt rs })"
      by (intro emits_intros cloned_resource_clones [OF assms(1,2) Ret] assms(3) Cons)
    then show ?thesis using Cons Ret by (simp add: attempt_def)
  qed (use Cons in \<open>simp_all add: attempt_def keeps_ret\<close>)
qed

lemma keeps_Clone:
  assumes "service_conversion env" "src \<noteq> tgt" "\<And>w tr. I w \<Longrightarrow> I (w\<lparr>w_trace := tr\<rparr>)"
  shows "keeps I (clones src tgt) (Clone env src tgt suffix)"
proof -
  have reads: "clones src tgt (EvGetNamespace tgt)" "clones src tgt (EvListCRBs [])"
    "clones src tgt (EvListResources g src)" for g by (simp_all add: clones_def)
  show ?thesis
    unfolding Clone_def clone_into_def cloneClusterRoleBindings_def Let_def
    by (intro emits_intros reads keeps_GetTopLevelResources keeps_clone_bindings keeps_clone_resources
        clone_namespace_clones assms)
qed

text \<open>
  C4. Cloning reads the source namespace and the cluster role bindings and creates; it changes nothing that
  exists. Everything it creates is the target namespace, lies in it, or is a binding labelled with it,
  under an identity of its own; the namespace and the bindings are marked as managed by the operator, and
  neither a cloned binding nor a cloned role binding still binds a service account of the source. If the
  target exists already, cloning fails before it creates anything.
\<close>

theorem Clone_confined:
  assumes "service_conversion env" and "src \<noteq> tgt"
  shows "(\<exists>evs. w_trace (snd (run_state (Clone env src tgt suffix) w)) = w_trace w @ evs
      \<and> (\<forall>ev \<in> set evs. clones src tgt ev))
    \<and> (\<forall>ns. e_GetNamespace env (w_trace w) tgt = Inr ns \<longrightarrow>
         w_trace (snd (run_state (Clone env src tgt suffix) w)) = w_trace w @ [EvGetNamespace tgt]
         \<and> (\<exists>e. fst (run_state (Clone env src tgt suffix) w) = Ret (Some e)))"
proof (intro conjI)
  show "\<exists>evs. w_trace (snd (run_state (Clone env src tgt suffix) w)) = w_trace w @ evs
      \<and> (\<forall>ev \<in> set evs. clones src tgt ev)"
    by (rule stepsD_trace [OF keeps_Clone [OF assms, of anywhere] anywhere]) simp
  show "\<forall>ns. e_GetNamespace env (w_trace w) tgt = Inr ns \<longrightarrow>
         w_trace (snd (run_state (Clone env src tgt suffix) w)) = w_trace w @ [EvGetNamespace tgt]
         \<and> (\<exists>e. fst (run_state (Clone env src tgt suffix) w) = Ret (Some e))"
    by (simp add: Clone_def run_simps)
qed

lemma ref_env_service_conversion: "service_conversion (ref_env x nss pods)"
  by (simp add: service_conversion_def ref_env_def without_addresses_def)

theorem Clone_confined_witness:
  "\<exists>evs. w_trace (snd (run_state (Clone (ref_env empty_whc [] []) ''apps'' ''apps-abc'' ''abc'') (start_world empty_whc))) = evs
    \<and> (\<forall>ev \<in> set evs. clones ''apps'' ''apps-abc'' ev)"
  using Clone_confined [OF ref_env_service_conversion [of empty_whc "[]" "[]"], of "''apps''" "''apps-abc''" "''abc''"
      "start_world empty_whc"] by (simp add: start_world_def)

section \<open>Deleting a clone\<close>

text \<open>
  A cluster that keeps the bindings it is told to create and to delete, under distinct names, and answers
  list calls from what it keeps.
\<close>

fun binding_step :: "ClusterRoleBinding list \<Rightarrow> event \<Rightarrow> ClusterRoleBinding list" where
  "binding_step bs (EvCreateCRB b) = (if crb_Name b \<in> crb_Name ` set bs then bs else bs @ [b])"
| "binding_step bs (EvDeleteCRB b) = filter (\<lambda>c. crb_Name c \<noteq> crb_Name b) bs"
| "binding_step bs _ = bs"

definition bindings_after :: "ClusterRoleBinding list \<Rightarrow> trace \<Rightarrow> ClusterRoleBinding list" where
  "bindings_after bs tr = foldl binding_step bs tr"

lemma bindings_after_simps [simp]:
  "bindings_after bs [] = bs" "bindings_after bs (ev # tr) = bindings_after (binding_step bs ev) tr"
  by (simp_all add: bindings_after_def)

definition selected :: "label_set \<Rightarrow> ClusterRoleBinding \<Rightarrow> bool" where
  "selected sel b \<longleftrightarrow> (\<forall>(k, v) \<in> set sel. map_of (crb_Labels b) k = Some v)"

definition keeps_bindings :: "env \<Rightarrow> ClusterRoleBinding list \<Rightarrow> bool" where
  "keeps_bindings env bs \<longleftrightarrow> (\<forall>tr sel. e_ListCRBs env tr sel = Inr (filter (selected sel) (bindings_after bs tr)))"

lemma selected_clone_selector: "selected (clone_selector tgt) = labelled tgt"
  by (rule ext) (simp add: selected_def clone_selector_def labelled_def)

lemma bindings_after_append: "bindings_after bs (tr @ tr') = bindings_after (bindings_after bs tr) tr'"
  by (simp add: bindings_after_def)

lemma distinct_map_filter: "distinct (map f xs) \<Longrightarrow> distinct (map f (filter P xs))"
  by (induction xs) auto

lemma binding_step_distinct: "distinct (map crb_Name bs) \<Longrightarrow> distinct (map crb_Name (binding_step bs ev))"
  by (cases ev) (simp_all add: distinct_map_filter)

lemma bindings_after_distinct:
  "distinct (map crb_Name bs) \<Longrightarrow> distinct (map crb_Name (bindings_after bs tr))"
  by (induction tr arbitrary: bs) (simp_all add: binding_step_distinct)

lemma binding_step_clones:
  "clones src tgt ev \<Longrightarrow> filter (\<lambda>b. \<not> labelled tgt b) (binding_step bs ev) = filter (\<lambda>b. \<not> labelled tgt b) bs"
  by (cases ev) (simp_all add: clones_def)

lemma bindings_after_clones:
  "(\<forall>ev \<in> set evs. clones src tgt ev) \<Longrightarrow>
   filter (\<lambda>b. \<not> labelled tgt b) (bindings_after bs evs) = filter (\<lambda>b. \<not> labelled tgt b) bs"
  by (induction evs arbitrary: bs) (auto dest: binding_step_clones)

lemma bindings_after_deletes:
  "bindings_after bs (map EvDeleteCRB ds) = filter (\<lambda>b. crb_Name b \<notin> crb_Name ` set ds) bs"
  by (induction ds arbitrary: bs) (auto intro: filter_cong)

lemma delete_selected:
  assumes "distinct (map crb_Name bs)"
  shows "bindings_after bs (map EvDeleteCRB (filter P bs)) = filter (\<lambda>b. \<not> P b) bs"
  unfolding bindings_after_deletes using assms
  by (intro filter_cong) (auto simp: distinct_map inj_on_def)

text \<open>The calls of \<open>Delete\<close>.\<close>

lemma run_delete_bindings:
  "run_state (for_each crbs (delete_binding env)) w = ((), w\<lparr>w_trace := w_trace w @ map EvDeleteCRB crbs\<rparr>)"
  by (induction crbs arbitrary: w) (simp_all add: delete_binding_def run_simps)

definition delete_calls :: "env \<Rightarrow> trace \<Rightarrow> string \<Rightarrow> trace" where
  "delete_calls env tr tgt = EvGetNamespace tgt #
     (case e_GetNamespace env tr tgt of
        Inl e \<Rightarrow> []
      | Inr ns \<Rightarrow> EvDeleteNamespace ns #
          (case e_DeleteNamespace env (tr @ [EvGetNamespace tgt]) ns of
             Some e \<Rightarrow> []
           | None \<Rightarrow> EvListCRBs (clone_selector tgt) #
               (case e_ListCRBs env (tr @ [EvGetNamespace tgt, EvDeleteNamespace ns]) (clone_selector tgt) of
                  Inl e \<Rightarrow> []
                | Inr crbs \<Rightarrow> map EvDeleteCRB crbs)))"

lemma Delete_calls: "w_trace (snd (run_state (Delete env tgt) w)) = w_trace w @ delete_calls env (w_trace w) tgt"
  by (simp add: Delete_def delete_calls_def run_bind run_ask run_ret run_delete_bindings run_state_case_sum
      run_state_case_option run_state_if split: sum.splits option.splits)

lemma Delete_result_None:
  assumes "fst (run_state (Delete env tgt) w) = None" "e_GetNamespace env (w_trace w) tgt = Inr ns"
  shows "\<exists>crbs. e_ListCRBs env (w_trace w @ [EvGetNamespace tgt, EvDeleteNamespace ns]) (clone_selector tgt) = Inr crbs
    \<and> delete_calls env (w_trace w) tgt =
        [EvGetNamespace tgt, EvDeleteNamespace ns, EvListCRBs (clone_selector tgt)] @ map EvDeleteCRB crbs"
  using assms
  by (auto simp: Delete_def delete_calls_def run_bind run_ask run_ret run_delete_bindings run_state_case_sum
      run_state_case_option split: sum.splits option.splits)


definition web_binding :: ClusterRoleBinding where
  "web_binding = \<lparr>crb_Name = ''web-reader'', crb_Labels = [], crb_ResourceVersion = ''7'', crb_SelfLink = [], crb_UID = ''u1'',
     crb_Generation = 1, crb_Subjects = [\<lparr>sub_Kind = ''ServiceAccount'', sub_Name = ''web'', sub_Namespace = ''apps''\<rparr>],
     crb_other = []\<rparr>"

definition binding_env :: env where
  "binding_env = (ref_env empty_whc [] [])\<lparr>e_ListCRBs := \<lambda>tr sel. Inr (filter (selected sel) (bindings_after [web_binding] tr))\<rparr>"


text \<open>
  The name of a cloned binding never panics for a source name of at most 253 bytes and is never longer
  than 253 bytes itself; it differs from the name of the original, except for an original of exactly
  253 bytes, whose clone gets the same name, so that creating it collides and cloning fails.
\<close>

theorem cloned_name_bounds:
  assumes "\<And>tr k. length (e_randString env tr k) = k" and "length name \<le> 253"
  shows "\<exists>s. fst (run_state (cloned_name env name tgt) w) = Ret s \<and> length s \<le> 253 \<and> (s = name \<longleftrightarrow> length name = 253)"
proof -
  have neq: "xs \<noteq> name" if "length xs \<noteq> length name" for xs using that by auto
  show ?thesis using assms
    by (auto simp: cloned_name_def rand_string_def run_simps Let_def intro!: neq)
qed

theorem cloned_name_bounds_witness:
  "\<exists>s. fst (run_state (cloned_name (ref_env empty_whc [] []) (replicate 253 CHR ''b'') ''apps-abc'') (start_world empty_whc)) = Ret s
    \<and> s = replicate 253 CHR ''b''"
proof -
  have "length (e_randString (ref_env empty_whc [] []) tr k) = k" for tr k by (simp add: ref_env_def)
  from cloned_name_bounds [OF this, of "replicate 253 CHR ''b''" "''apps-abc''" "start_world empty_whc"]
  show ?thesis by auto
qed

end
