(* ===== verification/Recording.thy ===== *)
theory Recording
  imports WhcOps
begin

text \<open>
  \<open>internal/recording\<close>: recording the logs and the resource usage of the pods of a workload, and the
  recorder of a running workload. Loops that wait for the cluster run on fuel (\<open>NoReturn\<close> when it is used
  up). Goroutines are interleaved: \<open>e_next\<close> picks, from the calls made so far, the one that goes on next.
  A goroutine takes one step per round: a log request, or one round of the metrics loop.
\<close>

section \<open>Waiting for pods\<close>

definition assigned :: "Pod list \<Rightarrow> bool" where
  "assigned pods \<longleftrightarrow> list_all (\<lambda>p. pd_NodeName p \<noteq> []) pods"

text \<open>The loop \<open>PodsAssigned\<close> of \<open>RecordLogs\<close>, \<open>RecordMetrics\<close> and \<open>Record\<close>; without pods it does not sleep.\<close>

fun wait_pods :: "nat \<Rightarrow> env \<Rightarrow> string \<Rightarrow> opaque \<Rightarrow> (error + Pod list) outcome prog" where
  "wait_pods 0 env ns selector = ret NoReturn"
| "wait_pods (Suc fuel) env ns selector = do {
     r \<leftarrow> list_pods env ns selector;
     case r of
       Inl e \<Rightarrow> ret (Ret (Inl e))
     | Inr pods \<Rightarrow>
         (if pods = [] then wait_pods fuel env ns selector
          else if assigned pods then ret (Ret (Inr pods))
          else do { emit (EvSleep (int Second)); wait_pods fuel env ns selector }) }"

section \<open>Logs\<close>

definition GetLogs :: "env \<Rightarrow> Pod \<Rightarrow> string \<Rightarrow> bool \<Rightarrow> (error + string) prog" where
  "GetLogs env p containerName previous =
     ask (EvGetLogs (pd_Namespace p) (pd_Name p) containerName previous)
       (\<lambda>tr. e_GetLogs env tr (pd_Namespace p) (pd_Name p) containerName previous)"

type_synonym log_map = "(string, string list) gomap"

definition log_lines :: "log_map \<Rightarrow> string \<Rightarrow> string list" where
  "log_lines m k = (case map_of m k of None \<Rightarrow> [] | Some ls \<Rightarrow> ls)"

text \<open>A request of a pod's goroutine: the container and the key its lines are collected under.\<close>

type_synonym log_task = "Pod \<times> string \<times> string"

definition pod_tasks :: "Pod \<Rightarrow> log_task list" where
  "pod_tasks p = map (\<lambda>c. (p, c, c)) (pd_Containers p) @ map (\<lambda>c. (p, c, ''init:'' @ c)) (pd_InitContainers p)"

fun log_step :: "env \<Rightarrow> bool \<Rightarrow> log_task \<Rightarrow> log_map \<Rightarrow> log_map prog" where
  "log_step env previous (p, c, k) m = do {
     r \<leftarrow> GetLogs env p c previous;
     case r of
       Inl e \<Rightarrow> ret m
     | Inr log \<Rightarrow> ret (AList.update k (log_lines m k @ str_split (CHR 0x0A) log) m) }"

definition next_of :: "env \<Rightarrow> nat \<Rightarrow> nat prog" where
  "next_of env n = gets (\<lambda>w. e_next env (w_trace w) n mod n)"

fun run_tasks :: "nat \<Rightarrow> env \<Rightarrow> bool \<Rightarrow> log_task list list \<Rightarrow> log_map \<Rightarrow> log_map prog" where
  "run_tasks 0 env previous queues m = ret m"
| "run_tasks (Suc n) env previous queues m =
     (let qs = filter (\<lambda>q. q \<noteq> []) queues in
      if qs = [] then ret m
      else do {
        i \<leftarrow> next_of env (length qs);
        m' \<leftarrow> log_step env previous (hd (qs ! i)) m;
        run_tasks n env previous (qs[i := tl (qs ! i)]) m' })"

definition RecordLogs :: "nat \<Rightarrow> env \<Rightarrow> string \<Rightarrow> opaque \<Rightarrow> bool \<Rightarrow> (error + log_map) outcome prog" where
  "RecordLogs fuel env ns selector previous =
     attempt (wait_pods fuel env ns selector) (\<lambda>r. case r of
         Inl e \<Rightarrow> ret (Ret (Inl e))
       | Inr pods \<Rightarrow> do {
           let queues = map pod_tasks pods;
           m \<leftarrow> run_tasks (sum_list (map length queues)) env previous queues [];
           ret (Ret (Inr m)) })"

section \<open>Resource usage\<close>

record RecordedMetrics =
  rm_Pod :: string
  rm_Start :: int
  rm_End :: int
  rm_Interval :: nat
  rm_Duration :: int
  rm_Usage :: "(int, ResourceUsageRecord) gomap"

definition metricsRecordingInterval :: nat where "metricsRecordingInterval = 15"

definition getNodes :: "env \<Rightarrow> (error + string list) prog" where
  "getNodes env = ask EvListNodes (e_ListNodes env)"

text \<open>\<open>None\<close> is a node that sends nothing: it could not be asked or its answer not be read.\<close>

definition refreshPodMetricsPerNode :: "env \<Rightarrow> string \<Rightarrow> (string, PodStats) gomap option prog" where
  "refreshPodMetricsPerNode env nodeName = ask (EvNodeStats nodeName) (\<lambda>tr.
     map_option (\<lambda>pods. fold (\<lambda>(uid, s) m. AList.update uid s m) pods []) (e_NodeStats env tr nodeName))"

fun refresh_nodes :: "env \<Rightarrow> string list \<Rightarrow> (string, PodStats) gomap \<Rightarrow> (string, PodStats) gomap prog" where
  "refresh_nodes env [] m = ret m"
| "refresh_nodes env (n # ns) m = do {
     r \<leftarrow> refreshPodMetricsPerNode env n;
     refresh_nodes env ns (case r of None \<Rightarrow> m | Some new \<Rightarrow> fold (\<lambda>(k, v) m. AList.update k v m) new m) }"

definition fresh_metrics :: "int \<Rightarrow> int option \<Rightarrow> bool" where
  "fresh_metrics now lastUpdate = (case lastUpdate of None \<Rightarrow> False | Some t \<Rightarrow> longer (dur (10 * Second)) (since now t))"

definition refreshPodMetrics :: "env \<Rightarrow> error option prog" where
  "refreshPodMetrics env = do {
     lastUpdate \<leftarrow> gets w_podMetricsLastUpdate;
     now \<leftarrow> ask EvNow (e_now env);
     if fresh_metrics now lastUpdate then ret None
     else do {
       r \<leftarrow> getNodes env;
       case r of
         Inl e \<Rightarrow> ret (Some e)
       | Inr nodes \<Rightarrow> do {
           ord \<leftarrow> map_order env;
           newPodMetrics \<leftarrow> refresh_nodes env (ord nodes) [];
           now' \<leftarrow> ask EvNow (e_now env);
           modify (\<lambda>w. w\<lparr>w_podMetricsLastUpdate := Some now', w_podMetrics := newPodMetrics\<rparr>);
           ret None } } }"

definition getPodResourceUsage :: "Pod \<Rightarrow> (error + PodStats) prog" where
  "getPodResourceUsage p = do {
     lastUpdate \<leftarrow> gets w_podMetricsLastUpdate;
     m \<leftarrow> gets w_podMetrics;
     ret (if lastUpdate = None then Inl (Errorf (''pod '' @ pd_Name p @ '': pod metrics not initialized''))
          else (case map_of m (pd_UID p) of
             Some s \<Rightarrow> Inr s
           | None \<Rightarrow> Inl (Errorf (''pod '' @ pd_Name p @ '': pod not found in metrics'')))) }"

datatype recorder = Starting Pod | Recorder Pod int "(int, ResourceUsageRecord) gomap"

type_synonym usage_map = "(int, ResourceUsageRecord) gomap"

definition recorded :: "env \<Rightarrow> Duration \<Rightarrow> Pod \<Rightarrow> int \<Rightarrow> usage_map \<Rightarrow> (recorder + RecordedMetrics option) outcome prog" where
  "recorded env duration p start usage = do {
     end_time \<leftarrow> ask EvNow (e_now env);
     ret (Ret (Inr (Some \<lparr>rm_Pod = pd_Name p, rm_Start = start, rm_End = end_time,
       rm_Interval = metricsRecordingInterval, rm_Duration = sint duration, rm_Usage = usage\<rparr>))) }"

definition sample :: "env \<Rightarrow> Duration \<Rightarrow> bool \<Rightarrow> Pod \<Rightarrow> int \<Rightarrow> usage_map \<Rightarrow> PodStats \<Rightarrow>
    (recorder + RecordedMetrics option) outcome prog" where
  "sample env duration lastLoop p start usage stats = do {
     t \<leftarrow> ask EvNow (e_now env);
     (case (ps_CPU stats, ps_Memory stats) of
        (Some cpu, Some memory) \<Rightarrow> do {
          let usage' = AList.update t \<lparr>rur_Time = t, rur_CpuNanoCores = cpu, rur_MemoryBytes = memory\<rparr> usage;
          if lastLoop then recorded env duration p start usage'
          else do { emit (EvSleep (int (metricsRecordingInterval * Second))); ret (Ret (Inl (Recorder p start usage'))) } }
      | _ \<Rightarrow> ret (Panic ''nil pointer dereference'')) }"

text \<open>One step of \<open>recordPodMetrics\<close>: taking the start time, or one round of its loop.\<close>

fun recorder_step :: "env \<Rightarrow> Duration \<Rightarrow> recorder \<Rightarrow> (recorder + RecordedMetrics option) outcome prog" where
  "recorder_step env duration (Starting p) = do {
     start \<leftarrow> ask EvNow (e_now env);
     ret (Ret (Inl (Recorder p start []))) }"
| "recorder_step env duration (Recorder p start usage) = do {
     now \<leftarrow> ask EvNow (e_now env);
     let lastLoop = (\<not> longer duration (since now start));
     if pd_NodeName p = [] then ret (Ret (Inr None))
     else do {
       e \<leftarrow> refreshPodMetrics env;
       case e of
         Some err \<Rightarrow> ret (Ret (Inr None))
       | None \<Rightarrow> do {
           r \<leftarrow> getPodResourceUsage p;
           case r of
             Inl err \<Rightarrow>
               (if lastLoop then recorded env duration p start usage
                else do { emit (EvSleep (int (5 * Second))); ret (Ret (Inl (Recorder p start usage))) })
           | Inr stats \<Rightarrow> sample env duration lastLoop p start usage stats } } }"

text \<open>The goroutines, until all have put their result into the channel.\<close>

fun run_recorders :: "nat \<Rightarrow> env \<Rightarrow> Duration \<Rightarrow> recorder list \<Rightarrow> RecordedMetrics option list \<Rightarrow>
    RecordedMetrics option list outcome prog" where
  "run_recorders fuel env duration [] results = ret (Ret results)"
| "run_recorders 0 env duration (g # gs) results = ret NoReturn"
| "run_recorders (Suc fuel) env duration (g # gs) results = do {
     i \<leftarrow> next_of env (Suc (length gs));
     attempt (recorder_step env duration ((g # gs) ! i)) (\<lambda>r. case r of
         Inl g' \<Rightarrow> run_recorders fuel env duration ((g # gs)[i := g']) results
       | Inr res \<Rightarrow> run_recorders fuel env duration (take i (g # gs) @ drop (Suc i) (g # gs)) (results @ [res])) }"

fun collect_usage :: "(nat \<Rightarrow> nat list) \<Rightarrow> RecordedMetrics option list \<Rightarrow> ResourceUsageRecord list outcome" where
  "collect_usage perm [] = Ret []"
| "collect_usage perm (None # results) = Panic ''nil pointer dereference''"
| "collect_usage perm (Some m # results) = bind_outcome (collect_usage perm results) (\<lambda>rest.
     Ret (map (\<lambda>i. snd (rm_Usage m ! i)) (perm (length (rm_Usage m))) @ rest))"

fun select_pods :: "env \<Rightarrow> Pod list \<Rightarrow> Pod list prog" where
  "select_pods env [] = ret []"
| "select_pods env (p # ps) = do {
     q \<leftarrow> ask (EvGetPod (pd_Namespace p) (pd_Name p)) (\<lambda>tr. e_GetPod env tr p);
     rest \<leftarrow> select_pods env ps;
     ret (if pd_Phase q \<noteq> ''Running'' \<and> pd_Phase q \<noteq> ''Pending'' then rest
          else if pd_DeletionTimestamp q \<noteq> None then rest
          else q # rest) }"

definition RecordMetrics :: "nat \<Rightarrow> env \<Rightarrow> string \<Rightarrow> opaque \<Rightarrow> Duration \<Rightarrow>
    (error + ResourceUsageRecord list) outcome prog" where
  "RecordMetrics fuel env ns selector checkDuration =
     attempt (wait_pods fuel env ns selector) (\<lambda>r. case r of
         Inl e \<Rightarrow> ret (Ret (Inl e))
       | Inr pods \<Rightarrow> do {
           podsToRecord \<leftarrow> select_pods env pods;
           attempt (run_recorders fuel env checkDuration (map Starting podsToRecord) []) (\<lambda>results. do {
             perm \<leftarrow> gets (\<lambda>w. e_permutation env (w_trace w));
             ret (bind_outcome (collect_usage perm results) (\<lambda>us. Ret (Inr us))) }) })"

section \<open>The recorder of a running workload\<close>

record CheckRecorder =
  rec_checkType :: string
  rec_targetNamespace :: string
  rec_targetRef :: TargetReference
  rec_checkDuration :: Duration

definition NewCheckRecorder :: "string \<Rightarrow> string \<Rightarrow> TargetReference \<Rightarrow> Duration \<Rightarrow> CheckRecorder" where
  "NewCheckRecorder checkType targetNamespace targetRef checkDuration = \<lparr>rec_checkType = checkType,
     rec_targetNamespace = targetNamespace, rec_targetRef = targetRef, rec_checkDuration = checkDuration\<rparr>"

text \<open>What a run of \<open>Record\<close> sends: a recording, an error, or nothing.\<close>

datatype sent = SentRecording WorkloadRecording | SentError error | SentNothing

fun elapsed :: "env \<Rightarrow> Duration \<Rightarrow> Pod list \<Rightarrow> bool outcome prog" where
  "elapsed env d [] = ret (Ret False)"
| "elapsed env d (p # ps) = (case pd_StartTime p of
     None \<Rightarrow> ret (Panic ''nil pointer dereference'')
   | Some t \<Rightarrow> do {
       now \<leftarrow> ask EvNow (e_now env);
       if t + sint d < now then ret (Ret True) else elapsed env d ps })"

fun wait_elapsed :: "nat \<Rightarrow> env \<Rightarrow> Duration \<Rightarrow> Pod list \<Rightarrow> unit outcome prog" where
  "wait_elapsed 0 env d pods = ret NoReturn"
| "wait_elapsed (Suc fuel) env d pods = attempt (elapsed env d pods) (\<lambda>b.
     if b then ret (Ret ())
     else do { emit (EvSleep (sint (half_dur d))); wait_elapsed fuel env d pods })"

definition record_workload :: "nat \<Rightarrow> env \<Rightarrow> CheckRecorder \<Rightarrow> opaque \<Rightarrow> (sent \<times> (error + WorkloadRecording)) outcome prog" where
  "record_workload fuel env r selector =
     attempt (wait_pods fuel env (rec_targetNamespace r) selector) (\<lambda>l. case l of
         Inl e \<Rightarrow> ret (Ret (SentNothing, Inl e))
       | Inr pods \<Rightarrow> do {
           startTime \<leftarrow> ask EvNow (e_now env);
           attempt (wait_elapsed fuel env (rec_checkDuration r) pods) (\<lambda>_.
           attempt (RecordLogs fuel env (rec_targetNamespace r) selector False) (\<lambda>logs. case logs of
               Inl e \<Rightarrow> ret (Ret (SentError e, Inl (Wrapf ''failed to record pod logs'' e)))
             | Inr podLogs \<Rightarrow> do {
                 now \<leftarrow> ask EvNow (e_now env);
                 let recording = \<lparr>wr_Type = rec_checkType r, wr_PodStateRunning = True, wr_StartTime = startTime,
                   wr_EndTime = now, wr_SecurityContextConfigurations = None, wr_RecordedMetrics = [], wr_Logs = podLogs\<rparr>;
                 ret (Ret (SentRecording recording, Inr recording)) })) })"

definition Record :: "nat \<Rightarrow> env \<Rightarrow> CheckRecorder \<Rightarrow> (sent \<times> (error + WorkloadRecording)) outcome prog" where
  "Record fuel env r =
     (let kind = to_lower (tr_Kind (rec_targetRef r)) in
      if kind \<notin> {''deployment'', ''statefulset'', ''daemonset''} then
        ret (Ret (SentNothing, Inl (Errorf (''unsupported workload kind: '' @ tr_Kind (rec_targetRef r)))))
      else do {
        g \<leftarrow> get_workload env (kind_of kind) (rec_targetNamespace r) (tr_Name (rec_targetRef r));
        case g of
          Inl e \<Rightarrow> ret (Ret (SentError e, Inl e))
        | Inr wl \<Rightarrow> (case GetLabelSelectorForWorkload env wl of
            Inl e \<Rightarrow> ret (Ret (SentError e, Inl (Wrapf ''failed to get label selector for workload'' e)))
          | Inr selector \<Rightarrow> record_workload fuel env r selector) })"

section \<open>Recording only reads\<close>

fun reading :: "event \<Rightarrow> bool" where
  "reading EvNow = True" | "reading (EvSleep d) = True" | "reading (EvListPods ns sel) = True"
| "reading (EvGetPod ns n) = True" | "reading (EvGetLogs ns p c b) = True" | "reading EvListNodes = True"
| "reading (EvNodeStats n) = True" | "reading (EvGetWorkload k ns n) = True" | "reading _ = False"

lemma reading_footprint: "reading ev \<Longrightarrow> footprint T ns n ev"
  by (cases ev) simp_all

definition metrics_free :: "(world \<Rightarrow> bool) \<Rightarrow> bool" where
  "metrics_free I \<longleftrightarrow> (\<forall>w tr t m. I w \<longrightarrow> I (w\<lparr>w_trace := tr\<rparr>) \<and> I (w\<lparr>w_podMetricsLastUpdate := t, w_podMetrics := m\<rparr>))"

lemma metrics_freeD:
  "metrics_free I \<Longrightarrow> I w \<Longrightarrow> I (w\<lparr>w_trace := tr\<rparr>)"
  "metrics_free I \<Longrightarrow> I w \<Longrightarrow> I (w\<lparr>w_podMetricsLastUpdate := t, w_podMetrics := m\<rparr>)"
  unfolding metrics_free_def by blast+

definition trace_free :: "(world \<Rightarrow> bool) \<Rightarrow> bool" where
  "trace_free I \<longleftrightarrow> (\<forall>w tr. I w \<longrightarrow> I (w\<lparr>w_trace := tr\<rparr>))"

lemma metrics_trace_free: "metrics_free I \<Longrightarrow> trace_free I"
  unfolding metrics_free_def trace_free_def by blast

lemma trace_freeD: "trace_free I \<Longrightarrow> I w \<Longrightarrow> I (w\<lparr>w_trace := tr\<rparr>)"
  unfolding trace_free_def by blast

lemma metrics_free_keyed: "metrics_free (keyed ns n)"
  by (simp add: metrics_free_def keyed_def)

lemma keeps_read:
  "metrics_free I \<Longrightarrow> reading ev \<Longrightarrow> keeps I reading (ask ev answer)"
  "metrics_free I \<Longrightarrow> reading ev \<Longrightarrow> keeps I reading (emit ev)"
  by (rule keeps_ask keeps_emit; auto dest: metrics_freeD)+

lemma keeps_wait_pods: "trace_free I \<Longrightarrow> keeps I reading (wait_pods fuel env s sel)"
  by (induction fuel) (auto simp: list_pods_def intro!: emits_intros intro: trace_freeD)

lemma keeps_log_step: "metrics_free I \<Longrightarrow> keeps I reading (log_step env b t m)"
  by (cases t) (auto simp: GetLogs_def intro!: emits_intros intro: metrics_freeD(1))

lemma keeps_next_of [emits_intros]: "keeps I P (next_of env n)"
  unfolding next_of_def by (rule keeps_gets)

lemma keeps_run_tasks: "metrics_free I \<Longrightarrow> keeps I reading (run_tasks n env b qs m)"
  by (induction n arbitrary: qs m) (auto simp: Let_def intro!: emits_intros keeps_log_step)

lemma keeps_RecordLogs: "metrics_free I \<Longrightarrow> keeps I reading (RecordLogs fuel env s sel b)"
  unfolding RecordLogs_def Let_def by (intro emits_intros keeps_wait_pods metrics_trace_free keeps_run_tasks)

lemma keeps_refresh_nodes: "metrics_free I \<Longrightarrow> keeps I reading (refresh_nodes env ns m)"
  by (induction ns arbitrary: m)
    (auto simp: refreshPodMetricsPerNode_def intro!: emits_intros intro: metrics_freeD(1))

lemma keeps_refreshPodMetrics: "metrics_free I \<Longrightarrow> keeps I reading (refreshPodMetrics env)"
  unfolding refreshPodMetrics_def getNodes_def
  by (intro emits_intros keeps_refresh_nodes) (auto dest: metrics_freeD)

lemma keeps_recorder_step:
  assumes "metrics_free I" shows "keeps I reading (recorder_step env d g)"
proof (cases g)
  case (Starting p)
  then show ?thesis by (auto intro!: emits_intros metrics_freeD(1) [OF assms])
next
  case (Recorder p start usage)
  then show ?thesis
    by (auto simp: Let_def sample_def recorded_def getPodResourceUsage_def
        intro!: emits_intros keeps_refreshPodMetrics [OF assms] metrics_freeD(1) [OF assms])
qed

lemma keeps_run_recorders: "metrics_free I \<Longrightarrow> keeps I reading (run_recorders fuel env d gs rs)"
proof (induction fuel arbitrary: gs rs)
  case 0
  then show ?case by (cases gs) (simp_all add: keeps_ret)
next
  case (Suc fuel)
  then show ?case by (cases gs) (auto simp: keeps_ret intro!: emits_intros keeps_recorder_step)
qed

lemma keeps_select_pods: "trace_free I \<Longrightarrow> keeps I reading (select_pods env ps)"
  by (induction ps) (auto intro!: emits_intros intro: trace_freeD)

lemma keeps_RecordMetrics: "metrics_free I \<Longrightarrow> keeps I reading (RecordMetrics fuel env s sel d)"
  unfolding RecordMetrics_def
  by (intro emits_intros keeps_wait_pods keeps_select_pods metrics_trace_free keeps_run_recorders)

lemma keeps_elapsed: "metrics_free I \<Longrightarrow> keeps I reading (elapsed env d ps)"
  by (induction ps) (auto intro!: emits_intros intro: metrics_freeD(1))

lemma keeps_wait_elapsed: "metrics_free I \<Longrightarrow> keeps I reading (wait_elapsed fuel env d ps)"
  by (induction fuel) (auto intro!: emits_intros keeps_elapsed intro: metrics_freeD(1))

lemma keeps_Record: "metrics_free I \<Longrightarrow> keeps I reading (Record fuel env r)"
  unfolding Record_def record_workload_def get_workload_def Let_def
  by (intro emits_intros keeps_wait_pods metrics_trace_free keeps_wait_elapsed keeps_RecordLogs) (auto intro: metrics_freeD(1))

section \<open>Waiting ends when the pods are assigned\<close>

definition ready_from :: "env \<Rightarrow> string \<Rightarrow> opaque \<Rightarrow> nat \<Rightarrow> bool" where
  "ready_from env ns selector N \<longleftrightarrow> (\<forall>tr. N \<le> length tr \<longrightarrow>
     (\<exists>pods. e_ListPods env tr ns selector = Inr pods \<and> pods \<noteq> [] \<and> assigned pods))"

text \<open>
  The loop that waits for the pods returns, with pods that are all assigned to a node or with the error
  of the list call, as soon as it has fuel for the calls after which the cluster answers with assigned pods.
  As long as there are no pods at all it goes on for ever, asking again without a pause.
\<close>

theorem wait_pods_returns:
  assumes "ready_from env ns selector N" and "0 < fuel" and "N < fuel + length (w_trace w)"
  shows "(\<exists>r. fst (run_state (wait_pods fuel env ns selector) w) = Ret r
      \<and> (\<forall>pods. r = Inr pods \<longrightarrow> pods \<noteq> [] \<and> assigned pods))
    \<and> (\<forall>env' :: env. (\<forall>tr. e_ListPods env' tr ns selector = Inr []) \<longrightarrow>
         run_state (wait_pods k env' ns selector) w =
           (NoReturn, w\<lparr>w_trace := w_trace w @ replicate k (EvListPods ns selector)\<rparr>))"
proof
  show "\<exists>r. fst (run_state (wait_pods fuel env ns selector) w) = Ret r
      \<and> (\<forall>pods. r = Inr pods \<longrightarrow> pods \<noteq> [] \<and> assigned pods)"
    using assms(2,3)
  proof (induction fuel arbitrary: w)
    case 0
    then show ?case by simp
  next
    case (Suc fuel)
    let ?l = "e_ListPods env (w_trace w) ns selector"
    show ?case
    proof (cases "\<exists>pods. ?l = Inr pods \<and> (pods = [] \<or> \<not> assigned pods)")
      case False
      then show ?thesis by (cases ?l) (auto simp: list_pods_def run_simps)
    next
      case True
      with assms(1) have "length (w_trace w) < N" unfolding ready_from_def by (metis not_le sum.inject(2))
      with Suc.prems have "0 < fuel" by simp
      with Suc.IH Suc.prems have again: "\<exists>r. fst (run_state (wait_pods fuel env ns selector) v) = Ret r
          \<and> (\<forall>pods. r = Inr pods \<longrightarrow> pods \<noteq> [] \<and> assigned pods)" if "length (w_trace w) < length (w_trace v)" for v
        using that by simp
      from True again show ?thesis by (auto simp: list_pods_def run_simps)
    qed
  qed
  show "\<forall>env' :: env. (\<forall>tr. e_ListPods env' tr ns selector = Inr []) \<longrightarrow>
         run_state (wait_pods k env' ns selector) w =
           (NoReturn, w\<lparr>w_trace := w_trace w @ replicate k (EvListPods ns selector)\<rparr>)"
  proof (intro allI impI)
    fix env' :: env assume e: "\<forall>tr. e_ListPods env' tr ns selector = Inr []"
    show "run_state (wait_pods k env' ns selector) w =
           (NoReturn, w\<lparr>w_trace := w_trace w @ replicate k (EvListPods ns selector)\<rparr>)"
      by (induction k arbitrary: w) (simp_all add: list_pods_def run_simps e)
  qed
qed

definition busy_pod :: Pod where
  "busy_pod = \<lparr>pd_Namespace = ''apps-abc'', pd_Name = ''web-1'', pd_UID = ''u1'', pd_NodeName = ''node-1'',
     pd_Containers = [''main''], pd_InitContainers = [''setup''], pd_Phase = ''Running'', pd_DeletionTimestamp = None,
     pd_StartTime = Some 0, pd_ContainerStatuses = []\<rparr>"

theorem wait_pods_returns_witness:
  "\<exists>r. fst (run_state (wait_pods 1 (ref_env empty_whc [] [busy_pod]) ''apps-abc'' ''app=web'') (start_world empty_whc)) = Ret r"
proof -
  have ready: "ready_from (ref_env empty_whc [] [busy_pod]) ''apps-abc'' ''app=web'' 0"
    by (simp add: ready_from_def ref_env_def assigned_def busy_pod_def)
  have "0 < 1 + length (w_trace (start_world empty_whc))" by simp
  from conjunct1 [OF wait_pods_returns [OF ready zero_less_one this]] show ?thesis by blast
qed

section \<open>The logs do not depend on the schedule\<close>

definition task_lines :: "(Pod \<Rightarrow> string \<Rightarrow> error + string) \<Rightarrow> string \<Rightarrow> log_task \<Rightarrow> string multiset" where
  "task_lines g key t = (case t of (p, c, k) \<Rightarrow>
     if k = key then (case g p c of Inl e \<Rightarrow> {#} | Inr log \<Rightarrow> mset (str_split (CHR 0x0A) log)) else {#})"

definition stable_logs :: "env \<Rightarrow> bool \<Rightarrow> (Pod \<Rightarrow> string \<Rightarrow> error + string) \<Rightarrow> bool" where
  "stable_logs env previous g \<longleftrightarrow> (\<forall>tr p c. e_GetLogs env tr (pd_Namespace p) (pd_Name p) c previous = g p c)"

fun all_lines :: "(Pod \<Rightarrow> string \<Rightarrow> error + string) \<Rightarrow> string \<Rightarrow> log_task list \<Rightarrow> string multiset" where
  "all_lines g key [] = {#}"
| "all_lines g key (t # ts) = task_lines g key t + all_lines g key ts"

lemma all_lines_append: "all_lines g key (ts @ us) = all_lines g key ts + all_lines g key us"
  by (induction ts) (simp_all add: union_assoc)

lemma log_lines_update: "log_lines (AList.update k ls m) key = (if key = k then ls else log_lines m key)"
  by (simp add: log_lines_def update_conv')

lemma log_step_lines:
  assumes "stable_logs env previous g"
  shows "mset (log_lines (fst (run_state (log_step env previous t m) w)) key) = mset (log_lines m key) + task_lines g key t"
proof -
  obtain p c k where t: "t = (p, c, k)" by (cases t) auto
  show ?thesis using assms
    by (auto simp: t GetLogs_def run_simps task_lines_def stable_logs_def log_lines_update split: sum.splits)
qed

lemma pick_queue:
  assumes "i < length qs" "qs ! i \<noteq> []"
  obtains as t ts bs where "qs = as @ (t # ts) # bs" "hd (qs ! i) = t" "qs[i := tl (qs ! i)] = as @ ts # bs"
proof
  show "qs = take i qs @ (hd (qs ! i) # tl (qs ! i)) # drop (Suc i) qs"
    using assms by (simp add: id_take_nth_drop)
  show "qs[i := tl (qs ! i)] = take i qs @ tl (qs ! i) # drop (Suc i) qs"
    using assms by (simp add: upd_conv_take_nth_drop)
qed simp

lemma all_lines_pick:
  assumes "i < length qs" "qs ! i \<noteq> []"
  shows "all_lines g key (concat qs) = task_lines g key (hd (qs ! i)) + all_lines g key (concat (qs[i := tl (qs ! i)]))"
    "length (concat qs) = Suc (length (concat (qs[i := tl (qs ! i)])))"
  using assms by (rule pick_queue; simp add: all_lines_append)+

lemma concat_filter: "concat (filter (\<lambda>q. q \<noteq> []) qs) = concat qs"
  by (induction qs) auto

lemma run_tasks_lines:
  assumes "stable_logs env previous g" "length (concat qs) \<le> n"
  shows "mset (log_lines (fst (run_state (run_tasks n env previous qs m) w)) key) =
    mset (log_lines m key) + all_lines g key (concat qs)"
  using assms(2)
proof (induction n arbitrary: qs m w)
  case 0
  then show ?case by (simp add: run_ret del: concat_eq_Nil_conv)
next
  case (Suc n)
  let ?qs = "filter (\<lambda>q. q \<noteq> []) qs"
  show ?case
  proof (cases "?qs = []")
    case True
    then have "concat qs = []" using concat_filter [of qs] by simp
    then show ?thesis using True by (simp add: run_ret del: concat_eq_Nil_conv)
  next
    case False
    define i where "i = e_next env (w_trace w) (length ?qs) mod length ?qs"
    have i: "i < length ?qs" using False by (simp add: i_def)
    then have ne: "?qs ! i \<noteq> []" using nth_mem [OF i] by auto
    let ?qs' = "?qs[i := tl (?qs ! i)]"
    obtain m' w' where step: "run_state (log_step env previous (hd (?qs ! i)) m) w = (m', w')" by force
    have len: "length (concat ?qs) = Suc (length (concat ?qs'))" by (rule all_lines_pick(2) [OF i ne])
    have "run_state (run_tasks (Suc n) env previous qs m) w = run_state (run_tasks n env previous ?qs' m') w'"
      using False step by (simp add: Let_def run_bind next_of_def run_gets i_def)
    then show ?thesis
      using Suc.IH [of ?qs' m' w'] Suc.prems len log_step_lines [OF assms(1), of "hd (?qs ! i)" m w key] step
        all_lines_pick(1) [OF i ne, of g key] concat_filter [of qs]
      by (simp add: union_assoc)
  qed
qed



section \<open>A failed recorder\<close>

fun steps_left :: "recorder \<Rightarrow> nat" where
  "steps_left (Starting p) = 2"
| "steps_left (Recorder p t u) = 1"

definition pending :: "recorder list \<Rightarrow> nat" where
  "pending gs = sum_list (map steps_left gs)"

lemma recorder_step_unreadable:
  assumes "\<And>tr. \<exists>e. e_ListNodes env tr = Inl e" "w_podMetricsLastUpdate w = None"
  shows "\<exists>r w'. run_state (recorder_step env d g) w = (Ret r, w') \<and> w_podMetricsLastUpdate w' = None
    \<and> (case g of Starting p \<Rightarrow> \<exists>t. r = Inl (Recorder p t []) | Recorder p t u \<Rightarrow> r = Inr None)"
proof (cases g)
  case (Starting p)
  then show ?thesis using assms(2) by (simp add: run_simps)
next
  case (Recorder p t u)
  obtain e where "e_ListNodes env (w_trace w @ [EvNow, EvNow]) = Inl e" using assms(1) by blast
  then show ?thesis using Recorder assms(2)
    by (simp add: run_simps Let_def refreshPodMetrics_def fresh_metrics_def getNodes_def)
qed

lemma run_recorders_unreadable:
  assumes "\<And>tr. \<exists>e. e_ListNodes env tr = Inl e"
  shows "w_podMetricsLastUpdate w = None \<Longrightarrow> pending gs \<le> fuel \<Longrightarrow> set results \<subseteq> {None} \<Longrightarrow> gs \<noteq> [] \<or> results \<noteq> [] \<Longrightarrow>
    \<exists>rs w'. run_state (run_recorders fuel env d gs results) w = (Ret rs, w') \<and> rs \<noteq> [] \<and> set rs \<subseteq> {None}"
proof (induction fuel arbitrary: gs results w)
  case 0
  then have "gs = []" by (cases gs; cases "hd gs") (auto simp: pending_def)
  then show ?case using 0 by (auto simp: run_ret)
next
  case (Suc fuel)
  show ?case
  proof (cases gs)
    case Nil
    then show ?thesis using Suc.prems by (auto simp: run_ret)
  next
    case (Cons g gs')
    define i where "i = e_next env (w_trace w) (Suc (length gs')) mod Suc (length gs')"
    have i: "i < length gs" by (simp add: i_def Cons)
    obtain r w' where step: "run_state (recorder_step env d (gs ! i)) w = (Ret r, w')" "w_podMetricsLastUpdate w' = None"
      and r: "case gs ! i of Starting p \<Rightarrow> \<exists>t. r = Inl (Recorder p t []) | Recorder p t u \<Rightarrow> r = Inr None"
      using recorder_step_unreadable [OF assms Suc.prems(1)] by blast
    have split: "gs = take i gs @ gs ! i # drop (Suc i) gs" using i by (simp add: id_take_nth_drop)
    have pend: "pending gs = pending (take i gs) + pending [gs ! i] + pending (drop (Suc i) gs)"
      by (subst split) (simp add: pending_def)
    show ?thesis
    proof (cases "gs ! i")
      case (Starting p)
      then obtain t where "r = Inl (Recorder p t [])" using r by auto
      moreover have "pending (gs[i := Recorder p t []]) \<le> fuel"
        using pend Suc.prems(2) Starting i by (simp add: upd_conv_take_nth_drop pending_def)
      moreover have "gs[i := Recorder p t []] \<noteq> []" using i by (metis length_0_conv length_list_update not_less0)
      moreover have "run_state (run_recorders (Suc fuel) env d gs results) w =
          run_state (run_recorders fuel env d (gs[i := Recorder p t []]) results) w'"
        using step(1) calculation(1) Cons
        by (simp add: run_bind next_of_def run_gets run_attempt i_def [symmetric] del: recorder_step.simps list_update.simps)
      ultimately show ?thesis
        using Suc.IH [OF step(2), of "gs[i := Recorder p t []]" results] Suc.prems(3) by simp
    next
      case (Recorder p t u)
      then have "r = Inr None" using r by simp
      moreover have "pending (take i gs @ drop (Suc i) gs) \<le> fuel"
        using pend Suc.prems(2) Recorder by (simp add: pending_def)
      ultimately show ?thesis
        using Suc.IH [OF step(2), of "take i gs @ drop (Suc i) gs" "results @ [None]"] Suc.prems step(1) Cons
        by (simp add: run_bind next_of_def run_gets run_attempt i_def [symmetric] del: recorder_step.simps)
    qed
  qed
qed

text \<open>
  When the nodes cannot be listed and no statistics are cached, recording the usage of at least one pod does
  not end in an error but in a nil dereference: the goroutine of the pod hands over a nil result with
  the error, and collecting the results reads it.
\<close>

theorem RecordMetrics_panics:
  assumes "\<And>tr. \<exists>e. e_ListNodes env tr = Inl e" and "w_podMetricsLastUpdate w = None"
    and "run_state (wait_pods fuel env ns selector) w = (Ret (Inr pods), v)"
    and "run_state (select_pods env pods) v = (p # ps, u)" and "2 * length (p # ps) \<le> fuel"
  shows "\<exists>msg. fst (run_state (RecordMetrics fuel env ns selector d) w) = Panic msg"
proof -
  have free: "trace_free (\<lambda>w. w_podMetricsLastUpdate w = None)" by (simp add: trace_free_def)
  have v: "w_podMetricsLastUpdate v = None"
    using stepsD_post [OF keeps_wait_pods [OF free, of fuel env ns selector] assms(2)] assms(3) by simp
  then have u: "w_podMetricsLastUpdate u = None"
    using stepsD_post [OF keeps_select_pods [OF free, of env pods] v] assms(4) by simp
  have "pending (map Starting (p # ps)) \<le> fuel"
    using assms(5) by (simp add: pending_def comp_def sum_list_triv)
  then obtain rs w' where rs: "run_state (run_recorders fuel env d (map Starting (p # ps)) []) u = (Ret rs, w')"
      "rs \<noteq> []" "set rs \<subseteq> {None}"
    using run_recorders_unreadable [OF assms(1) u, of "map Starting (p # ps)" fuel "[]" d] by auto
  then obtain rs' where "rs = None # rs'" by (cases rs) auto
  then show ?thesis
    using assms(3,4) rs(1) by (simp add: RecordMetrics_def run_attempt run_bind run_gets run_ret del: list.map)
qed

definition nodeless :: env where
  "nodeless = (ref_env empty_whc [] [busy_pod])\<lparr>e_ListNodes := \<lambda>tr. Inl (Errorf ''forbidden'')\<rparr>"

theorem RecordMetrics_panics_witness:
  "\<exists>msg. fst (run_state (RecordMetrics 2 nodeless ''apps-abc'' ''app=web'' (dur Minute)) (start_world empty_whc)) = Panic msg"
proof -
  let ?w = "start_world empty_whc"
  obtain v where wait: "run_state (wait_pods 2 nodeless ''apps-abc'' ''app=web'') ?w = (Ret (Inr [busy_pod]), v)"
    by (simp add: list_pods_def run_simps nodeless_def ref_env_def assigned_def busy_pod_def numeral_2_eq_2)
  obtain u where "run_state (select_pods nodeless [busy_pod]) v = ([busy_pod], u)"
    by (simp add: run_simps nodeless_def ref_env_def busy_pod_def)
  moreover have "\<exists>e. e_ListNodes nodeless tr = Inl e" for tr by (simp add: nodeless_def)
  moreover have "w_podMetricsLastUpdate ?w = None" by (simp add: start_world_def)
  ultimately show ?thesis using RecordMetrics_panics [OF _ _ wait] by simp
qed

end
