(* ===== verification/Runner.thy ===== *)
theory Runner
  imports Manager Namespaces Recording
begin

text \<open>
  \<open>internal/runner/runner.go\<close>: one run of one check. The runner clones the namespace, applies the security
  context to the workload of the clone, waits for its pods, records their usage and logs, stores the
  recording, writes the outcome into the status of the custom resource and deletes the clone. Its copy of
  the custom resource is \<open>w_whc\<close>, the workload object it holds a pointer to is \<open>w_wl\<close>, and the security
  context it was given is an address of the heap.
\<close>

section \<open>The runner\<close>

record WorkloadCheckRunner =
  rn_checkType :: string
  rn_conditionType :: string
  rn_targetNamespaceName :: string

definition generateTargetNamespaceName :: "WorkloadHardeningCheck \<Rightarrow> string \<Rightarrow> string" where
  "generateTargetNamespaceName x checkType =
     (let base = (if length (whc_Namespace x) > 45 then take 45 (whc_Namespace x) else whc_Namespace x);
          namespaceName = to_lower (base @ ''-'' @ spec_Suffix (whc_Spec x) @ ''-'' @ checkType)
      in if length namespaceName > 63 then take 63 namespaceName else namespaceName)"

definition condition_type_of :: "env \<Rightarrow> string \<Rightarrow> string" where
  "condition_type_of env checkType =
     (let c1 = e_title env checkType @ ConditionTypeCheck;
          c2 = (if str_contains (to_lower checkType) ''baseline'' then ConditionTypeBaseline else c1)
      in if str_contains (to_lower checkType) ''final'' then ConditionTypeFinalCheck else c2)"

text \<open>The constructors; the deep copy of the custom resource becomes the runner's.\<close>

definition NewWorkloadCheckRunnerForNamespace ::
    "env \<Rightarrow> WorkloadHardeningCheck \<Rightarrow> string \<Rightarrow> string \<Rightarrow> WorkloadCheckRunner prog" where
  "NewWorkloadCheckRunnerForNamespace env x checkType targetNamespaceName = do {
     modify (fetched x);
     ret \<lparr>rn_checkType = checkType, rn_conditionType = condition_type_of env checkType,
       rn_targetNamespaceName =
         (if targetNamespaceName = [] then generateTargetNamespaceName x checkType else targetNamespaceName)\<rparr> }"

definition NewWorkloadCheckRunner :: "env \<Rightarrow> WorkloadHardeningCheck \<Rightarrow> string \<Rightarrow> WorkloadCheckRunner prog" where
  "NewWorkloadCheckRunner env x checkType = NewWorkloadCheckRunnerForNamespace env x checkType []"

section \<open>The clone\<close>

definition namespaceExists :: "env \<Rightarrow> string \<Rightarrow> bool prog" where
  "namespaceExists env name = do {
     r \<leftarrow> ask (EvGetNamespace name) (\<lambda>tr. e_GetNamespace env tr name);
     ret (case r of Inl e \<Rightarrow> \<not> IsNotFound e | Inr ns \<Rightarrow> True) }"

definition createCheckNamespace :: "env \<Rightarrow> WorkloadCheckRunner \<Rightarrow> error option outcome prog" where
  "createCheckNamespace env r = do {
     x \<leftarrow> gets w_whc;
     attempt (Clone env (whc_Namespace x) (rn_targetNamespaceName r) (spec_Suffix (whc_Spec x))) (\<lambda>e. case e of
         Some err \<Rightarrow> ret (Ret (Some err))
       | None \<Rightarrow> do {
           g \<leftarrow> ask (EvGetNamespace (rn_targetNamespaceName r)) (\<lambda>tr. e_GetNamespace env tr (rn_targetNamespaceName r));
           ret (Ret (case g of
               Inr ns \<Rightarrow> None
             | Inl err \<Rightarrow>
                 (if IsNotFound err
                  then Some (Errorf (''target namespace '' @ rn_targetNamespaceName r @ '' not found after cloning''))
                  else Some (Wrapf (''failed to get target namespace '' @ rn_targetNamespaceName r @ '' after cloning'') err)))) }) }"

section \<open>Status\<close>

definition is_baseline :: "WorkloadCheckRunner \<Rightarrow> bool" where
  "is_baseline r \<longleftrightarrow> rn_conditionType r = ConditionTypeBaseline"

definition setStatusRunning :: "env \<Rightarrow> WorkloadCheckRunner \<Rightarrow> string \<Rightarrow> unit prog" where
  "setStatusRunning env r message = do {
     SetCondition env (mk_condition (rn_conditionType r) ConditionFalse
       (if is_baseline r then ReasonBaselineRecording else ReasonCheckRecording) message);
     ret () }"

definition setStatusFailed :: "env \<Rightarrow> WorkloadCheckRunner \<Rightarrow> string \<Rightarrow> unit prog" where
  "setStatusFailed env r message = do {
     SetCondition env (mk_condition (rn_conditionType r) ConditionUnknown
       (if str_contains (rn_checkType r) ''baseline'' then ReasonBaselineRecordingFailed else ReasonCheckRecordingFailed)
       message);
     ret () }"

definition failed_reason :: "WorkloadCheckRunner \<Rightarrow> string" where
  "failed_reason r = (if is_baseline r then ReasonBaselineRecordingFailed else ReasonCheckRecordingFailed)"

definition finished_reason :: "WorkloadCheckRunner \<Rightarrow> string" where
  "finished_reason r = (if is_baseline r then ReasonBaselineRecordingFinished else ReasonCheckRecordingFinished)"

text \<open>The switch on the condition type that files a check run in the status.\<close>

definition filed :: "WorkloadCheckRunner \<Rightarrow> CheckRun \<Rightarrow> WorkloadHardeningCheckStatus \<Rightarrow> WorkloadHardeningCheckStatus" where
  "filed r cr st =
     (if rn_conditionType r = ConditionTypeBaseline then st\<lparr>st_BaselineRuns := st_BaselineRuns st @ [cr]\<rparr>
      else if rn_conditionType r = ConditionTypeFinalCheck then st\<lparr>st_FinalRun := Some cr\<rparr>
      else st\<lparr>st_CheckRuns := AList.update (cr_Name cr) cr (st_CheckRuns st)\<rparr>)"

text \<open>The security context of a check run is the pointer the runner was given, read when the status is sent.\<close>

definition deref :: "nat option \<Rightarrow> SecurityContextDefaults option prog" where
  "deref p = gets (\<lambda>w. map_option (\<lambda>a. w_heap w ! a) p)"

definition file_run :: "env \<Rightarrow> WorkloadCheckRunner \<Rightarrow> (SecurityContextDefaults option \<Rightarrow> CheckRun) \<Rightarrow> nat option \<Rightarrow> error option prog" where
  "file_run env r mk scp = do {
     sc \<leftarrow> deref scp;
     modify (set_status (filed r (mk sc)));
     update_status env }"

fun miner_templates :: "'d drain_api \<Rightarrow> (string list \<Rightarrow> string list) \<Rightarrow> (string, string list) gomap \<Rightarrow>
    (string, string list) gomap outcome" where
  "miner_templates da ord [] = Ret []"
| "miner_templates da ord ((container, logs) # rest) =
     bind_outcome (GetTemplates da ord (snd (LogOrakel_LoadBaseline da logs (NewLogOrakel da)))) (\<lambda>templates.
     bind_outcome (miner_templates da ord rest) (\<lambda>m. Ret (AList.update container templates m)))"

definition write_failure :: "env \<Rightarrow> WorkloadCheckRunner \<Rightarrow> (SecurityContextDefaults option \<Rightarrow> CheckRun) \<Rightarrow> nat option \<Rightarrow> error option prog" where
  "write_failure env r mk scp = do {
     e \<leftarrow> get_whc env;
     case e of
       Some err \<Rightarrow> if IsNotFound err then ret None else ret (Some err)
     | None \<Rightarrow> file_run env r mk scp }"

definition setStatusFinishedFailure :: "env \<Rightarrow> 'd drain_api \<Rightarrow> WorkloadCheckRunner \<Rightarrow> string \<Rightarrow> string \<Rightarrow>
    (string, string list) gomap \<Rightarrow> nat option \<Rightarrow> unit outcome prog" where
  "setStatusFinishedFailure env da r message failureReason logs scp = do {
     SetCondition env (mk_condition (rn_conditionType r) ConditionTrue (failed_reason r) message);
     ord \<leftarrow> map_order env;
     attempt (ret (miner_templates da ord logs)) (\<lambda>anomalies. do {
       RetryOnConflict env (write_failure env r (\<lambda>sc. \<lparr>cr_Name = rn_checkType r,
         cr_RecordingSuccessfull = Some False, cr_CheckSuccessfull = Some False, cr_SecurityContext = sc,
         cr_FailureReason = failureReason, cr_LogAnomalies = anomalies\<rparr>) scp);
       ret (Ret ()) }) }"

text \<open>Unlike \<open>write_failure\<close>, this one goes on with the old copy when the fetch fails for another reason.\<close>

definition write_success :: "env \<Rightarrow> WorkloadCheckRunner \<Rightarrow> (SecurityContextDefaults option \<Rightarrow> CheckRun) \<Rightarrow> nat option \<Rightarrow> error option prog" where
  "write_success env r mk scp = do {
     e \<leftarrow> get_whc env;
     if (case e of Some err \<Rightarrow> IsNotFound err | None \<Rightarrow> False) then ret None
     else file_run env r mk scp }"

definition record_event :: "string \<Rightarrow> string \<Rightarrow> string \<Rightarrow> unit prog" where
  "record_event eventtype reason message = emit (EvEvent eventtype reason message)"

definition setStatusFinishedSuccessfully :: "env \<Rightarrow> WorkloadCheckRunner \<Rightarrow> string \<Rightarrow> nat option \<Rightarrow> unit prog" where
  "setStatusFinishedSuccessfully env r message scp = do {
     SetCondition env (mk_condition (rn_conditionType r) ConditionTrue (finished_reason r) message);
     ok \<leftarrow> gets w_checkSuccessful;
     e \<leftarrow> RetryOnConflict env (write_success env r (\<lambda>sc. \<lparr>cr_Name = rn_checkType r,
       cr_RecordingSuccessfull = Some True, cr_CheckSuccessfull = Some ok, cr_SecurityContext = sc,
       cr_FailureReason = [], cr_LogAnomalies = []\<rparr>) scp);
     (case e of
       Some err \<Rightarrow> record_event ''Warning'' (finished_reason r)
         (''Failed to update WorkloadHardeningCheck status after recording finished: '' @ error_text err)
     | None \<Rightarrow> record_event ''Normal'' (finished_reason r)
         (''Recorded '' @ rn_checkType r @ ''Check in namespace '' @ rn_targetNamespaceName r)) }"

section \<open>Applying the security context\<close>

definition scalable :: "WorkloadHardeningCheck \<Rightarrow> bool" where
  "scalable x \<longleftrightarrow> to_lower (tr_Kind (spec_TargetRef (whc_Spec x))) \<noteq> ''daemonset''"

text \<open>
  \<open>ns\<close> is the namespace of the workload object, which fetching the object under its key does not change.
  Scaling down; the result is the replica count to restore, 0 for none.\<close>

definition scale_down :: "env \<Rightarrow> string \<Rightarrow> int32 prog" where
  "scale_down env ns = do {
     x \<leftarrow> gets w_whc;
     if scalable x then do {
       c \<leftarrow> GetReplicaCount env ns;
       case c of
         Inl e \<Rightarrow> ret 0
       | Inr n \<Rightarrow>
           (if 0 < sint n then do { ScaleWorkloadUnderTest env ns 0; ret n } else ret n) }
     else ret 0 }"

definition write_context :: "env \<Rightarrow> SecurityContextDefaults \<Rightarrow> Workload \<Rightarrow> error option prog" where
  "write_context env sc wl = do {
     modify (\<lambda>w. w\<lparr>w_wl := wl\<rparr>);
     ko \<leftarrow> map_order env;
     case ApplyCheckSecurityContext ko wl (scd_Container sc) (scd_Pod sc) of
       Inl e \<Rightarrow> ret (Some (Wrapf ''failed to apply security context to workload under test'' e))
     | Inr wl' \<Rightarrow> do {
         modify (\<lambda>w. w\<lparr>w_wl := wl'\<rparr>);
         u \<leftarrow> update_workload env wl';
         (case u of
            (Some e, _) \<Rightarrow> ret (Some e)
          | (None, updated) \<Rightarrow> do { modify (\<lambda>w. w\<lparr>w_wl := updated\<rparr>); ret None }) } }"

definition apply_attempt :: "env \<Rightarrow> string \<Rightarrow> nat option \<Rightarrow> error option prog" where
  "apply_attempt env ns scp = do {
     wl \<leftarrow> gets w_wl;
     r \<leftarrow> get_workload env (wl_Kind wl) ns (wl_Name wl);
     case r of
       Inl e \<Rightarrow>
         (if IsNotFound e then ret (Some e)
          else ret (Some (Wrapf ''failed to re-fetch WorkloadHardeningCheck'' e)))
     | Inr wl' \<Rightarrow> do {
         sc \<leftarrow> deref scp;
         (case sc of None \<Rightarrow> ret None | Some sc \<Rightarrow> write_context env sc wl') } }"

definition restore_scale :: "env \<Rightarrow> string \<Rightarrow> int32 \<Rightarrow> error option prog" where
  "restore_scale env ns originalReplicaCount = do {
     x \<leftarrow> gets w_whc;
     if scalable x \<and> 0 < sint originalReplicaCount then ScaleWorkloadUnderTest env ns originalReplicaCount
     else ret None }"

definition applySecurityContext :: "env \<Rightarrow> string \<Rightarrow> nat option \<Rightarrow> error option prog" where
  "applySecurityContext env ns scp = do {
     originalReplicaCount \<leftarrow> scale_down env ns;
     e \<leftarrow> (if scp \<noteq> None then RetryOnConflict env (apply_attempt env ns scp) else ret None);
     case e of
       Some err \<Rightarrow> ret (Some err)
     | None \<Rightarrow> restore_scale env ns originalReplicaCount }"

section \<open>Waiting for the new pods\<close>

text \<open>A nil selector, after an error that is dropped, selects every pod.\<close>

definition selector_or_all :: "error + opaque \<Rightarrow> opaque" where
  "selector_or_all l = (case l of Inl e \<Rightarrow> [] | Inr s \<Rightarrow> s)"

definition recording_prefix :: "WorkloadHardeningCheck \<Rightarrow> string" where
  "recording_prefix x = whc_Namespace x @ '':'' @ spec_Suffix (whc_Spec x)"

definition recordMetrics :: "nat \<Rightarrow> env \<Rightarrow> string \<Rightarrow> opaque \<Rightarrow> (error + ResourceUsageRecord list) outcome prog" where
  "recordMetrics fuel env ns selector = do {
     emit (EvSleep (int (2 * Second)));
     x \<leftarrow> gets w_whc;
     RecordMetrics fuel env ns selector (GetCheckDuration env x) }"

definition recordLogs :: "nat \<Rightarrow> env \<Rightarrow> string \<Rightarrow> opaque \<Rightarrow> bool \<Rightarrow> (error + log_map) outcome prog" where
  "recordLogs fuel env ns selector previous = RecordLogs fuel env ns selector previous"

definition update_timeout :: "nat \<Rightarrow> env \<Rightarrow> WorkloadCheckRunner \<Rightarrow> string \<Rightarrow> int \<Rightarrow> (bool \<times> error option) outcome prog" where
  "update_timeout fuel env r ns startTime = do {
     setStatusFailed env r ''Timeout while waiting for workload to be updated'';
     record_event ''Warning'' (failed_reason r)
       (rn_checkType r @ ''Check: Timeout while waiting for workloads to be updated in namespace '' @ ns);
     labelSelector \<leftarrow> GetLabelSelector env;
     attempt (recordLogs fuel env ns (selector_or_all labelSelector) True) (\<lambda>l. case l of
         Inl e \<Rightarrow> ret (Ret (False, Some e))
       | Inr logs \<Rightarrow> do {
           now \<leftarrow> ask EvNow (e_now env);
           x \<leftarrow> gets w_whc;
           StoreRecording env (recording_prefix x) \<lparr>wr_Type = rn_checkType r, wr_PodStateRunning = False,
             wr_StartTime = startTime, wr_EndTime = now, wr_SecurityContextConfigurations = None,
             wr_RecordedMetrics = [], wr_Logs = logs\<rparr>;
           e \<leftarrow> Delete env ns;
           ret (Ret (False, e)) }) }"

text \<open>One poll: the object is fetched again, an error leaves it alone.\<close>

definition poll_workload :: "env \<Rightarrow> string \<Rightarrow> (error + bool) outcome prog" where
  "poll_workload env ns = do {
     wl \<leftarrow> gets w_wl;
     g \<leftarrow> get_workload env (wl_Kind wl) ns (wl_Name wl);
     (case g of Inl e \<Rightarrow> ret () | Inr wl' \<Rightarrow> modify (\<lambda>w. w\<lparr>w_wl := wl'\<rparr>));
     current \<leftarrow> gets w_wl;
     ret (VerifyUpdated current) }"

fun wait_updated :: "nat \<Rightarrow> env \<Rightarrow> WorkloadCheckRunner \<Rightarrow> string \<Rightarrow> int \<Rightarrow> (bool \<times> error option) outcome prog" where
  "wait_updated 0 env r ns startTime = ret NoReturn"
| "wait_updated (Suc fuel) env r ns startTime = attempt (poll_workload env ns) (\<lambda>v. do {
     now \<leftarrow> ask EvNow (e_now env);
     if longer (since now startTime) (dur (2 * Minute)) then update_timeout fuel env r ns startTime
     else if ok_value v then ret (Ret (True, None))
     else do { emit (EvSleep (int (5 * Second))); wait_updated fuel env r ns startTime } })"

definition waitForUpdatedPods :: "nat \<Rightarrow> env \<Rightarrow> WorkloadCheckRunner \<Rightarrow> string \<Rightarrow> (bool \<times> error option) outcome prog" where
  "waitForUpdatedPods fuel env r ns = do {
     startTime \<leftarrow> ask EvNow (e_now env);
     wait_updated fuel env r ns startTime }"

section \<open>A run\<close>

text \<open>The three parts of \<open>RunCheck\<close>; \<open>False\<close> and \<open>None\<close> are its early returns.\<close>

definition prepare_namespace :: "env \<Rightarrow> WorkloadCheckRunner \<Rightarrow> bool outcome prog" where
  "prepare_namespace env r = do {
     left \<leftarrow> namespaceExists env (rn_targetNamespaceName r);
     x \<leftarrow> gets w_whc;
     (if left \<and> m_IsPresentAndEqual (e_meta env) (whc_Conditions x) (rn_conditionType r) ConditionUnknown
      then do { Delete env (rn_targetNamespaceName r); ret () } else ret ());
     exists \<leftarrow> namespaceExists env (rn_targetNamespaceName r);
     if exists then ret (Ret True)
     else attempt (createCheckNamespace env r) (\<lambda>e. case e of
         Some err \<Rightarrow> ret (Ret False)
       | None \<Rightarrow> do { emit (EvSleep (int Second)); ret (Ret True) }) }"

definition apply_or_skip :: "env \<Rightarrow> string \<Rightarrow> nat option \<Rightarrow> error option prog" where
  "apply_or_skip env ns scp = do {
     sc \<leftarrow> deref scp;
     if SecurityContextDefaults_IsEmpty sc then ret None else applySecurityContext env ns scp }"

definition start_workload :: "nat \<Rightarrow> env \<Rightarrow> WorkloadCheckRunner \<Rightarrow> nat option \<Rightarrow> bool outcome prog" where
  "start_workload fuel env r scp = do {
     setStatusRunning env r ''Start target workload with updated security context'';
     g \<leftarrow> GetWorkloadUnderTest env (rn_targetNamespaceName r);
     case g of
       Inl e \<Rightarrow> do { setStatusFailed env r ''Failed to get workload under test''; ret (Ret False) }
     | Inr wl \<Rightarrow> do {
         modify (\<lambda>w. w\<lparr>w_wl := wl\<rparr>);
         e \<leftarrow> apply_or_skip env (wl_Namespace wl) scp;
         case e of
           Some err \<Rightarrow> do {
             setStatusFailed env r ''Failed to apply security context to workload under test'';
             ret (Ret False) }
         | None \<Rightarrow> attempt (waitForUpdatedPods fuel env r (wl_Namespace wl)) (\<lambda>(updated, e).
             if e \<noteq> None \<or> \<not> updated then do {
               setStatusFailed env r ''Failed to wait for updated pods'';
               record_event ''Warning'' (failed_reason r)
                 (rn_checkType r @ ''Check: Failed to wait for updated pods in namespace '' @ rn_targetNamespaceName r);
               ret (Ret False) }
             else ret (Ret True)) } }"

definition record_signals :: "nat \<Rightarrow> env \<Rightarrow> WorkloadCheckRunner \<Rightarrow> nat option \<Rightarrow> WorkloadRecording option outcome prog" where
  "record_signals fuel env r scp = do {
     setStatusRunning env r ''Recording metrics'';
     startTime \<leftarrow> ask EvNow (e_now env);
     l \<leftarrow> GetLabelSelector env;
     attempt (recordMetrics fuel env (rn_targetNamespaceName r) (selector_or_all l)) (\<lambda>m. case m of
         Inl e \<Rightarrow> do { setStatusFailed env r ''Failed to record metrics''; ret (Ret None) }
       | Inr metrics \<Rightarrow>
           attempt (recordLogs fuel env (rn_targetNamespaceName r) (selector_or_all l) False) (\<lambda>l'. case l' of
               Inl e \<Rightarrow> do { setStatusFailed env r ''Failed to record logs''; ret (Ret None) }
             | Inr logs \<Rightarrow> do {
                 wl \<leftarrow> gets w_wl;
                 v \<leftarrow> VerifyReadiness env wl;
                 modify (\<lambda>w. w\<lparr>w_checkSuccessful := ok_value v\<rparr>);
                 now \<leftarrow> ask EvNow (e_now env);
                 sc \<leftarrow> deref scp;
                 ret (Ret (Some \<lparr>wr_Type = rn_checkType r, wr_PodStateRunning = ok_value v, wr_StartTime = startTime,
                   wr_EndTime = now, wr_SecurityContextConfigurations = sc, wr_RecordedMetrics = metrics,
                   wr_Logs = logs\<rparr>)) })) }"

text \<open>The outcome of a stored recording, and the cleanup.\<close>

definition publish :: "env \<Rightarrow> 'd drain_api \<Rightarrow> WorkloadCheckRunner \<Rightarrow> nat option \<Rightarrow> WorkloadRecording \<Rightarrow> unit outcome prog" where
  "publish env da r scp recording = do {
     ok \<leftarrow> gets w_checkSuccessful;
     attempt (if ok then do { setStatusFinishedSuccessfully env r ''Check finished successfully'' scp; ret (Ret ()) }
              else setStatusFinishedFailure env da r ''Signal recording failed'' ''Workload never became ready''
                (wr_Logs recording) scp)
       (\<lambda>_. do { Delete env (rn_targetNamespaceName r); ret (Ret ()) }) }"

definition conclude :: "env \<Rightarrow> 'd drain_api \<Rightarrow> WorkloadCheckRunner \<Rightarrow> nat option \<Rightarrow> WorkloadRecording \<Rightarrow> unit outcome prog" where
  "conclude env da r scp recording = do {
     x \<leftarrow> gets w_whc;
     e \<leftarrow> StoreRecording env (recording_prefix x) recording;
     case e of
       Some err \<Rightarrow> do {
         setStatusFailed env r ''Failed to store workload recording in Valkey'';
         record_event ''Warning'' (failed_reason r) (''Failed to store '' @ rn_checkType r @ ''Check recording in Valkey'');
         ret (Ret ()) }
     | None \<Rightarrow> publish env da r scp recording }"

definition run_until_recorded :: "nat \<Rightarrow> env \<Rightarrow> WorkloadCheckRunner \<Rightarrow> nat option \<Rightarrow> WorkloadRecording option outcome prog" where
  "run_until_recorded fuel env r scp =
     attempt (prepare_namespace env r) (\<lambda>ready.
       if \<not> ready then ret (Ret None)
       else attempt (start_workload fuel env r scp) (\<lambda>started.
         if \<not> started then ret (Ret None) else record_signals fuel env r scp))"

definition RunCheck :: "nat \<Rightarrow> env \<Rightarrow> 'd drain_api \<Rightarrow> WorkloadCheckRunner \<Rightarrow> nat option \<Rightarrow> unit outcome prog" where
  "RunCheck fuel env da r scp =
     attempt (run_until_recorded fuel env r scp) (\<lambda>rec. case rec of
         None \<Rightarrow> ret (Ret ())
       | Some recording \<Rightarrow> conclude env da r scp recording)"

section \<open>The name of the clone\<close>



section \<open>What a run touches\<close>

lemma keyed_frames [simp]:
  "keyed ns n (w\<lparr>w_wl := x\<rparr>) = keyed ns n w" "keyed ns n (w\<lparr>w_checkSuccessful := b\<rparr>) = keyed ns n w"
  by (simp_all add: keyed_def)

lemma clones_footprint: "clones src tgt ev \<Longrightarrow> footprint (Some tgt) ns n ev"
  by (cases ev) (simp_all add: clones_def labelled_def)

lemma keeps_reading:
  assumes "keeps I reading m" "\<And>ev. reading ev \<Longrightarrow> P ev" shows "keeps I P m"
  by (rule steps_weaken [OF assms(1)]) (simp_all add: assms(2))

lemma keeps_recordings [emits_intros]:
  "keeps (keyed ns n) (footprint T ns n) (RecordLogs fuel env s sel b)"
  "keeps (keyed ns n) (footprint T ns n) (RecordMetrics fuel env s sel d)"
  by (rule keeps_reading [OF keeps_RecordLogs [OF metrics_free_keyed] reading_footprint]
      keeps_reading [OF keeps_RecordMetrics [OF metrics_free_keyed] reading_footprint], assumption)+

lemma keeps_Clone_footprint:
  assumes "service_conversion env" "src \<noteq> tgt"
  shows "keeps (keyed ns n) (footprint (Some tgt) ns n) (Clone env src tgt suffix)"
  by (rule steps_weaken [OF keeps_Clone [OF assms]]) (auto intro: clones_footprint)

lemma keeps_Delete_any:
  assumes "lawful env" "\<And>w tr. I w \<Longrightarrow> I (w\<lparr>w_trace := tr\<rparr>)"
  shows "keeps I (footprint (Some tgt) ns n) (Delete env tgt)"
proof -
  have got: "steps I (footprint (Some tgt) ns n) (ask (EvGetNamespace tgt) (\<lambda>tr. e_GetNamespace env tr tgt))
      (\<lambda>r w. I w \<and> (\<forall>x. r = Inr x \<longrightarrow> nsp_Name x = tgt))"
    by (rule steps_ask) (auto dest: GetNamespace_key [OF assms(1)] intro: assms(2))
  have listed: "steps I (footprint (Some tgt) ns n)
      (ask (EvListCRBs (clone_selector tgt)) (\<lambda>tr. e_ListCRBs env tr (clone_selector tgt)))
      (\<lambda>r w. I w \<and> (\<forall>bs. r = Inr bs \<longrightarrow> (\<forall>b \<in> set bs. labelled tgt b)))"
    by (rule steps_ask) (auto simp: labelled_def clone_selector_def dest: ListCRBs_labels [OF assms(1)] intro: assms(2))
  have bindings: "keeps I (footprint (Some tgt) ns n) (do {
      l \<leftarrow> ask (EvListCRBs (clone_selector tgt)) (\<lambda>tr. e_ListCRBs env tr (clone_selector tgt));
      case l of Inl err \<Rightarrow> ret (Some err) | Inr crbs \<Rightarrow> do { for_each crbs (delete_binding env); ret None } })"
    by (rule steps_bind_fact [OF listed]; intro keeps_case_sum keeps_ret keeps_bind keeps_for_each)
      (auto simp: delete_binding_def labelled_def intro!: emits_intros assms(2))
  show ?thesis
    unfolding Delete_def
    by (rule steps_bind_fact [OF got]; intro keeps_case_sum keeps_if keeps_ret keeps_bind keeps_ask keeps_case_option bindings)
      (simp_all add: assms(2))
qed

lemma keeps_Delete [emits_intros]:
  "lawful env \<Longrightarrow> keeps (keyed ns n) (footprint (Some tgt) ns n) (Delete env tgt)"
  by (rule keeps_Delete_any) simp_all

lemma keeps_namespaceExists [emits_intros]: "keeps (keyed ns n) (footprint T ns n) (namespaceExists env s)"
  unfolding namespaceExists_def by (intro emits_intros) auto

lemma keeps_record_event [emits_intros]: "keeps (keyed ns n) (footprint T ns n) (record_event a b c)"
  unfolding record_event_def by (intro emits_intros) auto

lemma keeps_statuses [emits_intros]:
  assumes "lawful env"
  shows "keeps (keyed ns n) (footprint T ns n) (setStatusRunning env r msg)"
    "keeps (keyed ns n) (footprint T ns n) (setStatusFailed env r msg)"
    "keeps (keyed ns n) (footprint T ns n) (setStatusFinishedFailure env da r msg reason logs scp)"
    "keeps (keyed ns n) (footprint T ns n) (setStatusFinishedSuccessfully env r msg scp)"
  unfolding setStatusRunning_def setStatusFailed_def setStatusFinishedFailure_def setStatusFinishedSuccessfully_def
    write_failure_def write_success_def file_run_def deref_def
  by (intro emits_intros assms lawful_laws(2) [OF assms])+

lemma keeps_createCheckNamespace:
  assumes "service_conversion env" "ns \<noteq> rn_targetNamespaceName r"
  shows "keeps (keyed ns n) (footprint (Some (rn_targetNamespaceName r)) ns n) (createCheckNamespace env r)"
proof -
  have x: "steps (keyed ns n) (footprint (Some (rn_targetNamespaceName r)) ns n) (gets w_whc)
      (\<lambda>x w. keyed ns n w \<and> whc_Namespace x = ns)"
    by (rule steps_gets) (simp add: keyed_def)
  show ?thesis unfolding createCheckNamespace_def
  proof (rule steps_bind_fact [OF x])
    fix x assume "whc_Namespace x = ns"
    then show "keeps (keyed ns n) (footprint (Some (rn_targetNamespaceName r)) ns n)
      (attempt (Clone env (whc_Namespace x) (rn_targetNamespaceName r) (spec_Suffix (whc_Spec x))) (\<lambda>e. case e of
         Some err \<Rightarrow> ret (Ret (Some err))
       | None \<Rightarrow> do {
           g \<leftarrow> ask (EvGetNamespace (rn_targetNamespaceName r)) (\<lambda>tr. e_GetNamespace env tr (rn_targetNamespaceName r));
           ret (Ret (case g of
               Inr ns \<Rightarrow> None
             | Inl err \<Rightarrow>
                 (if IsNotFound err
                  then Some (Errorf (''target namespace '' @ rn_targetNamespaceName r @ '' not found after cloning''))
                  else Some (Wrapf (''failed to get target namespace '' @ rn_targetNamespaceName r @ '' after cloning'') err)))) }))"
      using assms(2) by (intro emits_intros keeps_Clone_footprint assms(1)) simp_all
  qed
qed

lemma keeps_write_context:
  "wl_Namespace wl = T \<Longrightarrow> keeps (keyed ns n) (footprint (Some T) ns n) (write_context env sc wl)"
  unfolding write_context_def
  by (intro emits_intros keeps_update_workload)
    (auto simp: ApplyCheckSecurityContext_def split: Kind.splits)

lemma keeps_apply_attempt:
  assumes "lawful env" shows "keeps (keyed ns n) (footprint (Some T) ns n) (apply_attempt env T scp)"
  unfolding apply_attempt_def deref_def
  by (rule keeps_bind [OF keeps_gets], rule steps_bind_fact [OF steps_get_workload [OF assms]],
      intro emits_intros keeps_write_context) auto

lemma keeps_applySecurityContext [emits_intros]:
  assumes "lawful env" shows "keeps (keyed ns n) (footprint (Some T) ns n) (applySecurityContext env T scp)"
  unfolding applySecurityContext_def scale_down_def restore_scale_def
  by (intro emits_intros assms keeps_apply_attempt lawful_laws(2) [OF assms])

lemma keeps_poll [emits_intros]: "keeps (keyed ns n) (footprint T ns n) (poll_workload env s)"
  unfolding poll_workload_def by (intro emits_intros) auto

lemma keeps_wait_updated [emits_intros]:
  assumes "lawful env" shows "keeps (keyed ns n) (footprint (Some T) ns n) (wait_updated fuel env r T t)"
proof (induction fuel)
  case 0
  then show ?case by (simp add: keeps_ret)
next
  case (Suc fuel)
  have "keeps (keyed ns n) (footprint (Some T) ns n) (update_timeout fuel env r T t)"
    unfolding update_timeout_def recordLogs_def by (intro emits_intros assms) auto
  with Suc show ?case unfolding wait_updated.simps by (intro emits_intros) auto
qed

lemma steps_GetWorkloadUnderTest:
  assumes "lawful env"
  shows "steps (keyed ns n) (footprint T ns n) (GetWorkloadUnderTest env s)
    (\<lambda>r w. keyed ns n w \<and> (\<forall>wl. r = Inr wl \<longrightarrow> wl_Namespace wl = s))"
  unfolding GetWorkloadUnderTest_def Let_def
  by (rule steps_bind [OF keeps_gets], rule steps_bind_fact [OF steps_get_workload [OF assms]])
    (auto intro!: steps_ret split: sum.splits)

lemma keeps_start_workload:
  assumes "lawful env"
  shows "keeps (keyed ns n) (footprint (Some (rn_targetNamespaceName r)) ns n) (start_workload fuel env r scp)"
  unfolding start_workload_def apply_or_skip_def deref_def waitForUpdatedPods_def
  by (rule keeps_bind [OF keeps_statuses(1) [OF assms]], rule steps_bind_fact [OF steps_GetWorkloadUnderTest [OF assms]],
      intro keeps_case_sum)
    (auto intro!: emits_intros assms)

lemma keeps_record_signals:
  assumes "lawful env" shows "keeps (keyed ns n) (footprint T ns n) (record_signals fuel env r scp)"
  unfolding record_signals_def deref_def recordMetrics_def recordLogs_def
  by (intro emits_intros assms) auto

lemma keeps_conclude:
  assumes "lawful env"
  shows "keeps (keyed ns n) (footprint (Some (rn_targetNamespaceName r)) ns n) (conclude env da r scp recording)"
  unfolding conclude_def publish_def by (intro emits_intros assms)

lemma keeps_RunCheck:
  assumes "lawful env" "service_conversion env" "ns \<noteq> rn_targetNamespaceName r"
  shows "keeps (keyed ns n) (footprint (Some (rn_targetNamespaceName r)) ns n) (RunCheck fuel env da r scp)"
  unfolding RunCheck_def run_until_recorded_def prepare_namespace_def
  by (intro emits_intros assms(1) keeps_start_workload keeps_record_signals keeps_conclude
      keeps_createCheckNamespace assms(2,3)) auto


definition user_runner :: WorkloadCheckRunner where
  "user_runner = \<lparr>rn_checkType = ''user'', rn_conditionType = ''UserCheck'', rn_targetNamespaceName = ''apps-abc-user''\<rparr>"


section \<open>Nothing counts as finished before its recording is stored\<close>

fun quiet :: "env \<Rightarrow> string \<Rightarrow> event \<Rightarrow> bool" where
  "quiet env t (EvStatusUpdateWHC x) \<longleftrightarrow>
     (\<forall>c. m_Find (e_meta env) (whc_Conditions x) t = Some c \<longrightarrow> c_Status c \<noteq> ConditionTrue)"
| "quiet env t _ \<longleftrightarrow> True"

lemma quiet_others:
  "reading ev \<Longrightarrow> quiet env t ev" "clones src tgt ev \<Longrightarrow> quiet env t ev"
  by (cases ev; simp add: clones_def)+

lemma keeps_any_ask [intro]: "P ev \<Longrightarrow> keeps anywhere P (ask ev answer)"
  by (rule keeps_ask) simp_all

lemma quiet_SetCondition:
  assumes "lawful env" "c_Status c \<noteq> ConditionTrue"
  shows "keeps anywhere (quiet env (c_Type c)) (SetCondition env c)"
proof -
  have "keeps anywhere (quiet env (c_Type c)) (set_condition_attempt env c)"
    unfolding steps_def
  proof (intro allI impI)
    fix w :: world
    let ?ns = "whc_Namespace (w_whc w)" and ?n = "whc_Name (w_whc w)" and ?m = "set_condition_attempt env c"
    let ?w1 = "\<lambda>x. fetched x (w\<lparr>w_trace := w_trace w @ [EvGetWHC ?ns ?n]\<rparr>)"
    define w2 where "w2 x = set_status
      (\<lambda>st. st\<lparr>st_Conditions := m_Set (e_meta env) (e_now env (w_trace (?w1 x))) (st_Conditions st) c\<rparr>)
      ((?w1 x)\<lparr>w_trace := w_trace (?w1 x) @ [EvNow]\<rparr>)" for x
    have "quiet env (c_Type c) (EvStatusUpdateWHC (whc_current (w2 x)))" for x :: WorkloadHardeningCheck
      using meta_laws_Find_Set [OF lawful_laws(1) [OF assms(1)], of "e_now env (w_trace (?w1 x))" "whc_Conditions x" c] assms(2)
      by (auto simp: w2_def set_status_def)
    moreover have "quiet env (c_Type c) (EvGetWHC ?ns ?n)" "quiet env (c_Type c) EvNow" by simp_all
    moreover have "w_trace (w2 x) = w_trace w @ [EvGetWHC ?ns ?n, EvNow]" for x by (simp add: w2_def)
    moreover have "run_state ?m w = (case e_GetWHC env (w_trace w) ?ns ?n of
        Inl e \<Rightarrow> (if IsNotFound e then None else Some e, w\<lparr>w_trace := w_trace w @ [EvGetWHC ?ns ?n]\<rparr>)
      | Inr x \<Rightarrow> run_state (update_status env) (w2 x))"
      by (simp add: set_condition_attempt_def run_bind run_get_whc Let_def run_ask run_modify w2_def run_ret
          run_state_if split: sum.splits)
    ultimately show "(\<exists>evs. w_trace (snd (run_state ?m w)) = w_trace w @ evs \<and> (\<forall>ev\<in>set evs. quiet env (c_Type c) ev))
        \<and> anywhere (snd (run_state ?m w))"
      by (auto simp: run_update_status Let_def split: sum.splits prod.splits option.splits)
  qed
  with lawful_laws(2) [OF assms(1)] show ?thesis unfolding SetCondition_def by (intro keeps_retry)
qed

lemma metrics_free_anywhere: "metrics_free anywhere" "trace_free anywhere"
  by (simp_all add: metrics_free_def trace_free_def)

lemma quiet_reads:
  "keeps anywhere (quiet env t) (RecordLogs fuel env s sel b)"
  "keeps anywhere (quiet env t) (RecordMetrics fuel env s sel d)"
  by (rule keeps_reading [OF keeps_RecordLogs [OF metrics_free_anywhere(1)] quiet_others(1)]
      keeps_reading [OF keeps_RecordMetrics [OF metrics_free_anywhere(1)] quiet_others(1)], assumption)+

lemma quiet_list_groups: "keeps anywhere (quiet env t) (list_groups env ns ls rs)"
  by (rule keeps_list_groups) simp_all

lemma quiet_clone_bindings: "keeps anywhere (quiet env t) (clone_bindings env src tgt suffix crbs n)"
  by (induction crbs arbitrary: n)
    (auto simp: cloned_name_def rand_string_def Let_def intro!: emits_intros)

lemma quiet_clone_resources: "keeps anywhere (quiet env t) (clone_resources env src tgt rs)"
  by (induction rs) (auto simp: attempt_def intro!: emits_intros split: outcome.splits)

lemma quiet_Clone: "keeps anywhere (quiet env t) (Clone env src tgt suffix)"
  unfolding Clone_def clone_into_def cloneClusterRoleBindings_def GetTopLevelResources_def getAllResources_def Let_def
  by (intro emits_intros quiet_list_groups quiet_clone_bindings quiet_clone_resources) simp_all

lemma quiet_Delete: "keeps anywhere (quiet env t) (Delete env tgt)"
  unfolding Delete_def delete_binding_def by (intro emits_intros) simp_all

lemma quiet_workload:
  "keeps anywhere (quiet env t) (get_workload env k s name)"
  "keeps anywhere (quiet env t) (GetWorkloadUnderTest env s)"
  "keeps anywhere (quiet env t) (GetReplicaCount env s)"
  "keeps anywhere (quiet env t) (GetLabelSelector env)"
  "keeps anywhere (quiet env t) (update_workload env wl)"
  "keeps anywhere (quiet env t) (VerifyReadiness env wl)"
  "keeps anywhere (quiet env t) (poll_workload env s)"
  "keeps anywhere (quiet env t) (namespaceExists env s)"
  "keeps anywhere (quiet env t) (StoreRecording env s rec)"
  "keeps anywhere (quiet env t) (record_event a b c)"
  unfolding GetReplicaCount_def GetLabelSelector_def GetWorkloadUnderTest_def get_workload_def update_workload_def
    VerifyReadiness_def GetPodsForWorkload_def list_pods_def poll_workload_def namespaceExists_def
    StoreRecording_def storeEntry_def record_event_def
  by (intro emits_intros; simp)+

lemma quiet_Scale:
  assumes "lawful env" shows "keeps anywhere (quiet env t) (ScaleWorkloadUnderTest env s n)"
proof -
  have retried: "keeps anywhere (quiet env t) (RetryOnConflict env (scale_attempt env s n))"
    unfolding scale_attempt_def scale_write_def Let_def
    by (intro emits_intros quiet_workload lawful_laws(2) [OF assms]) simp_all
  show ?thesis unfolding ScaleWorkloadUnderTest_def
    by (intro emits_intros quiet_workload)
      (auto intro!: emits_intros retried split: Kind.splits)
qed

lemma quiet_apply:
  assumes "lawful env" shows "keeps anywhere (quiet env t) (apply_or_skip env s scp)"
  unfolding apply_or_skip_def deref_def applySecurityContext_def scale_down_def restore_scale_def apply_attempt_def write_context_def
  by (intro emits_intros quiet_workload quiet_Scale assms lawful_laws(2) [OF assms]) simp_all

lemma quiet_statuses:
  assumes "lawful env"
  shows "keeps anywhere (quiet env (rn_conditionType r)) (setStatusRunning env r msg)"
    "keeps anywhere (quiet env (rn_conditionType r)) (setStatusFailed env r msg)"
  unfolding setStatusRunning_def setStatusFailed_def
  using quiet_SetCondition [OF assms, of "mk_condition (rn_conditionType r) ConditionFalse reason msg" for reason]
    quiet_SetCondition [OF assms, of "mk_condition (rn_conditionType r) ConditionUnknown reason msg" for reason]
  by (auto simp: mk_condition_def intro!: keeps_bind keeps_ret)

lemma quiet_wait_updated:
  assumes "lawful env"
  shows "keeps anywhere (quiet env (rn_conditionType r)) (wait_updated fuel env r s t)"
proof (induction fuel)
  case 0
  then show ?case by (simp add: keeps_ret)
next
  case (Suc fuel)
  have timeout: "keeps anywhere (quiet env (rn_conditionType r)) (update_timeout fuel env r s t)"
    unfolding update_timeout_def recordLogs_def
    by (intro emits_intros quiet_statuses quiet_workload quiet_reads quiet_Delete assms) simp_all
  show ?case unfolding wait_updated.simps
    by (intro emits_intros quiet_workload timeout Suc) simp_all
qed

lemma quiet_until_recorded:
  assumes "lawful env"
  shows "keeps anywhere (quiet env (rn_conditionType r)) (run_until_recorded fuel env r scp)"
  unfolding run_until_recorded_def prepare_namespace_def createCheckNamespace_def start_workload_def
    waitForUpdatedPods_def record_signals_def recordMetrics_def recordLogs_def deref_def
  by (intro emits_intros quiet_statuses quiet_workload quiet_reads quiet_Delete quiet_Clone quiet_apply
      quiet_wait_updated assms) simp_all

lemma grows:
  assumes "lawful env"
  shows "keeps anywhere (\<lambda>_. True) (setStatusFinishedFailure env da r msg reason logs scp)"
    "keeps anywhere (\<lambda>_. True) (setStatusFinishedSuccessfully env r msg scp)"
proof -
  have get: "keeps anywhere (\<lambda>_. True) (get_whc env)" and upd: "keeps anywhere (\<lambda>_. True) (update_status env)"
    by (auto simp: steps_def run_get_whc run_update_status Let_def split: sum.splits prod.splits option.splits)
  have retry: "retry_laws (e_retry env)" by (rule lawful_laws(2) [OF assms])
  have modified: "keeps anywhere (\<lambda>_. True) (modify (set_status f))" for f by (rule keeps_modify) simp_all
  show "keeps anywhere (\<lambda>_. True) (setStatusFinishedFailure env da r msg reason logs scp)"
    "keeps anywhere (\<lambda>_. True) (setStatusFinishedSuccessfully env r msg scp)"
    unfolding setStatusFinishedFailure_def setStatusFinishedSuccessfully_def SetCondition_def set_condition_attempt_def
      write_failure_def write_success_def file_run_def deref_def record_event_def
    by (intro emits_intros get upd retry modified; simp)+
qed

lemma run_publish:
  assumes "lawful env"
  shows "\<exists>mid. w_trace (snd (run_state (publish env da r scp rec) w)) = w_trace w @ mid @
     (if returns (fst (run_state (publish env da r scp rec) w))
      then delete_calls env (w_trace w @ mid) (rn_targetNamespaceName r) else [])"
proof -
  let ?m = "if w_checkSuccessful w
      then do { setStatusFinishedSuccessfully env r ''Check finished successfully'' scp; ret (Ret ()) }
      else setStatusFinishedFailure env da r ''Signal recording failed'' ''Workload never became ready'' (wr_Logs rec) scp"
  have "keeps anywhere (\<lambda>_. True) ?m" by (intro keeps_if keeps_bind keeps_ret grows assms)
  then obtain mid where mid: "w_trace (snd (run_state ?m w)) = w_trace w @ mid"
    using stepsD_trace [of anywhere "\<lambda>_. True" ?m "\<lambda>_. anywhere" w] anywhere by blast
  obtain x v where x: "run_state ?m w = (x, v)" by force
  have "run_state (publish env da r scp rec) w = (case x of
      Ret _ \<Rightarrow> (Ret (), snd (run_state (Delete env (rn_targetNamespaceName r)) v))
    | Panic p \<Rightarrow> (Panic p, v) | NoReturn \<Rightarrow> (NoReturn, v))"
    using x by (simp add: publish_def run_bind run_gets run_attempt run_ret split: outcome.splits prod.splits)
  then show ?thesis
    using mid x Delete_calls [of env "rn_targetNamespaceName r" v]
    by (intro exI [of _ mid]) (cases x; simp)
qed

definition stored :: "env \<Rightarrow> trace \<Rightarrow> trace \<Rightarrow> bool \<Rightarrow> string \<Rightarrow> bool" where
  "stored env tr evs ok tgt \<longleftrightarrow> (\<exists>k v mid. e_Set env tr k v = None
     \<and> evs = EvSet k v # mid @ (if ok then delete_calls env (tr @ EvSet k v # mid) tgt else []))"

lemma run_conclude:
  assumes "lawful env"
  shows "\<exists>evs1 evs2. w_trace (snd (run_state (conclude env da r scp rec) w)) = w_trace w @ evs1 @ evs2
    \<and> (\<forall>ev \<in> set evs1. quiet env (rn_conditionType r) ev)
    \<and> (evs2 = [] \<or> stored env (w_trace w @ evs1) evs2 (returns (fst (run_state (conclude env da r scp rec) w)))
         (rn_targetNamespaceName r))"
proof -
  let ?fail = "do {
         setStatusFailed env r ''Failed to store workload recording in Valkey'';
         record_event ''Warning'' (failed_reason r) (''Failed to store '' @ rn_checkType r @ ''Check recording in Valkey'');
         ret (Ret ()) } :: unit outcome prog"
  have fail: "\<exists>evs. w_trace (snd (run_state ?fail v)) = w_trace v @ evs \<and> (\<forall>ev \<in> set evs. quiet env (rn_conditionType r) ev)" for v
  proof -
    have "keeps anywhere (quiet env (rn_conditionType r)) ?fail"
      by (intro emits_intros quiet_statuses quiet_workload assms)
    from stepsD_trace [OF this anywhere] show ?thesis .
  qed
  show ?thesis
  proof (cases "e_Marshal env rec")
    case (Inl e)
    then have "run_state (conclude env da r scp rec) w = run_state ?fail w"
      by (simp add: conclude_def StoreRecording_def run_bind run_gets run_ret)
    moreover obtain evs where "w_trace (snd (run_state ?fail w)) = w_trace w @ evs" "\<forall>ev \<in> set evs. quiet env (rn_conditionType r) ev"
      using fail [of w] by blast
    ultimately show ?thesis by (intro exI [of _ evs] exI [of _ "[] :: trace"]) (simp del: run_bind)
  next
    case (Inr json)
    define k where "k = to_lower (recording_key (recording_prefix (w_whc w)) (wr_Type rec))"
    let ?v = "w\<lparr>w_trace := w_trace w @ [EvSet k json]\<rparr>"
    have run: "run_state (conclude env da r scp rec) w = (case e_Set env (w_trace w) k json of
        Some e \<Rightarrow> run_state ?fail ?v | None \<Rightarrow> run_state (publish env da r scp rec) ?v)"
      using Inr by (simp add: conclude_def StoreRecording_def storeEntry_def run_bind run_gets run_ask k_def
          run_state_case_option split: option.splits)
    show ?thesis
    proof (cases "e_Set env (w_trace w) k json")
      case (Some e)
      obtain evs where "w_trace (snd (run_state ?fail ?v)) = w_trace ?v @ evs" "\<forall>ev \<in> set evs. quiet env (rn_conditionType r) ev"
        using fail [of ?v] by blast
      then show ?thesis using run Some by (intro exI [of _ "EvSet k json # evs"] exI [of _ "[] :: trace"]) simp
    next
      case None
      obtain mid where "w_trace (snd (run_state (publish env da r scp rec) ?v)) = w_trace ?v @ mid @
          (if returns (fst (run_state (publish env da r scp rec) ?v))
           then delete_calls env (w_trace ?v @ mid) (rn_targetNamespaceName r) else [])"
        using run_publish [OF assms, of da r scp rec ?v] by blast
      then show ?thesis using run None
        by (intro exI [of _ "[] :: trace"] exI [of _ "EvSet k json # mid @
            (if returns (fst (run_state (publish env da r scp rec) ?v))
             then delete_calls env (w_trace w @ EvSet k json # mid) (rn_targetNamespaceName r) else [])"])
          (auto simp: stored_def)
    qed
  qed
qed



end
