(* ===== verification/Webhooks.thy ===== *)
theory Webhooks
  imports Runner "HOL-Library.Char_ord" "HOL-Library.List_Lexorder"
begin

text \<open>
  \<open>internal/webhook/v1alpha1\<close>: the admission of the two custom resources. \<open>Default\<close> mutates an object before
  it is validated; \<open>ValidateCreate\<close>, \<open>ValidateUpdate\<close> and \<open>ValidateDelete\<close> admit it or return an error.
\<close>

section \<open>Objects\<close>

datatype Object =
    WHCObject WorkloadHardeningCheck
  | NHCObject NamespaceHardeningCheck
  | OtherTyped string

fun type_text :: "Object \<Rightarrow> string" where
  "type_text (WHCObject x) = ''*v1alpha1.WorkloadHardeningCheck''"
| "type_text (NHCObject x) = ''*v1alpha1.NamespaceHardeningCheck''"
| "type_text (OtherTyped t) = t"

definition wrong_type :: "string \<Rightarrow> Object \<Rightarrow> error" where
  "wrong_type expected obj = Errorf (''expected '' @ expected @ '' object but got '' @ type_text obj)"

definition wrong_types :: "string \<Rightarrow> Object \<Rightarrow> Object \<Rightarrow> error" where
  "wrong_types expected a b = Errorf (''expected '' @ expected @ '' object but got '' @ type_text a @ '' and '' @ type_text b)"

section \<open>Workload hardening checks\<close>

definition with_suffix :: "string \<Rightarrow> WorkloadHardeningCheck \<Rightarrow> WorkloadHardeningCheck" where
  "with_suffix s x = x\<lparr>whc_Spec := (whc_Spec x)\<lparr>spec_Suffix := s\<rparr>\<rparr>"

definition whc_Default :: "env \<Rightarrow> Object \<Rightarrow> (error + Object) outcome prog" where
  "whc_Default env obj = (case obj of
     WHCObject x \<Rightarrow>
       (if length (spec_Suffix (whc_Spec x)) = 0 then
          attempt (rand_string env 8) (\<lambda>s. ret (Ret (Inr (WHCObject (with_suffix s x)))))
        else ret (Ret (Inr obj)))
   | _ \<Rightarrow> ret (Ret (Inl (wrong_type ''an WorkloadHardeningCheck'' obj))))"

text \<open>The loop over the baseline references; the first one that cannot be read ends it.\<close>

fun check_references :: "env \<Rightarrow> string list \<Rightarrow> error option prog" where
  "check_references env [] = ret None"
| "check_references env (ref # refs) = do {
     r \<leftarrow> GetRecording env ref;
     case r of
       Inl err \<Rightarrow> ret (Some (Wrapf (''failed to get baseline recording '' @ ref @ '' from ValKey'') err))
     | Inr _ \<Rightarrow> check_references env refs }"

definition whc_validate_new :: "env \<Rightarrow> WorkloadHardeningCheck \<Rightarrow> error option prog" where
  "whc_validate_new env x =
     (if spec_Suffix (whc_Spec x) = [] then
        ret (Some (Errorf ''suffix must be set during creation of WorkloadHardeningCheck''))
      else do {
        NewWorkloadCheckManager x;
        running \<leftarrow> VerifyRunning env (whc_Namespace x);
        case running of
          Inl err \<Rightarrow> ret (Some (Wrapf ''failed to verify if target workload is running'' err))
        | Inr b \<Rightarrow>
            (if \<not> b then ret (Some (Errorf (''target workload '' @ whc_Namespace x @ ''/'' @
               tr_Name (spec_TargetRef (whc_Spec x)) @ '' is not running'')))
             else check_references env (spec_BaselineRecordingReference (whc_Spec x))) })"

definition whc_ValidateCreate :: "env \<Rightarrow> Object \<Rightarrow> error option prog" where
  "whc_ValidateCreate env obj = (case obj of
     WHCObject x \<Rightarrow> whc_validate_new env x
   | _ \<Rightarrow> ret (Some (wrong_type ''an WorkloadHardeningCheck'' obj)))"

definition references_differ :: "string list \<Rightarrow> string list \<Rightarrow> bool" where
  "references_differ old new \<longleftrightarrow>
     (if length old \<noteq> length new then True
      else if length old > 0 then sort old \<noteq> sort new
      else False)"

definition whc_validate_change :: "WorkloadHardeningCheck \<Rightarrow> WorkloadHardeningCheck \<Rightarrow> error option" where
  "whc_validate_change old new =
     (if spec_Suffix (whc_Spec old) \<noteq> spec_Suffix (whc_Spec new) then
        Some (Errorf ''suffix cannot be changed during update of WorkloadHardeningCheck'')
      else if tr_Name (spec_TargetRef (whc_Spec old)) \<noteq> tr_Name (spec_TargetRef (whc_Spec new))
          \<or> tr_Kind (spec_TargetRef (whc_Spec old)) \<noteq> tr_Kind (spec_TargetRef (whc_Spec new)) then
        Some (Errorf ''targetRef cannot be changed during update of WorkloadHardeningCheck'')
      else if references_differ (spec_BaselineRecordingReference (whc_Spec old)) (spec_BaselineRecordingReference (whc_Spec new)) then
        Some (Errorf ''baselineRecordingReference cannot be changed during update of WorkloadHardeningCheck'')
      else None)"

definition whc_ValidateUpdate :: "Object \<Rightarrow> Object \<Rightarrow> error option" where
  "whc_ValidateUpdate old new = (case (old, new) of
     (WHCObject x, WHCObject y) \<Rightarrow> whc_validate_change x y
   | _ \<Rightarrow> Some (wrong_types ''an WorkloadHardeningCheck'' old new))"

definition whc_ValidateDelete :: "Object \<Rightarrow> error option" where
  "whc_ValidateDelete obj = (case obj of
     WHCObject x \<Rightarrow> None
   | _ \<Rightarrow> Some (wrong_type ''an WorkloadHardeningCheck'' obj))"

section \<open>Namespace hardening checks\<close>

definition with_nhc_suffix :: "string \<Rightarrow> NamespaceHardeningCheck \<Rightarrow> NamespaceHardeningCheck" where
  "with_nhc_suffix s x = x\<lparr>nhc_Spec := (nhc_Spec x)\<lparr>nspec_Suffix := s\<rparr>\<rparr>"

definition nhc_Default :: "env \<Rightarrow> Object \<Rightarrow> (error + Object) outcome prog" where
  "nhc_Default env obj = (case obj of
     NHCObject x \<Rightarrow>
       (if length (nspec_Suffix (nhc_Spec x)) = 0 then
          attempt (rand_string env 5) (\<lambda>s. ret (Ret (Inr (NHCObject (with_nhc_suffix s x)))))
        else ret (Ret (Inr obj)))
   | _ \<Rightarrow> ret (Ret (Inl (wrong_type ''an NamespaceHardeningCheck'' obj))))"

definition nhc_validate_new :: "env \<Rightarrow> NamespaceHardeningCheck \<Rightarrow> error option prog" where
  "nhc_validate_new env x =
     (let target = nspec_TargetNamespace (nhc_Spec x) in
      if nspec_Suffix (nhc_Spec x) = [] then
        ret (Some (Errorf ''suffix must be set during creation of NamespaceHardeningCheck''))
      else if target = [] then
        ret (Some (Errorf ''namespace must be set during creation of NamespaceHardeningCheck''))
      else do {
        g \<leftarrow> ask (EvGetNamespace target) (\<lambda>tr. e_GetNamespace env tr target);
        case g of
          Inl err \<Rightarrow> ret (Some (Errorf (''target namespace '' @ target @ '' does not exist'')))
        | Inr ns \<Rightarrow> ret None })"

definition nhc_ValidateCreate :: "env \<Rightarrow> Object \<Rightarrow> error option prog" where
  "nhc_ValidateCreate env obj = (case obj of
     NHCObject x \<Rightarrow> nhc_validate_new env x
   | _ \<Rightarrow> ret (Some (wrong_type ''a NamespaceHardeningCheck'' obj)))"

definition nhc_ValidateUpdate :: "Object \<Rightarrow> Object \<Rightarrow> error option" where
  "nhc_ValidateUpdate old new = (case (old, new) of
     (NHCObject x, NHCObject y) \<Rightarrow>
       (if nspec_Suffix (nhc_Spec x) \<noteq> nspec_Suffix (nhc_Spec y) then
          Some (Errorf ''suffix cannot be changed during update of NamespaceHardeningCheck'')
        else if nspec_TargetNamespace (nhc_Spec x) \<noteq> nspec_TargetNamespace (nhc_Spec y) then
          Some (Errorf ''targetNamespace cannot be changed during update of NamespaceHardeningCheck'')
        else None)
   | _ \<Rightarrow> Some (Errorf (''expected a NamespaceHardeningCheck object for the newObj but got '' @ type_text new)))"

definition nhc_ValidateDelete :: "Object \<Rightarrow> error option" where
  "nhc_ValidateDelete obj = (case obj of
     NHCObject x \<Rightarrow> None
   | _ \<Rightarrow> Some (wrong_type ''a NamespaceHardeningCheck'' obj))"

section \<open>Updates of an admitted resource\<close>

text \<open>
  What the API server does with an update of a stored workload check: it keeps the key of the object, lets
  \<open>Default\<close> mutate the new one and stores it when \<open>ValidateUpdate\<close> admits it. Otherwise the old object stays.
\<close>

fun admitted_change :: "WorkloadHardeningCheck \<Rightarrow> (error + Object) outcome \<Rightarrow> WorkloadHardeningCheck" where
  "admitted_change old (Ret (Inr (WHCObject y))) =
     (if whc_ValidateUpdate (WHCObject old) (WHCObject y) = None then y else old)"
| "admitted_change old d = old"

definition request_update :: "env \<Rightarrow> WorkloadHardeningCheck \<Rightarrow> WorkloadHardeningCheck \<Rightarrow> WorkloadHardeningCheck prog" where
  "request_update env old new = do {
     d \<leftarrow> whc_Default env (WHCObject (new\<lparr>whc_Name := whc_Name old, whc_Namespace := whc_Namespace old\<rparr>));
     ret (admitted_change old d) }"

fun request_updates :: "env \<Rightarrow> WorkloadHardeningCheck \<Rightarrow> WorkloadHardeningCheck list \<Rightarrow> WorkloadHardeningCheck prog" where
  "request_updates env x [] = ret x"
| "request_updates env x (y # ys) = do {
     x' \<leftarrow> request_update env x y;
     request_updates env x' ys }"

section \<open>Properties\<close>

text \<open>The loop over sorted copies compares the references as multisets.\<close>

lemma references_differ_iff: "references_differ old new \<longleftrightarrow> mset old \<noteq> mset new"
proof -
  have "sort old = sort new \<longleftrightarrow> mset old = mset new"
    by (metis mset_sort properties_for_sort sorted_sort)
  then show ?thesis by (auto simp: references_differ_def dest: mset_eq_length)
qed

text \<open>What no update of a workload check may change.\<close>

definition same_identity :: "WorkloadHardeningCheck \<Rightarrow> WorkloadHardeningCheck \<Rightarrow> bool" where
  "same_identity x y \<longleftrightarrow> whc_Namespace y = whc_Namespace x \<and> whc_Name y = whc_Name x
     \<and> spec_Suffix (whc_Spec y) = spec_Suffix (whc_Spec x) \<and> spec_TargetRef (whc_Spec y) = spec_TargetRef (whc_Spec x)
     \<and> mset (spec_BaselineRecordingReference (whc_Spec y)) = mset (spec_BaselineRecordingReference (whc_Spec x))"

lemma validate_change_iff:
  "whc_validate_change x y = None \<longleftrightarrow> spec_Suffix (whc_Spec y) = spec_Suffix (whc_Spec x)
     \<and> spec_TargetRef (whc_Spec y) = spec_TargetRef (whc_Spec x)
     \<and> mset (spec_BaselineRecordingReference (whc_Spec y)) = mset (spec_BaselineRecordingReference (whc_Spec x))"
proof -
  have "a = b \<longleftrightarrow> tr_Name a = tr_Name b \<and> tr_Kind a = tr_Kind b" for a b :: TargetReference by (cases a; cases b) auto
  then show ?thesis by (auto simp: whc_validate_change_def references_differ_iff)
qed

lemma Default_key:
  "fst (run_state (whc_Default env (WHCObject x)) w) = Ret (Inr (WHCObject y)) \<Longrightarrow>
    whc_Namespace y = whc_Namespace x \<and> whc_Name y = whc_Name x"
  by (auto simp: whc_Default_def rand_string_def with_suffix_def run_simps split: if_splits)

lemma request_update_identity: "same_identity x (fst (run_state (request_update env x y) w))"
proof -
  let ?y = "y\<lparr>whc_Name := whc_Name x, whc_Namespace := whc_Namespace x\<rparr>"
  obtain d w' where d: "run_state (whc_Default env (WHCObject ?y)) w = (d, w')" by force
  have "same_identity x z" if "d = Ret (Inr (WHCObject z))" "whc_ValidateUpdate (WHCObject x) (WHCObject z) = None" for z
    using Default_key [of env ?y w z] that d by (simp add: whc_ValidateUpdate_def validate_change_iff same_identity_def)
  then have "same_identity x (admitted_change x d)"
    by (cases "(x, d)" rule: admitted_change.cases) (simp_all add: same_identity_def)
  then show ?thesis by (simp add: request_update_def run_bind d run_ret)
qed

lemma same_identity_trans: "same_identity x y \<Longrightarrow> same_identity y z \<Longrightarrow> same_identity x z"
  by (simp add: same_identity_def)

lemma request_updates_identity: "same_identity x (fst (run_state (request_updates env x ys) w))"
proof (induction ys arbitrary: x w)
  case Nil
  then show ?case by (simp add: run_ret same_identity_def)
next
  case (Cons y ys)
  obtain x' w' where x': "run_state (request_update env x y) w = (x', w')" by (meson surj_pair)
  have "same_identity x x'" using request_update_identity [of x env y w] by (simp add: x')
  from same_identity_trans [OF this Cons.IH [of x' w']] show ?case by (simp add: run_bind x')
qed


text \<open>What validating a creation may do: it only reads.\<close>

fun observing :: "event \<Rightarrow> bool" where
  "observing (EvGetWorkload k ns n) = True"
| "observing (EvListPods ns sel) = True"
| "observing (EvGet k) = True"
| "observing ev = False"

text \<open>\<open>was_read env tr evs k\<close>: among the calls \<open>evs\<close> after \<open>tr\<close> the entry \<open>k\<close> was read without an error.\<close>

definition was_read :: "env \<Rightarrow> trace \<Rightarrow> trace \<Rightarrow> string \<Rightarrow> bool" where
  "was_read env tr evs k \<longleftrightarrow> (\<exists>pre post v. evs = pre @ EvGet k # post \<and> e_Get env (tr @ pre) k = Inr v)"

lemma was_read_later: "was_read env (tr @ pre) evs k \<Longrightarrow> was_read env tr (pre @ evs) k"
  unfolding was_read_def by (metis append.assoc)

definition reference_key :: "string \<Rightarrow> string" where
  "reference_key ref = to_lower (''recording:'' @ ref)"

lemma run_GetRecording:
  "run_state (GetRecording env ref) w =
    (case e_Get env (w_trace w) (reference_key ref) of
       Inl e \<Rightarrow> Inl e
     | Inr val \<Rightarrow> if val = [] then Inr None else (case e_Unmarshal env val of Inl e \<Rightarrow> Inl e | Inr rec \<Rightarrow> Inr (Some rec)),
     w\<lparr>w_trace := w_trace w @ [EvGet (reference_key ref)]\<rparr>)"
  unfolding GetRecording_def getEntry_def reference_key_def
  by (simp add: run_bind run_ask run_ret run_state_case_sum run_state_if split: sum.split)

lemma fetched_trace: "w_trace (fetched x w) = w_trace w"
  by (simp add: fetched_def split: option.split)

lemma check_references_reads:
  "\<exists>evs. w_trace (snd (run_state (check_references env refs) w)) = w_trace w @ evs \<and> (\<forall>ev \<in> set evs. observing ev)
    \<and> (fst (run_state (check_references env refs) w) = None \<longrightarrow> (\<forall>ref \<in> set refs. was_read env (w_trace w) evs (reference_key ref)))"
proof (induction refs arbitrary: w)
  case Nil
  then show ?case by (simp add: run_ret)
next
  case (Cons ref refs)
  let ?k = "reference_key ref" and ?w = "w\<lparr>w_trace := w_trace w @ [EvGet (reference_key ref)]\<rparr>"
  obtain r where r: "run_state (GetRecording env ref) w = (r, ?w)" and ok: "\<And>x. r = Inr x \<Longrightarrow> \<exists>v. e_Get env (w_trace w) ?k = Inr v"
    by (cases "e_Get env (w_trace w) (reference_key ref)") (simp_all add: run_GetRecording)
  show ?case
  proof (cases r)
    case (Inl e)
    then show ?thesis by (simp add: run_bind r run_ret)
  next
    case (Inr x)
    obtain evs where evs: "w_trace (snd (run_state (check_references env refs) ?w)) = w_trace ?w @ evs"
        "\<forall>ev \<in> set evs. observing ev"
        "fst (run_state (check_references env refs) ?w) = None \<longrightarrow> (\<forall>ref \<in> set refs. was_read env (w_trace ?w) evs (reference_key ref))"
      using Cons.IH [of ?w] by (elim exE conjE) (rule that; assumption)
    have "was_read env (w_trace w) (EvGet ?k # evs) ?k"
      using ok [OF Inr] unfolding was_read_def by (metis append_Nil append_Nil2)
    moreover have "was_read env (w_trace w) (EvGet ?k # evs) k" if "was_read env (w_trace ?w) evs k" for k
      using was_read_later [of env "w_trace w" "[EvGet ?k]" evs k] that by simp
    ultimately show ?thesis using evs Inr by (auto simp: run_bind r)
  qed
qed

lemma observing_readiness: "keeps anywhere observing (VerifyRunning env ns)"
  unfolding VerifyRunning_def GetWorkloadUnderTest_def get_workload_def VerifyReadiness_def GetPodsForWorkload_def list_pods_def
  by (intro emits_intros; simp)

text \<open>
  C23. Validating the creation of a workload check changes nothing, whatever the cluster answers. When it admits
  the check, its suffix is set and an entry was read for every baseline reference it names.
\<close>

theorem creation_validated:
  "\<exists>evs. w_trace (snd (run_state (whc_ValidateCreate env (WHCObject x)) w)) = w_trace w @ evs
    \<and> list_all observing evs
    \<and> (fst (run_state (whc_ValidateCreate env (WHCObject x)) w) = None \<longrightarrow> spec_Suffix (whc_Spec x) \<noteq> []
      \<and> list_all (\<lambda>ref. was_read env (w_trace w) evs (reference_key ref)) (spec_BaselineRecordingReference (whc_Spec x)))"
proof (cases "spec_Suffix (whc_Spec x) = []")
  case True
  then show ?thesis by (simp add: whc_ValidateCreate_def whc_validate_new_def run_ret)
next
  case False
  let ?refs = "spec_BaselineRecordingReference (whc_Spec x)"
  obtain r w' where r: "run_state (VerifyRunning env (whc_Namespace x)) (fetched x w) = (r, w')" by force
  obtain evs where evs: "w_trace w' = w_trace w @ evs" "\<forall>ev \<in> set evs. observing ev"
    using stepsD_trace [OF observing_readiness [of env "whc_Namespace x"] anywhere, of "fetched x w"] by (auto simp: r fetched_trace)
  have run: "run_state (whc_ValidateCreate env (WHCObject x)) w = (case r of
      Inl err \<Rightarrow> (Some (Wrapf ''failed to verify if target workload is running'' err), w')
    | Inr b \<Rightarrow> if b then run_state (check_references env ?refs) w'
        else (Some (Errorf (''target workload '' @ whc_Namespace x @ ''/'' @ tr_Name (spec_TargetRef (whc_Spec x)) @ '' is not running'')), w'))"
    using False r by (simp add: whc_ValidateCreate_def whc_validate_new_def NewWorkloadCheckManager_def run_bind run_modify run_ret
        run_state_case_sum run_state_if split: sum.split)
  obtain evs' where evs': "w_trace (snd (run_state (check_references env ?refs) w')) = w_trace w' @ evs'"
      "\<forall>ev \<in> set evs'. observing ev"
      "fst (run_state (check_references env ?refs) w') = None \<longrightarrow> (\<forall>ref \<in> set ?refs. was_read env (w_trace w') evs' (reference_key ref))"
    using check_references_reads [of env ?refs w'] by (elim exE conjE) (rule that; assumption)
  have later: "was_read env (w_trace w) (evs @ evs') k" if "was_read env (w_trace w') evs' k" for k
    using was_read_later [of env "w_trace w" evs evs' k] that by (simp add: evs(1))
  show ?thesis
  proof (cases "\<exists>b. r = Inr b \<and> b")
    case True
    then show ?thesis using evs evs' later False by (intro exI [of _ "evs @ evs'"]) (auto simp: run list_all_iff)
  next
    case no: False
    then show ?thesis using evs by (intro exI [of _ evs]) (auto simp: run list_all_iff split: sum.splits)
  qed
qed

text \<open>A cluster in which the workload is ready, and a check that refers to one recording.\<close>

definition ready_pod :: Pod where
  "ready_pod = \<lparr>pd_Namespace = ''apps'', pd_Name = ''web-1'', pd_UID = ''u1'', pd_NodeName = ''node-1'',
     pd_Containers = [''web''], pd_InitContainers = [], pd_Phase = ''Running'', pd_DeletionTimestamp = None,
     pd_StartTime = Some 0, pd_ContainerStatuses = [\<lparr>cs_Name = ''web'', cs_Waiting = None, cs_Terminated = None, cs_Ready = True\<rparr>]\<rparr>"

definition referring_whc :: WorkloadHardeningCheck where
  "referring_whc = empty_whc\<lparr>whc_Spec := (whc_Spec empty_whc)\<lparr>spec_BaselineRecordingReference := [''old:baseline'']\<rparr>\<rparr>"

definition stored_env :: env where
  "stored_env = (ref_env empty_whc [] [ready_pod])\<lparr>e_Get := \<lambda>tr k. Inr []\<rparr>"

theorem creation_validated_witness:
  "\<exists>evs. w_trace (snd (run_state (whc_ValidateCreate stored_env (WHCObject referring_whc)) (start_world empty_whc))) = evs
    \<and> list_all observing evs \<and> was_read stored_env [] evs (reference_key ''old:baseline'')"
proof -
  have "fst (run_state (whc_ValidateCreate stored_env (WHCObject referring_whc)) (start_world empty_whc)) = None"
  proof -
    have k: "to_lower ''Deployment'' = ''deployment''" by code_simp
    have ready: "fst (run_state (VerifyRunning stored_env ''apps'') (fetched referring_whc (start_world empty_whc))) = Inr True"
      unfolding VerifyRunning_def GetWorkloadUnderTest_def get_workload_def VerifyReadiness_def GetPodsForWorkload_def list_pods_def
      by (simp add: run_simps fetched_def referring_whc_def empty_whc_def stored_env_def ref_env_def start_world_def k kind_of_def
        GetLabelSelectorForWorkload_def ref_workload_def ready_pod_def)
    moreover have "fst (run_state (check_references stored_env [''old:baseline'']) v) = None" for v
      by (simp add: run_bind run_GetRecording run_ret stored_env_def)
    ultimately show ?thesis
      by (cases "run_state (VerifyRunning stored_env ''apps'') (fetched referring_whc (start_world empty_whc))")
        (simp add: whc_ValidateCreate_def whc_validate_new_def NewWorkloadCheckManager_def run_bind run_modify run_state_case_sum
          run_state_if referring_whc_def empty_whc_def del: check_references.simps)
  qed
  then show ?thesis using creation_validated [of stored_env referring_whc "start_world empty_whc"]
    by (auto simp: start_world_def referring_whc_def)
qed

end
