(* ===== verification/Dispatch.thy ===== *)
theory Dispatch
  imports Runner
begin

text \<open>
  What the two controllers share: the reply of a reconciliation and their calls of the executor. Between
  two calls of a reconciliation runs may end (\<open>e_completed\<close>), which takes them out of the registry as
  \<open>safeRun\<close> does; the executor of theory Executor is \<open>w_exec\<close>. A run starts in a goroutine of its own, so
  here it is only the job that was submitted; \<open>run_check_job\<close> is what it does.
\<close>

section \<open>Replies\<close>

record Result =
  rr_Requeue :: bool
  rr_RequeueAfter :: Duration

type_synonym reply = "Result \<times> error option"

definition finished_reply :: reply where
  "finished_reply = (\<lparr>rr_Requeue = False, rr_RequeueAfter = 0\<rparr>, None)"

definition failed_reply :: "error \<Rightarrow> reply" where
  "failed_reply e = (\<lparr>rr_Requeue = False, rr_RequeueAfter = 0\<rparr>, Some e)"

definition requeue_after :: "Duration \<Rightarrow> reply" where
  "requeue_after d = (\<lparr>rr_Requeue = False, rr_RequeueAfter = d\<rparr>, None)"

text \<open>A stage of a reconciliation replies or goes on to the next one.\<close>

definition or_else :: "reply option outcome prog \<Rightarrow> reply outcome prog \<Rightarrow> reply outcome prog" where
  "or_else stage rest = attempt stage (\<lambda>r. case r of Some v \<Rightarrow> ret (Ret v) | None \<Rightarrow> rest)"

definition reply_with :: "reply \<Rightarrow> reply option outcome prog" where
  "reply_with v = ret (Ret (Some v))"

definition go_on :: "reply option outcome prog" where
  "go_on = ret (Ret None)"

text \<open>Setting a condition and dropping the error.\<close>

definition set_cond :: "env \<Rightarrow> string \<Rightarrow> ConditionStatus \<Rightarrow> string \<Rightarrow> string \<Rightarrow> unit prog" where
  "set_cond env type status reason message = do {
     SetCondition env (mk_condition type status reason message);
     ret () }"

section \<open>The executor\<close>

definition ended :: "string \<Rightarrow> executor \<Rightarrow> executor" where
  "ended i e = (if IsRunning i e then safeRun i (Ret ()) e else e)"

definition completions :: "env \<Rightarrow> unit prog" where
  "completions env = modify (\<lambda>w. w\<lparr>w_exec := fold ended (e_completed env (w_trace w)) (w_exec w)\<rparr>)"

definition is_running :: "env \<Rightarrow> string \<Rightarrow> bool prog" where
  "is_running env i = do {
     completions env;
     emit (EvIsRunning i);
     gets (\<lambda>w. IsRunning i (w_exec w)) }"

definition submit :: "env \<Rightarrow> string \<Rightarrow> Job \<Rightarrow> unit outcome prog" where
  "submit env i job = do {
     completions env;
     r \<leftarrow> gets (\<lambda>w. Submit i (w_exec w));
     modify (\<lambda>w. w\<lparr>w_exec := snd r\<rparr>);
     case fst r of
       Ret b \<Rightarrow> do { emit (EvSubmit i job b); ret (Ret ()) }
     | Panic m \<Rightarrow> ret (Panic m)
     | NoReturn \<Rightarrow> ret NoReturn }"

definition cancel_prefix :: "env \<Rightarrow> string \<Rightarrow> unit prog" where
  "cancel_prefix env prefix = do {
     completions env;
     ord \<leftarrow> map_order env;
     modify (\<lambda>w. w\<lparr>w_exec := CancelByPrefix ord prefix (w_exec w)\<rparr>);
     emit (EvCancelByPrefix prefix) }"

text \<open>A security context that a job is given by a pointer of its own.\<close>

definition own_pointer :: "SecurityContextDefaults option \<Rightarrow> nat option prog" where
  "own_pointer sc = (case sc of
     None \<Rightarrow> ret None
   | Some s \<Rightarrow> do {
       a \<leftarrow> gets (\<lambda>w. length (w_heap w));
       modify (\<lambda>w. w\<lparr>w_heap := w_heap w @ [s]\<rparr>);
       ret (Some a) })"

text \<open>
  The delay before a second baseline, which the context of the run may end; the result says whether the
  run goes on.
\<close>

definition baseline_delay :: "env \<Rightarrow> bool prog" where
  "baseline_delay env = do {
     k \<leftarrow> ask (EvRand 9) (\<lambda>tr. e_rand env tr mod 9);
     emit (EvSleep (int ((10 + k) * Second)));
     gets (\<lambda>w. \<not> e_ctxDone env (w_trace w)) }"

text \<open>The function submitted for a check: a runner on the custom resource, with the context at \<open>scp\<close>.\<close>

definition run_check_job :: "nat \<Rightarrow> env \<Rightarrow> 'd drain_api \<Rightarrow> WorkloadHardeningCheck \<Rightarrow> string \<Rightarrow> nat option \<Rightarrow> bool \<Rightarrow>
    unit outcome prog" where
  "run_check_job fuel env da x checkType scp delayed = do {
     go \<leftarrow> (if delayed then baseline_delay env else ret True);
     if \<not> go then ret (Ret ())
     else do {
       r \<leftarrow> NewWorkloadCheckRunner env x checkType;
       RunCheck fuel env da r scp } }"

section \<open>What the calls touch\<close>

lemma keyed_exec [simp]: "keyed ns n (w\<lparr>w_exec := e\<rparr>) = keyed ns n w"
  by (simp add: keyed_def)

lemma keeps_completions [emits_intros]: "keeps (keyed ns n) P (completions env)"
  unfolding completions_def by (intro emits_intros) simp_all

lemma keeps_is_running [emits_intros]:
  "P (EvIsRunning i) \<Longrightarrow> keeps (keyed ns n) P (is_running env i)"
  unfolding is_running_def by (intro emits_intros) simp_all

lemma keeps_submit [emits_intros]:
  "(\<And>b. P (EvSubmit i job b)) \<Longrightarrow> keeps (keyed ns n) P (submit env i job)"
  unfolding submit_def by (intro emits_intros) simp_all

lemma keeps_cancel_prefix [emits_intros]:
  "P (EvCancelByPrefix p) \<Longrightarrow> keeps (keyed ns n) P (cancel_prefix env p)"
  unfolding cancel_prefix_def by (intro emits_intros) simp_all

lemma keeps_own_pointer [emits_intros]: "keeps (keyed ns n) P (own_pointer sc)"
  unfolding own_pointer_def by (intro emits_intros) simp_all

lemma keeps_or_else [emits_intros]:
  "keeps I P stage \<Longrightarrow> keeps I P rest \<Longrightarrow> keeps I P (or_else stage rest)"
  unfolding or_else_def by (intro emits_intros)

lemma keeps_replies [emits_intros]: "keeps I P (reply_with v)" "keeps I P go_on"
  unfolding reply_with_def go_on_def by (intro emits_intros)+

lemma keeps_set_cond [emits_intros]:
  "keeps I P (SetCondition env (mk_condition t s r m)) \<Longrightarrow> keeps I P (set_cond env t s r m)"
  unfolding set_cond_def by (intro emits_intros)

text \<open>A submitted check changes only the clone of its type and the status of its resource.\<close>

lemma steps_new_runner:
  "steps anywhere (footprint T (whc_Namespace x) (whc_Name x)) (NewWorkloadCheckRunner env x t)
    (\<lambda>r w. keyed (whc_Namespace x) (whc_Name x) w \<and> rn_targetNamespaceName r = generateTargetNamespaceName x t)"
  unfolding NewWorkloadCheckRunner_def NewWorkloadCheckRunnerForNamespace_def
  by (rule steps_bind [where R = "\<lambda>_. keyed (whc_Namespace x) (whc_Name x)"])
    (auto intro!: steps_modify steps_ret)

lemma run_check_job_confined:
  assumes "lawful env" "service_conversion env" "generateTargetNamespaceName x t \<noteq> whc_Namespace x"
  shows "steps anywhere (footprint (Some (generateTargetNamespaceName x t)) (whc_Namespace x) (whc_Name x))
    (run_check_job fuel env da x t scp delayed) (\<lambda>_ _. True)"
proof -
  let ?P = "footprint (Some (generateTargetNamespaceName x t)) (whc_Namespace x) (whc_Name x)"
  let ?K = "keyed (whc_Namespace x) (whc_Name x)"
  have run: "steps (\<lambda>w. ?K w \<and> rn_targetNamespaceName r = generateTargetNamespaceName x t) ?P (RunCheck fuel env da r scp) (\<lambda>_ _. True)" for r
    using keeps_RunCheck [OF assms(1,2), of "whc_Namespace x" r "whc_Name x" fuel da scp] assms(3)
    unfolding steps_def by auto
  have "keeps anywhere ?P (if delayed then baseline_delay env else ret True)"
    unfolding baseline_delay_def by (intro emits_intros) simp_all
  moreover have "steps anywhere ?P (if \<not> go then ret (Ret ()) else do {
      r \<leftarrow> NewWorkloadCheckRunner env x t; RunCheck fuel env da r scp }) (\<lambda>_ _. True)" for go
    by (intro keeps_if steps_ret steps_bind [OF steps_new_runner] run) simp
  ultimately show ?thesis unfolding run_check_job_def by (rule steps_bind)
qed

end
