(* ===== verification/WorkloadController.thy ===== *)
theory WorkloadController
  imports Dispatch
begin

text \<open>
  \<open>internal/controller/workload\<close>: the reconciliation of a workload hardening check, stage by stage in the
  order of the code. The copy it fetches, \<open>x\<close> (\<open>workloadHardening\<close> in the code), stays as it was fetched;
  the manager works on a deep copy, \<open>w_whc\<close>, which every status update refreshes.
\<close>

section \<open>The end of the checks\<close>

text \<open>The final check is recorded: the resource is finished, and its check conditions are removed.\<close>

definition finish_recorded :: "env \<Rightarrow> reply option outcome prog" where
  "finish_recorded env = do {
     y \<leftarrow> gets w_whc;
     if \<not> RecommendationExists y then go_on
     else attempt (FinalCheckRecorded env) (\<lambda>recorded.
       if \<not> recorded then go_on
       else do {
         e \<leftarrow> SetCondition env (mk_condition ConditionTypeFinished ConditionTrue ConditionTypeFinished
                ''Finished, recommendation ready'');
         (case e of
            Some err \<Rightarrow> reply_with (failed_reply err)
          | None \<Rightarrow> do {
              e' \<leftarrow> RemoveCheckConditions env;
              case e' of
                Some err \<Rightarrow> reply_with (failed_reply err)
              | None \<Rightarrow> reply_with finished_reply }) }) }"

definition analysis_failed :: "env \<Rightarrow> error \<Rightarrow> reply option outcome prog" where
  "analysis_failed env err = do {
     set_cond env ConditionTypeAnalysis ConditionTrue ReasonAnalysisFailed
       (''Analyzing check runs failed: '' @ error_text err);
     set_cond env ConditionTypeFinished ConditionTrue ReasonAnalysisFailed
       ''Analyzing check runs failed, cannot proceed with checks. Check the CheckResultAnalysis condition for more details.'';
     reply_with finished_reply }"

definition run_analysis :: "env \<Rightarrow> 'd drain_api \<Rightarrow> bool \<Rightarrow> reply option outcome prog" where
  "run_analysis env da normalizeTimestamps = do {
     set_cond env ConditionTypeFinished ConditionFalse ReasonAnalysisRunning ''Check runs are being analyzed'';
     set_cond env ConditionTypeAnalysis ConditionFalse ReasonAnalysisRunning ''Check runs are being analyzed'';
     attempt (AnalyzeCheckRuns env da normalizeTimestamps) (\<lambda>e. case e of
         Some err \<Rightarrow> analysis_failed env err
       | None \<Rightarrow> attempt (SetRecommendation env) (\<lambda>_. do {
           set_cond env ConditionTypeAnalysis ConditionTrue ReasonAnalysisFinished ''Check runs are analyzed'';
           set_cond env ConditionTypeFinished ConditionFalse ReasonAnalysisRunning
             ''Check runs are analyzed, waiting for final check run'';
           go_on })) }"

definition analyze_finished :: "env \<Rightarrow> 'd drain_api \<Rightarrow> bool \<Rightarrow> WorkloadHardeningCheck \<Rightarrow> reply option outcome prog" where
  "analyze_finished env da normalizeTimestamps x = attempt (AllChecksFinished env) (\<lambda>all.
     if all \<and> \<not> m_IsTrue (e_meta env) (whc_Conditions x) ConditionTypeAnalysis
     then run_analysis env da normalizeTimestamps
     else go_on)"

section \<open>The final check\<close>

definition own_id :: "WorkloadHardeningCheck \<Rightarrow> string \<Rightarrow> string" where
  "own_id x checkType = NewCheckRunID (whc_Namespace x) (whc_Name x) checkType"

definition next_round :: "env \<Rightarrow> nat \<Rightarrow> reply prog" where
  "next_round env seconds = gets (\<lambda>w. requeue_after (GetCheckDuration env (w_whc w) + dur (seconds * Second)))"

definition half_round :: "env \<Rightarrow> reply prog" where
  "half_round env = gets (\<lambda>w. requeue_after (half_dur (GetCheckDuration env (w_whc w))))"

definition submit_final :: "env \<Rightarrow> WorkloadHardeningCheck \<Rightarrow> SecurityContextDefaults option \<Rightarrow> unit outcome prog" where
  "submit_final env x sc = do {
     scp \<leftarrow> own_pointer sc;
     submit env (own_id x ''Final'') (RunCheckJob x ''Final'' scp False) }"

text \<open>A failed or overdue final check is submitted again, once the executor is done with it.\<close>

definition retry_final :: "env \<Rightarrow> WorkloadHardeningCheck \<Rightarrow> reply option outcome prog" where
  "retry_final env x =
     (if \<not> m_IsPresentAndEqual (e_meta env) (whc_Conditions x) ConditionTypeFinalCheck ConditionUnknown then go_on
      else do {
        running \<leftarrow> is_running env (own_id x ''Final'');
        if running then do { v \<leftarrow> half_round env; reply_with v }
        else do {
          y \<leftarrow> gets w_whc;
          attempt (submit_final env x (GetRecommendedSecurityContext y)) (\<lambda>_. do {
            v \<leftarrow> next_round env 10;
            reply_with v }) } })"

definition await_final :: "env \<Rightarrow> reply option outcome prog" where
  "await_final env = attempt (FinalCheckInProgress env) (\<lambda>b.
     if \<not> b then go_on
     else attempt (FinalCheckOverdue env) (\<lambda>late.
       if late then do {
         set_cond env ConditionTypeFinalCheck ConditionUnknown ReasonRequeue
           ''Final check recording is still running, but last transition time is older than 2x duration, requeuing'';
         reply_with (requeue_after (dur (5 * Second))) }
       else do { v \<leftarrow> half_round env; reply_with v }))"

definition start_final :: "env \<Rightarrow> WorkloadHardeningCheck \<Rightarrow> reply option outcome prog" where
  "start_final env x = do {
     y \<leftarrow> gets w_whc;
     if \<not> RecommendationExists y then go_on
     else attempt (FinalCheckRecorded env) (\<lambda>recorded.
       if recorded then go_on
       else do {
         z \<leftarrow> gets w_whc;
         running \<leftarrow> is_running env (own_id x ''Final'');
         attempt (if running then ret (Ret ()) else submit_final env x (GetRecommendedSecurityContext z)) (\<lambda>_. do {
           set_cond env ConditionTypeFinished ConditionFalse (''Final'' @ ReasonCheckRecording)
             ''Final check run with recommended security context started'';
           v \<leftarrow> next_round env 10;
           reply_with v }) }) }"

section \<open>The baseline\<close>

definition await_baseline :: "env \<Rightarrow> reply option outcome prog" where
  "await_baseline env = do {
     duration \<leftarrow> gets (\<lambda>w. GetCheckDuration env (w_whc w));
     attempt (BaselineInProgress env) (\<lambda>b.
       if \<not> b then go_on
       else attempt (BaselineOverdue env) (\<lambda>late.
         if late then do {
           set_cond env ConditionTypeBaseline ConditionUnknown ReasonRequeue
             ''Baseline recording is still running, but last transition time is older than 2x duration, requeuing'';
           reply_with (requeue_after (dur (5 * Second))) }
         else reply_with (requeue_after (half_dur duration)))) }"

definition use_reference :: "env \<Rightarrow> WorkloadHardeningCheck \<Rightarrow> reply option outcome prog" where
  "use_reference env x =
     (if length (spec_BaselineRecordingReference (whc_Spec x)) > 0 then
        attempt (BaselineRecorded env) (\<lambda>b.
          if b then go_on else do { SetBaselineRecorded env; go_on })
      else go_on)"

text \<open>Both baselines get the pointer of the specification of \<open>x\<close>, which nothing else writes through.\<close>

definition submit_baseline :: "env \<Rightarrow> WorkloadHardeningCheck \<Rightarrow> string \<Rightarrow> nat option \<Rightarrow> bool \<Rightarrow> unit outcome prog" where
  "submit_baseline env x name scp delayed = do {
     running \<leftarrow> is_running env (own_id x name);
     if running then ret (Ret ())
     else submit env (own_id x name) (RunCheckJob x name scp delayed) }"

definition recordBaseline :: "env \<Rightarrow> WorkloadHardeningCheck \<Rightarrow> reply outcome prog" where
  "recordBaseline env x = do {
     scp \<leftarrow> own_pointer (spec_SecurityContext (whc_Spec x));
     attempt (submit_baseline env x ''baseline'' scp False) (\<lambda>_.
     attempt (submit_baseline env x ''baseline-2'' scp True) (\<lambda>_. do {
       set_cond env ConditionTypeFinished ConditionFalse ReasonBaselineRecording ''Baseline recording started'';
       v \<leftarrow> next_round env 30;
       ret (Ret v) })) }"

definition start_baseline :: "env \<Rightarrow> WorkloadHardeningCheck \<Rightarrow> reply option outcome prog" where
  "start_baseline env x = attempt (BaselineRecorded env) (\<lambda>b.
     if b then go_on else attempt (recordBaseline env x) reply_with)"

definition failed_baseline :: "WorkloadHardeningCheck \<Rightarrow> bool" where
  "failed_baseline x \<longleftrightarrow> list_ex (\<lambda>run. cr_CheckSuccessfull run \<noteq> Some True) (st_BaselineRuns (whc_Status x))"

definition abort_failed_baseline :: "env \<Rightarrow> WorkloadHardeningCheck \<Rightarrow> reply option outcome prog" where
  "abort_failed_baseline env x = attempt (BaselineRecorded env) (\<lambda>b.
     if b \<and> failed_baseline x then do {
       set_cond env ConditionTypeFinished ConditionTrue ReasonBaselineRecordingFailed
         ''Baseline recording failed, aborting further checks'';
       reply_with finished_reply }
     else go_on)"

section \<open>The checks\<close>

definition submit_check :: "env \<Rightarrow> WorkloadHardeningCheck \<Rightarrow> string \<Rightarrow> unit outcome prog" where
  "submit_check env x checkType = attempt (GetSecurityContextForCheckType checkType) (\<lambda>scp.
     submit env (own_id x checkType) (RunCheckJob x checkType (Some scp) False))"

definition mark_overdue :: "env \<Rightarrow> string \<Rightarrow> string \<Rightarrow> unit prog" where
  "mark_overdue env checkType message =
     set_cond env (e_title env checkType @ ConditionTypeCheck) ConditionUnknown ReasonRequeue message"

text \<open>The test that only writes a log line: it asks for the condition and, if that is set, for the run.\<close>

definition note_crashed :: "env \<Rightarrow> WorkloadHardeningCheck \<Rightarrow> string \<Rightarrow> unit outcome prog" where
  "note_crashed env x checkType = attempt (CheckInProgress env checkType) (\<lambda>b.
     if b then do { is_running env (own_id x checkType); ret (Ret ()) } else ret (Ret ()))"

definition start_parallel :: "env \<Rightarrow> WorkloadHardeningCheck \<Rightarrow> string \<Rightarrow> unit outcome prog" where
  "start_parallel env x checkType = attempt (note_crashed env x checkType) (\<lambda>_. submit_check env x checkType)"

text \<open>One check in parallel mode: skipped when it is recorded or running and not overdue.\<close>

definition parallel_check :: "env \<Rightarrow> WorkloadHardeningCheck \<Rightarrow> string \<Rightarrow> unit outcome prog" where
  "parallel_check env x checkType = attempt (CheckRecorded env checkType) (\<lambda>recorded.
     if recorded then ret (Ret ())
     else do {
       running \<leftarrow> is_running env (own_id x checkType);
       if \<not> running then start_parallel env x checkType
       else attempt (CheckOverdue env checkType) (\<lambda>late.
         if late then do {
           mark_overdue env checkType
             ''Check is still running, but last transition time is older than 2x duration, requeuing'';
           start_parallel env x checkType }
         else ret (Ret ())) })"

fun parallel_checks :: "env \<Rightarrow> WorkloadHardeningCheck \<Rightarrow> string list \<Rightarrow> unit outcome prog" where
  "parallel_checks env x [] = ret (Ret ())"
| "parallel_checks env x (t # ts) = attempt (parallel_check env x t) (\<lambda>_. parallel_checks env x ts)"

definition start_sequential :: "env \<Rightarrow> WorkloadHardeningCheck \<Rightarrow> string \<Rightarrow> reply outcome prog" where
  "start_sequential env x checkType = attempt (submit_check env x checkType) (\<lambda>_. do {
     v \<leftarrow> next_round env 10;
     ret (Ret v) })"

text \<open>In sequential mode the first check that is not recorded ends the loop.\<close>

fun sequential_checks :: "env \<Rightarrow> WorkloadHardeningCheck \<Rightarrow> string list \<Rightarrow> reply outcome prog" where
  "sequential_checks env x [] = ret (Ret (requeue_after (dur (30 * Second))))"
| "sequential_checks env x (t # ts) = attempt (CheckRecorded env t) (\<lambda>recorded.
     if recorded then sequential_checks env x ts
     else do {
       running \<leftarrow> is_running env (own_id x t);
       if \<not> running then start_sequential env x t
       else attempt (CheckOverdue env t) (\<lambda>late.
         if late then do {
           mark_overdue env t
             ''Check is still running, but last transition time is older than duration + 1 minute, requeuing'';
           start_sequential env x t }
         else do { v \<leftarrow> next_round env 10; ret (Ret v) }) })"

definition recordChecks :: "env \<Rightarrow> WorkloadHardeningCheck \<Rightarrow> reply outcome prog" where
  "recordChecks env x = attempt (GetRequiredCheckRuns env) (\<lambda>requiredChecks. do {
     set_cond env ConditionTypeFinished ConditionFalse ReasonCheckRecording ''Check recording started'';
     if spec_RunMode (whc_Spec x) = RunModeParallel then
       attempt (parallel_checks env x requiredChecks) (\<lambda>_. do { v \<leftarrow> next_round env 10; ret (Ret v) })
     else sequential_checks env x requiredChecks })"

definition record_missing :: "env \<Rightarrow> WorkloadHardeningCheck \<Rightarrow> reply option outcome prog" where
  "record_missing env x = attempt (BaselineRecorded env) (\<lambda>b.
     if \<not> b then go_on
     else attempt (AllChecksFinished env) (\<lambda>all.
       if all then go_on else attempt (recordChecks env x) reply_with))"

section \<open>Deletion\<close>

definition update_whc :: "env \<Rightarrow> WorkloadHardeningCheck \<Rightarrow> error option prog" where
  "update_whc env x = ask (EvUpdateWHC x) (\<lambda>tr. fst (e_UpdateWHC env tr x))"

definition with_finalizers :: "string list \<Rightarrow> WorkloadHardeningCheck \<Rightarrow> WorkloadHardeningCheck" where
  "with_finalizers fs x = x\<lparr>whc_Finalizers := fs\<rparr>"

definition own_prefix :: "WorkloadHardeningCheck \<Rightarrow> string" where
  "own_prefix x = whc_Namespace x @ ''/'' @ whc_Name x @ '':''"

definition clones_of :: "WorkloadHardeningCheck \<Rightarrow> label_set" where
  "clones_of x = [(LabelSourceNamespace, whc_Namespace x)]"

definition delete_clone :: "env \<Rightarrow> Namespace \<Rightarrow> unit prog" where
  "delete_clone env ns = do { Delete env (nsp_Name ns); ret () }"

definition release :: "env \<Rightarrow> WorkloadHardeningCheck \<Rightarrow> reply outcome prog" where
  "release env x = do {
     e \<leftarrow> update_whc env (with_finalizers (f_Remove (e_finalizers env) (whc_Finalizers x) FinalizerCleanup) x);
     case e of
       Some err \<Rightarrow> ret (Ret (failed_reply err))
     | None \<Rightarrow> ret (Ret finished_reply) }"

definition handleDeletion :: "env \<Rightarrow> WorkloadHardeningCheck \<Rightarrow> reply outcome prog" where
  "handleDeletion env x = do {
     cancel_prefix env (own_prefix x);
     l \<leftarrow> ask (EvListNamespaces (clones_of x)) (\<lambda>tr. e_ListNamespaces env tr (clones_of x));
     case l of
       Inl err \<Rightarrow> ret (Ret (failed_reply err))
     | Inr checkNamespaces \<Rightarrow> do {
         for_each checkNamespaces (delete_clone env);
         release env x } }"

section \<open>Reconcile\<close>

definition add_finalizer :: "env \<Rightarrow> WorkloadHardeningCheck \<Rightarrow> reply outcome prog" where
  "add_finalizer env x = do {
     e \<leftarrow> update_whc env (with_finalizers (f_Add (e_finalizers env) (whc_Finalizers x) FinalizerCleanup) x);
     case e of
       Some err \<Rightarrow> ret (Ret (failed_reply err))
     | None \<Rightarrow> ret (Ret (\<lparr>rr_Requeue = True, rr_RequeueAfter = 0\<rparr>, None)) }"

text \<open>The stages of a resource that is neither deleted nor finished.\<close>

definition reconcile_checks :: "env \<Rightarrow> 'd drain_api \<Rightarrow> bool \<Rightarrow> WorkloadHardeningCheck \<Rightarrow> reply outcome prog" where
  "reconcile_checks env da normalizeTimestamps x = do {
     NewWorkloadCheckManager x;
     or_else (finish_recorded env)
       (or_else (analyze_finished env da normalizeTimestamps x)
       (or_else (retry_final env x)
       (or_else (await_final env)
       (or_else (start_final env x)
       (or_else (await_baseline env)
       (or_else (use_reference env x)
       (or_else (start_baseline env x)
       (or_else (abort_failed_baseline env x)
       (or_else (record_missing env x)
         (ret (Ret finished_reply))))))))))) }"

definition reconcile_fetched :: "env \<Rightarrow> 'd drain_api \<Rightarrow> bool \<Rightarrow> WorkloadHardeningCheck \<Rightarrow> reply outcome prog" where
  "reconcile_fetched env da normalizeTimestamps x =
     (let cleanup = f_Contains (e_finalizers env) (whc_Finalizers x) FinalizerCleanup in
      if whc_DeletionTimestamp x \<noteq> None then
        (if cleanup then handleDeletion env x else ret (Ret finished_reply))
      else if \<not> cleanup then add_finalizer env x
      else if m_IsTrue (e_meta env) (whc_Conditions x) ConditionTypeFinished then ret (Ret finished_reply)
      else reconcile_checks env da normalizeTimestamps x)"

definition Reconcile :: "env \<Rightarrow> 'd drain_api \<Rightarrow> bool \<Rightarrow> string \<Rightarrow> string \<Rightarrow> reply outcome prog" where
  "Reconcile env da normalizeTimestamps ns n = do {
     r \<leftarrow> ask (EvGetWHC ns n) (\<lambda>tr. e_GetWHC env tr ns n);
     case r of
       Inl err \<Rightarrow>
         (if IsNotFound err then ret (Ret finished_reply)
          else ret (Ret (\<lparr>rr_Requeue = False, rr_RequeueAfter = dur Minute\<rparr>, Some err)))
     | Inr x \<Rightarrow> reconcile_fetched env da normalizeTimestamps x }"

section \<open>What a reconciliation touches\<close>

text \<open>
  \<open>controls TS x\<close>: the calls a reconciliation of \<open>x\<close> may make. It submits only runs of check types in
  \<open>TS\<close>, on \<open>x\<close> and under the identifiers of \<open>x\<close>, cancels only those, updates only \<open>x\<close>, and otherwise
  only reads and updates its status.
\<close>

fun controls :: "string set \<Rightarrow> WorkloadHardeningCheck \<Rightarrow> event \<Rightarrow> bool" where
  "controls TS x (EvSubmit i (RunCheckJob y t scp d) b) \<longleftrightarrow> y = x \<and> i = own_id x t \<and> t \<in> TS"
| "controls TS x (EvUpdateWHC y) \<longleftrightarrow> whc_Namespace y = whc_Namespace x \<and> whc_Name y = whc_Name x
     \<and> whc_Spec y = whc_Spec x \<and> whc_Status y = whc_Status x"
| "controls TS x (EvCancelByPrefix p) \<longleftrightarrow> p = own_prefix x"
| "controls TS x ev \<longleftrightarrow> footprint None (whc_Namespace x) (whc_Name x) ev"

lemma footprint_controls: "footprint None (whc_Namespace x) (whc_Name x) ev \<Longrightarrow> controls TS x ev"
  by (cases ev) simp_all

lemma keeps_calls:
  "keeps (keyed (whc_Namespace x) (whc_Name x)) (footprint None (whc_Namespace x) (whc_Name x)) m \<Longrightarrow>
   keeps (keyed (whc_Namespace x) (whc_Name x)) (controls TS x) m"
  by (erule steps_weaken) (simp_all add: footprint_controls)

lemmas control_calls = keeps_SetCondition [THEN keeps_calls] keeps_conditions [THEN keeps_calls]
  keeps_overdues [THEN keeps_calls] keeps_AnalyzeCheckRuns [THEN keeps_calls] keeps_SetRecommendation [THEN keeps_calls]
  keeps_SetBaselineRecorded [THEN keeps_calls] keeps_GetRequiredCheckRuns [THEN keeps_calls]
  keeps_GetSecurityContext [THEN keeps_calls] keeps_RemoveCheckConditions [THEN keeps_calls]
  keeps_AllChecksFinished [THEN keeps_calls]

lemma keeps_rounds [emits_intros]: "keeps I P (next_round env k)" "keeps I P (half_round env)"
  unfolding next_round_def half_round_def by (intro emits_intros)+

lemma keeps_submits:
  assumes "lawful env"
  shows "''Final'' \<in> TS \<Longrightarrow> keeps (keyed (whc_Namespace x) (whc_Name x)) (controls TS x) (submit_final env x sc)"
    "t \<in> TS \<Longrightarrow> keeps (keyed (whc_Namespace x) (whc_Name x)) (controls TS x) (submit_check env x t)"
    "t \<in> TS \<Longrightarrow> keeps (keyed (whc_Namespace x) (whc_Name x)) (controls TS x) (submit_baseline env x t scp d)"
  unfolding submit_final_def submit_check_def submit_baseline_def
  by (intro emits_intros control_calls assms; simp)+

lemma keeps_final_stages:
  assumes "lawful env" "''Final'' \<in> TS"
  shows "keeps (keyed (whc_Namespace x) (whc_Name x)) (controls TS x) (finish_recorded env)"
    "keeps (keyed (whc_Namespace x) (whc_Name x)) (controls TS x) (analyze_finished env da b x)"
    "keeps (keyed (whc_Namespace x) (whc_Name x)) (controls TS x) (retry_final env x)"
    "keeps (keyed (whc_Namespace x) (whc_Name x)) (controls TS x) (await_final env)"
    "keeps (keyed (whc_Namespace x) (whc_Name x)) (controls TS x) (start_final env x)"
  unfolding finish_recorded_def analyze_finished_def run_analysis_def analysis_failed_def retry_final_def
    await_final_def start_final_def Let_def
  by (intro emits_intros control_calls keeps_submits assms; simp)+

lemma keeps_baseline_stages:
  assumes "lawful env" "''baseline'' \<in> TS" "''baseline-2'' \<in> TS"
  shows "keeps (keyed (whc_Namespace x) (whc_Name x)) (controls TS x) (await_baseline env)"
    "keeps (keyed (whc_Namespace x) (whc_Name x)) (controls TS x) (use_reference env x)"
    "keeps (keyed (whc_Namespace x) (whc_Name x)) (controls TS x) (start_baseline env x)"
    "keeps (keyed (whc_Namespace x) (whc_Name x)) (controls TS x) (abort_failed_baseline env x)"
  unfolding await_baseline_def use_reference_def start_baseline_def recordBaseline_def abort_failed_baseline_def
  by (intro emits_intros control_calls keeps_submits assms; simp)+

lemma keeps_parallel_check:
  assumes "lawful env" "t \<in> TS"
  shows "keeps (keyed (whc_Namespace x) (whc_Name x)) (controls TS x) (parallel_check env x t)"
  unfolding parallel_check_def start_parallel_def note_crashed_def mark_overdue_def
  by (intro emits_intros control_calls keeps_submits assms; simp)

lemma keeps_parallel_checks:
  assumes "lawful env" "set ts \<subseteq> TS"
  shows "keeps (keyed (whc_Namespace x) (whc_Name x)) (controls TS x) (parallel_checks env x ts)"
  using assms(2) by (induction ts) (simp_all add: keeps_ret keeps_attempt keeps_parallel_check [OF assms(1)])

lemma keeps_sequential_checks:
  assumes "lawful env" "set ts \<subseteq> TS"
  shows "keeps (keyed (whc_Namespace x) (whc_Name x)) (controls TS x) (sequential_checks env x ts)"
  using assms(2)
proof (induction ts)
  case Nil
  then show ?case by (simp add: keeps_ret)
next
  case (Cons t ts)
  have t: "t \<in> TS" and ts: "keeps (keyed (whc_Namespace x) (whc_Name x)) (controls TS x) (sequential_checks env x ts)"
    using Cons by simp_all
  show ?case
    unfolding sequential_checks.simps start_sequential_def mark_overdue_def
    by (intro emits_intros control_calls keeps_submits assms(1) t ts; simp)
qed

lemma keeps_record_missing:
  assumes "lawful env"
  shows "keeps (keyed (whc_Namespace x) (whc_Name x)) (controls UNIV x) (record_missing env x)"
  unfolding record_missing_def recordChecks_def
  by (intro emits_intros control_calls keeps_parallel_checks keeps_sequential_checks assms; simp)

lemma keeps_deletion:
  assumes "lawful env"
  shows "steps anywhere (controls TS x) (release env x) (\<lambda>_. anywhere)"
    "steps anywhere (controls TS x) (add_finalizer env x) (\<lambda>_. anywhere)"
  unfolding release_def add_finalizer_def update_whc_def with_finalizers_def
  by (intro emits_intros; simp)+

text \<open>The manager's copy is of the same object.\<close>

lemma steps_manager: "steps anywhere P (NewWorkloadCheckManager x) (\<lambda>_. keyed (whc_Namespace x) (whc_Name x))"
  unfolding NewWorkloadCheckManager_def by (rule steps_modify) simp

lemma steps_reconcile_checks:
  assumes "lawful env"
  shows "steps anywhere (controls UNIV x) (reconcile_checks env da b x) (\<lambda>_. anywhere)"
proof -
  let ?K = "keyed (whc_Namespace x) (whc_Name x)"
  have stages: "keeps ?K (controls UNIV x)
      (or_else (finish_recorded env) (or_else (analyze_finished env da b x) (or_else (retry_final env x)
      (or_else (await_final env) (or_else (start_final env x) (or_else (await_baseline env) (or_else (use_reference env x)
      (or_else (start_baseline env x) (or_else (abort_failed_baseline env x) (or_else (record_missing env x)
        (ret (Ret finished_reply))))))))))))"
    by (intro emits_intros keeps_final_stages keeps_baseline_stages keeps_record_missing assms) simp_all
  show ?thesis unfolding reconcile_checks_def
    by (rule steps_bind [OF steps_manager]) (rule steps_weaken [OF stages]; simp)
qed

section \<open>Starting the missing checks\<close>

text \<open>The identifiers of the accepted submissions, in order.\<close>

fun accepted_id :: "event \<Rightarrow> string option" where
  "accepted_id (EvSubmit i j True) = Some i"
| "accepted_id ev = None"

definition accepted :: "trace \<Rightarrow> string list" where
  "accepted tr = List.map_filter accepted_id tr"

lemma accepted_simps [simp]:
  "accepted [] = []"
  "accepted (tr @ tr') = accepted tr @ accepted tr'"
  "accepted (ev # tr) = (case accepted_id ev of None \<Rightarrow> accepted tr | Some i \<Rightarrow> i # accepted tr)"
  by (simp_all add: accepted_def List.map_filter_def split: option.splits)

text \<open>The pointer of the specification leads to an object with both halves, or there is none.\<close>

definition prepared :: "world \<Rightarrow> bool" where
  "prepared w \<longleftrightarrow> (case w_sc_ptr w of None \<Rightarrow> True | Some p \<Rightarrow> p < length (w_heap w) \<and> complete (w_heap w ! p))"

lemma prepared_trace [simp]: "prepared (w\<lparr>w_trace := tr\<rparr>) = prepared w" "prepared (w\<lparr>w_exec := e\<rparr>) = prepared w"
  by (simp_all add: prepared_def split: option.splits)

lemma prepared_refreshed [simp]: "prepared (refreshed w) = prepared w"
  by (simp add: prepared_def split: option.splits)

lemma complete_check:
  assumes "map_of GetAllChecks t = Some c" "complete s"
  shows "fst (GetSecurityContextDefaults c s) = Ret () \<and> complete (snd (GetSecurityContextDefaults c s))"
  by (rule GetAllChecks_cases [OF map_of_SomeD [OF assms(1)]])
    (simp_all add: check_records assms(2) user.returns_complete user.stays_complete group.returns_complete
      group.stays_complete read_only.returns_complete read_only.stays_complete privilege.returns_complete
      privilege.stays_complete drop_all.returns_complete drop_all.stays_complete)

lemma complete_empty: "complete \<lparr>scd_Pod = Some empty_pod_defaults, scd_Container = Some empty_con_defaults\<rparr>"
  by (simp add: complete_def)

lemma run_check_context:
  assumes "prepared w" "t \<in> dom (map_of GetAllChecks)"
  shows "\<exists>a h. run_state (GetSecurityContextForCheckType t) w = (Ret a, w\<lparr>w_heap := h\<rparr>) \<and> prepared (w\<lparr>w_heap := h\<rparr>)"
proof -
  obtain c where c: "map_of GetAllChecks t = Some c" using assms(2) by auto
  define s where "s = (case w_sc_ptr w of
      None \<Rightarrow> \<lparr>scd_Pod = Some empty_pod_defaults, scd_Container = Some empty_con_defaults\<rparr> | Some p \<Rightarrow> w_heap w ! p)"
  have "complete s" using assms(1) by (auto simp: s_def prepared_def complete_empty split: option.splits)
  then obtain s' where s': "GetSecurityContextDefaults c s = (Ret (), s')" "complete s'"
    using complete_check [OF c, of s] by (cases "GetSecurityContextDefaults c s") auto
  show ?thesis using s' assms(1)
    by (cases "w_sc_ptr w") (auto simp: GetSecurityContextForCheckType_def base_context_def run_simps c s_def prepared_def)
qed

definition never_completes :: "env \<Rightarrow> bool" where
  "never_completes env \<longleftrightarrow> (\<forall>tr. e_completed env tr = [])"

lemma run_completions: "never_completes env \<Longrightarrow> run_state (completions env) w = ((), w)"
  by (simp add: completions_def run_simps never_completes_def)

lemma run_is_running:
  "never_completes env \<Longrightarrow> run_state (is_running env i) w =
    (IsRunning i (w_exec w), w\<lparr>w_trace := w_trace w @ [EvIsRunning i]\<rparr>)"
  by (simp add: is_running_def run_simps run_completions)

text \<open>What a stage leaves alone, and what it adds to the registry and to the accepted submissions.\<close>

definition adds_runs :: "string list \<Rightarrow> world \<Rightarrow> world \<Rightarrow> bool" where
  "adds_runs is w w' \<longleftrightarrow> w_whc w' = w_whc w \<and> (prepared w \<longrightarrow> prepared w') \<and> (started (w_exec w) \<longrightarrow> started (w_exec w'))
     \<and> (\<forall>j. IsRunning j (w_exec w') \<longleftrightarrow> j \<in> set is \<or> IsRunning j (w_exec w))
     \<and> accepted (w_trace w') = accepted (w_trace w) @ is"

lemma adds_runs_trans: "adds_runs is w w' \<Longrightarrow> adds_runs js w' w'' \<Longrightarrow> adds_runs (is @ js) w w''"
  by (auto simp: adds_runs_def)

lemma adds_runs_refreshed [simp]: "adds_runs [] w (refreshed w)"
  by (simp add: adds_runs_def) (simp add: refreshed_def)

lemma run_submit:
  assumes "never_completes env" "started (w_exec w)" "\<not> IsRunning i (w_exec w)"
  shows "\<exists>w'. run_state (submit env i job) w = (Ret (), w') \<and> adds_runs [i] w w'"
proof -
  obtain e where e: "Submit i (w_exec w) = (Ret True, e)"
    using runs.submit_result [OF assms(2), of i] assms(3) by (cases "Submit i (w_exec w)") simp
  have "started e" "\<And>j. IsRunning j e \<longleftrightarrow> j = i \<or> IsRunning j (w_exec w)"
    using runs.submit_ready [OF assms(2), of i] runs.submit_running [OF assms(2), of _ i] e by simp_all
  then show ?thesis by (simp add: submit_def run_simps run_completions [OF assms(1)] e adds_runs_def)
qed

lemma run_submit_check:
  assumes "never_completes env" "started (w_exec w)" "\<not> IsRunning (own_id x t) (w_exec w)" "prepared w"
    "t \<in> dom (map_of GetAllChecks)"
  shows "\<exists>w'. run_state (submit_check env x t) w = (Ret (), w') \<and> adds_runs [own_id x t] w w'"
proof -
  obtain a h where a: "run_state (GetSecurityContextForCheckType t) w = (Ret a, w\<lparr>w_heap := h\<rparr>)"
      "prepared (w\<lparr>w_heap := h\<rparr>)"
    using run_check_context [OF assms(4,5)] by blast
  obtain w' where w': "run_state (submit env (own_id x t) (RunCheckJob x t (Some a) False)) (w\<lparr>w_heap := h\<rparr>) = (Ret (), w')"
      "adds_runs [own_id x t] (w\<lparr>w_heap := h\<rparr>) w'"
    using run_submit [of env "w\<lparr>w_heap := h\<rparr>" "own_id x t"] assms(1,2,3) by auto
  have "adds_runs [own_id x t] w w'" using w'(2) a(2) by (simp add: adds_runs_def)
  then show ?thesis by (simp add: submit_check_def run_attempt a(1) w'(1))
qed

definition check_recorded :: "env \<Rightarrow> WorkloadHardeningCheck \<Rightarrow> string \<Rightarrow> bool" where
  "check_recorded env y t \<longleftrightarrow> cond_is env y (check_condition_type env t) ConditionTrue
     {ReasonCheckRecordingFinished, ReasonCheckRecordingFailed}"

text \<open>No condition of these checks is ever older than the recording duration and the minute of grace.\<close>

definition timely :: "env \<Rightarrow> WorkloadHardeningCheck \<Rightarrow> string list \<Rightarrow> bool" where
  "timely env y ts \<longleftrightarrow> (\<forall>t \<in> set ts. \<forall>tr c. m_Find (e_meta env) (whc_Conditions y) (check_condition_type env t) = Some c \<longrightarrow>
     \<not> longer (since (e_now env tr) (c_LastTransitionTime c)) (GetCheckDuration env y + dur Minute))"

lemma run_CheckOverdue:
  assumes "meta_laws (e_meta env)" "wrapper_unregistered env" "timely env (w_whc w) ts" "t \<in> set ts"
  shows "\<exists>w'. run_state (CheckOverdue env t) w = (Ret False, w') \<and> adds_runs [] w w'"
proof (cases "cond_is env (w_whc w) (check_condition_type env t) ConditionFalse {ReasonCheckRecording}")
  case True
  then obtain c where c: "m_Find (e_meta env) (whc_Conditions (w_whc w)) (check_condition_type env t) = Some c"
    by (auto simp: cond_is_def)
  have "\<not> longer (since (e_now env tr) (c_LastTransitionTime c)) (GetCheckDuration env (w_whc w) + dur Minute)" for tr
    using assms(3,4) c unfolding timely_def by blast
  then show ?thesis using True
    by (simp add: CheckOverdue_def overdue_def run_simps run_conditions [OF assms(1,2)] condition_of_def c adds_runs_def)
      (simp add: refreshed_def)
next
  case False
  then show ?thesis
    by (simp add: CheckOverdue_def overdue_def run_simps run_conditions [OF assms(1,2)])
qed

lemma run_note_crashed:
  assumes "meta_laws (e_meta env)" "wrapper_unregistered env" "never_completes env"
  shows "\<exists>w'. run_state (note_crashed env x t) w = (Ret (), w') \<and> adds_runs [] w w'"
  by (simp add: note_crashed_def run_simps run_conditions [OF assms(1,2)] run_is_running [OF assms(3)])
    (simp add: adds_runs_def refreshed_def)

lemma run_parallel_check:
  assumes "meta_laws (e_meta env)" "wrapper_unregistered env" "never_completes env" "timely env (w_whc w) ts" "t \<in> set ts"
    "started (w_exec w)" "prepared w" "t \<in> dom (map_of GetAllChecks)"
  shows "\<exists>w'. run_state (parallel_check env x t) w = (Ret (), w')
    \<and> adds_runs (if check_recorded env (w_whc w) t \<or> IsRunning (own_id x t) (w_exec w) then [] else [own_id x t]) w w'"
proof -
  let ?i = "own_id x t"
  let ?w2 = "(refreshed w)\<lparr>w_trace := w_trace (refreshed w) @ [EvIsRunning ?i]\<rparr>"
  have w2: "adds_runs [] w ?w2" by (simp add: adds_runs_def) (simp add: refreshed_def)
  note run = parallel_check_def run_simps run_conditions [OF assms(1,2)] run_is_running [OF assms(3)]
    check_recorded_def [symmetric]
  consider "check_recorded env (w_whc w) t" | "\<not> check_recorded env (w_whc w) t" "IsRunning ?i (w_exec w)"
    | "\<not> check_recorded env (w_whc w) t" "\<not> IsRunning ?i (w_exec w)" by blast
  then show ?thesis
  proof cases
    case 1
    then show ?thesis by (simp add: run)
  next
    case 2
    obtain w' where "run_state (CheckOverdue env t) ?w2 = (Ret False, w')" "adds_runs [] ?w2 w'"
      using run_CheckOverdue [OF assms(1,2), of ?w2 ts t] assms(4,5) by auto
    then show ?thesis using 2 adds_runs_trans [OF w2, of "[]" w'] by (simp add: run)
  next
    case 3
    obtain w3 where w3: "run_state (note_crashed env x t) ?w2 = (Ret (), w3)" "adds_runs [] ?w2 w3"
      using run_note_crashed [OF assms(1,2,3)] by blast
    have a: "adds_runs [] w w3" using adds_runs_trans [OF w2 w3(2)] by simp
    then have "started (w_exec w3)" "\<not> IsRunning ?i (w_exec w3)" "prepared w3"
      using assms(6,7) 3 by (simp_all add: adds_runs_def)
    then obtain w' where "run_state (submit_check env x t) w3 = (Ret (), w')" "adds_runs [?i] w3 w'"
      using run_submit_check [OF assms(3), of w3 x t] assms(8) by blast
    then show ?thesis using 3 w3(1) adds_runs_trans [OF a, of "[?i]" w'] by (simp add: run start_parallel_def)
  qed
qed

lemma own_id_inject [simp]: "own_id x t = own_id x t' \<longleftrightarrow> t = t'"
  by (simp add: own_id_def NewCheckRunID_def)

lemma run_parallel_checks:
  assumes "meta_laws (e_meta env)" "wrapper_unregistered env" "never_completes env"
  shows "timely env (w_whc w) ts \<Longrightarrow> started (w_exec w) \<Longrightarrow> prepared w \<Longrightarrow> set ts \<subseteq> dom (map_of GetAllChecks) \<Longrightarrow>
    distinct ts \<Longrightarrow> \<exists>w'. run_state (parallel_checks env x ts) w = (Ret (), w') \<and>
      adds_runs (map (own_id x) (filter (\<lambda>t. \<not> (check_recorded env (w_whc w) t \<or> IsRunning (own_id x t) (w_exec w))) ts)) w w'"
proof (induction ts arbitrary: w)
  case Nil
  then show ?case by (simp add: run_simps adds_runs_def)
next
  case (Cons t ts)
  let ?skip = "\<lambda>w t. check_recorded env (w_whc w) t \<or> IsRunning (own_id x t) (w_exec w)"
  obtain w1 where w1: "run_state (parallel_check env x t) w = (Ret (), w1)"
      "adds_runs (if ?skip w t then [] else [own_id x t]) w w1"
    using run_parallel_check [OF assms Cons.prems(1), of t x] Cons.prems by auto
  have whc: "w_whc w1 = w_whc w" using w1(2) by (simp add: adds_runs_def)
  have "timely env (w_whc w1) ts" using Cons.prems(1) by (simp add: whc timely_def)
  moreover have "started (w_exec w1)" "prepared w1" using w1(2) Cons.prems by (simp_all add: adds_runs_def)
  ultimately obtain w' where w': "run_state (parallel_checks env x ts) w1 = (Ret (), w')"
      "adds_runs (map (own_id x) (filter (\<lambda>t. \<not> ?skip w1 t) ts)) w1 w'"
    using Cons.IH [of w1] Cons.prems by auto
  have "filter (\<lambda>t. \<not> ?skip w1 t) ts = filter (\<lambda>t. \<not> ?skip w t) ts"
    using w1(2) Cons.prems(5) by (auto simp: whc adds_runs_def intro!: filter_cong)
  then have "adds_runs (map (own_id x) (filter (\<lambda>t. \<not> ?skip w t) (t # ts))) w w'"
    using adds_runs_trans [OF w1(2) w'(2)] by auto
  then show ?case by (simp add: run_attempt w1(1) w'(1))
qed


lemma ref_env_never_completes: "never_completes (ref_env x nss pods)"
  by (simp add: never_completes_def ref_env_def)


section \<open>Deleting a resource\<close>

lemma run_Delete:
  "snd (run_state (Delete env tgt) w) = w\<lparr>w_trace := w_trace w @ delete_calls env (w_trace w) tgt\<rparr>"
  by (simp add: Delete_def delete_calls_def run_bind run_ask run_ret run_delete_bindings run_state_case_sum
      run_state_case_option run_state_if split: sum.splits option.splits)

fun delete_all_calls :: "env \<Rightarrow> trace \<Rightarrow> string list \<Rightarrow> trace" where
  "delete_all_calls env tr [] = []"
| "delete_all_calls env tr (n # ns) =
     (let calls = delete_calls env tr n in calls @ delete_all_calls env (tr @ calls) ns)"

lemma run_delete_clones:
  "run_state (for_each nss (delete_clone env)) w =
    ((), w\<lparr>w_trace := w_trace w @ delete_all_calls env (w_trace w) (map nsp_Name nss)\<rparr>)"
proof (induction nss arbitrary: w)
  case Nil
  then show ?case by (simp add: run_ret)
next
  case (Cons ns nss)
  have "run_state (delete_clone env ns) w = ((), w\<lparr>w_trace := w_trace w @ delete_calls env (w_trace w) (nsp_Name ns)\<rparr>)"
    using run_Delete [of env "nsp_Name ns" w] by (auto simp: delete_clone_def run_bind run_ret split: prod.splits)
  then show ?case by (simp add: run_bind Cons.IH Let_def)
qed

lemma delete_all_calls_each:
  assumes "n \<in> set ns"
  shows "\<exists>pre post. delete_all_calls env tr ns = pre @ delete_calls env (tr @ pre) n @ post"
  using assms
proof (induction ns arbitrary: tr)
  case Nil
  then show ?case by simp
next
  case (Cons m ns)
  let ?c = "delete_calls env tr m"
  show ?case
  proof (cases "n = m")
    case True
    then show ?thesis by (intro exI [of _ "[]"] exI [of _ "delete_all_calls env (tr @ ?c) ns"]) (simp add: Let_def)
  next
    case False
    then have "n \<in> set ns" using Cons.prems by simp
    then obtain pre post where "delete_all_calls env (tr @ ?c) ns = pre @ delete_calls env ((tr @ ?c) @ pre) n @ post"
      using Cons.IH [of "tr @ ?c"] by blast
    then show ?thesis by (intro exI [of _ "?c @ pre"] exI [of _ post]) (simp add: Let_def)
  qed
qed

lemma cancelled_own_runs:
  assumes "is_order ord" "map_of (activeRuns (CancelByPrefix ord p e)) i = Some n" "CheckRunID_HasPrefix i p"
  shows "ctx_done (CancelByPrefix ord p e) n"
proof -
  have m: "map_of (activeRuns e) i = Some n" using assms(2) by (simp add: CancelByPrefix_def)
  then have "i \<in> set (ord (gm_keys (activeRuns e)))" by (simp add: is_order_set [OF assms(1)] set_gm_keys domI)
  then show ?thesis using m assms(3) by (auto simp: ctx_done_def CancelByPrefix_def set_cancelled_fold_Cancel)
qed

text \<open>
  C7. A deleted resource that still has the finalizer first has all its active runs cancelled, then every
  namespace cloned from its namespace deleted, and only then the finalizer taken off, in one update that
  changes nothing else; when the namespaces cannot be listed the finalizer stays and the error is returned.
  Errors of the single deletions do not stop it.
\<close>

theorem deletion_order:
  assumes "finalizer_laws (e_finalizers env)" and "\<forall>tr. is_order (e_order env tr)"
  shows "let (r, w') = run_state (handleDeletion env x) w;
      tr = w_trace w @ [EvCancelByPrefix (own_prefix x)];
      y = with_finalizers (f_Remove (e_finalizers env) (whc_Finalizers x) FinalizerCleanup) x
    in (\<forall>i n. map_of (activeRuns (w_exec w')) i = Some n \<and> CheckRunID_HasPrefix i (own_prefix x) \<longrightarrow> ctx_done (w_exec w') n)
      \<and> set (whc_Finalizers y) = set (whc_Finalizers x) - {FinalizerCleanup}
      \<and> (case e_ListNamespaces env tr (clones_of x) of
          Inl err \<Rightarrow> r = Ret (failed_reply err) \<and> w_trace w' = tr @ [EvListNamespaces (clones_of x)]
        | Inr nss \<Rightarrow> \<exists>ds. w_trace w' = tr @ [EvListNamespaces (clones_of x)] @ ds @ [EvUpdateWHC y]
            \<and> (\<forall>ns \<in> set nss. \<exists>pre post. ds =
                pre @ delete_calls env (tr @ [EvListNamespaces (clones_of x)] @ pre) (nsp_Name ns) @ post))"
proof -
  have f: "\<And>l. set (f_Remove (e_finalizers env) l FinalizerCleanup) = set l - {FinalizerCleanup}"
    using assms(1) by (simp add: finalizer_laws_def)
  let ?e = "fold ended (e_completed env (w_trace w)) (w_exec w)"
  let ?E = "CancelByPrefix (e_order env (w_trace w)) (own_prefix x) ?e"
  have c: "\<forall>i n. map_of (activeRuns ?E) i = Some n \<and> CheckRunID_HasPrefix i (own_prefix x) \<longrightarrow> ctx_done ?E n"
    using cancelled_own_runs [OF assms(2) [rule_format]] by blast
  show ?thesis
  proof (cases "e_ListNamespaces env (w_trace w @ [EvCancelByPrefix (own_prefix x)]) (clones_of x)")
    case (Inl err)
    then show ?thesis using c
      by (simp add: handleDeletion_def cancel_prefix_def completions_def run_simps with_finalizers_def f)
  next
    case (Inr nss)
    let ?tr = "w_trace w @ [EvCancelByPrefix (own_prefix x), EvListNamespaces (clones_of x)]"
    let ?ds = "delete_all_calls env ?tr (map nsp_Name nss)"
    have "\<exists>pre post. ?ds = pre @ delete_calls env (?tr @ pre) (nsp_Name ns) @ post" if "ns \<in> set nss" for ns
      by (rule delete_all_calls_each) (simp add: that)
    then show ?thesis using c Inr
      by (simp add: handleDeletion_def cancel_prefix_def completions_def release_def update_whc_def run_simps
          run_delete_clones with_finalizers_def f split: option.splits)
  qed
qed

theorem deletion_order_witness:
  "fst (run_state (handleDeletion (ref_env empty_whc [clone_namespace ''apps'' ''apps-abc-user'' ''abc''] []) empty_whc)
      (start_world empty_whc)) = Ret finished_reply
    \<and> (\<exists>ds. w_trace (snd (run_state (handleDeletion (ref_env empty_whc [clone_namespace ''apps'' ''apps-abc-user'' ''abc''] []) empty_whc)
        (start_world empty_whc))) = EvCancelByPrefix ''apps/whc:'' # ds)"
proof -
  let ?env = "ref_env empty_whc [clone_namespace ''apps'' ''apps-abc-user'' ''abc''] []"
  have ord: "\<forall>tr. is_order (e_order ?env tr)" by (simp add: ref_env_def is_order_def)
  have l: "e_ListNamespaces ?env tr sel \<noteq> Inl e" for tr sel e by (simp add: ref_env_def)
  have start_trace: "w_trace (start_world empty_whc) = []" by (simp add: start_world_def)
  have p: "own_prefix empty_whc = ''apps/whc:''" by (simp add: own_prefix_def empty_whc_def)
  have u: "fst (e_UpdateWHC ?env tr y) = None" for tr y by (simp add: ref_env_def)
  obtain r w' where run: "run_state (handleDeletion ?env empty_whc) (start_world empty_whc) = (r, w')" by force
  have "r = Ret finished_reply" using run l u
    by (auto simp: handleDeletion_def cancel_prefix_def completions_def release_def update_whc_def run_simps
        run_delete_clones split: sum.splits option.splits)
  moreover have "\<exists>ds. w_trace w' = EvCancelByPrefix ''apps/whc:'' # ds"
  proof -
    obtain nss where "e_ListNamespaces ?env [EvCancelByPrefix ''apps/whc:''] (clones_of empty_whc) = Inr nss"
      by (simp add: ref_env_def)
    then show ?thesis
      using deletion_order [OF ref_env_finalizers ord, of empty_whc "start_world empty_whc"]
      by (auto simp: run Let_def p start_trace)
  qed
  ultimately show ?thesis by (simp add: run)
qed

section \<open>The guards of a reconciliation\<close>

text \<open>
  The first steps of a reconciliation. A resource that is gone, finished, or deleted and released is
  only read; one that is not deleted and lacks the finalizer gets the finalizer and nothing else, and is
  looked at again; when it cannot be read the reconciliation ends with the error after asking for a retry.
\<close>

theorem reconcile_guards:
  assumes "finalizer_laws (e_finalizers env)"
  shows "let fetch = EvGetWHC ns n; w1 = w\<lparr>w_trace := w_trace w @ [fetch]\<rparr>;
      go = run_state (Reconcile env da b ns n) w
    in case e_GetWHC env (w_trace w) ns n of
      Inl err \<Rightarrow> go = (Ret (\<lparr>rr_Requeue = False, rr_RequeueAfter = (if IsNotFound err then 0 else dur Minute)\<rparr>,
          if IsNotFound err then None else Some err), w1)
    | Inr x \<Rightarrow>
        (let kept = FinalizerCleanup \<in> set (whc_Finalizers x);
             y = with_finalizers (f_Add (e_finalizers env) (whc_Finalizers x) FinalizerCleanup) x
         in (whc_DeletionTimestamp x \<noteq> None \<and> \<not> kept \<longrightarrow> go = (Ret finished_reply, w1))
          \<and> (whc_DeletionTimestamp x = None \<and> kept \<and> m_IsTrue (e_meta env) (whc_Conditions x) ConditionTypeFinished \<longrightarrow>
              go = (Ret finished_reply, w1))
          \<and> (whc_DeletionTimestamp x = None \<and> \<not> kept \<longrightarrow>
              set (whc_Finalizers y) = insert FinalizerCleanup (set (whc_Finalizers x))
              \<and> w_trace (snd go) = w_trace w @ [fetch, EvUpdateWHC y]))"
proof -
  have f: "f_Contains (e_finalizers env) l FinalizerCleanup \<longleftrightarrow> FinalizerCleanup \<in> set l"
      "set (f_Add (e_finalizers env) l FinalizerCleanup) = insert FinalizerCleanup (set l)" for l
    using assms by (simp_all add: finalizer_laws_def)
  show ?thesis
    by (cases "e_GetWHC env (w_trace w) ns n")
      (auto simp: Reconcile_def reconcile_fetched_def add_finalizer_def update_whc_def run_simps Let_def f
        finished_reply_def with_finalizers_def split: option.splits)
qed

theorem reconcile_guards_witness:
  "run_state (Reconcile (ref_env empty_whc [] []) line_miner False ''apps'' ''gone'') (start_world empty_whc) =
    (Ret finished_reply, (start_world empty_whc)\<lparr>w_trace := [EvGetWHC ''apps'' ''gone'']\<rparr>)"
proof -
  have "e_GetWHC (ref_env empty_whc [] []) (w_trace (start_world empty_whc)) ''apps'' ''gone'' = Inl not_found"
    by (simp add: ref_env_def empty_whc_def)
  then show ?thesis
    using reconcile_guards [OF ref_env_finalizers [of empty_whc "[]" "[]"], of "''apps''" "''gone''" "start_world empty_whc" line_miner False]
    by (simp add: Let_def not_found_def finished_reply_def) (simp add: start_world_def)
qed

section \<open>Starting the next check\<close>

lemma run_next_round: "run_state (next_round env k) w = (requeue_after (GetCheckDuration env (w_whc w) + dur (k * Second)), w)"
  by (simp add: next_round_def run_gets)

lemma run_sequential_checks:
  assumes "meta_laws (e_meta env)" "wrapper_unregistered env" "never_completes env"
  shows "timely env (w_whc w) ts \<Longrightarrow> started (w_exec w) \<Longrightarrow> prepared w \<Longrightarrow> set ts \<subseteq> dom (map_of GetAllChecks) \<Longrightarrow>
    \<exists>w'. case dropWhile (check_recorded env (w_whc w)) ts of
        [] \<Rightarrow> run_state (sequential_checks env x ts) w = (Ret (requeue_after (dur (30 * Second))), w') \<and> adds_runs [] w w'
      | t # rest \<Rightarrow> run_state (sequential_checks env x ts) w =
            (Ret (requeue_after (GetCheckDuration env (w_whc w) + dur (10 * Second))), w')
          \<and> adds_runs (if IsRunning (own_id x t) (w_exec w) then [] else [own_id x t]) w w'"
proof (induction ts arbitrary: w)
  case Nil
  then show ?case by (simp add: run_ret adds_runs_def)
next
  case (Cons t ts)
  let ?i = "own_id x t"
  let ?w2 = "(refreshed w)\<lparr>w_trace := w_trace (refreshed w) @ [EvIsRunning ?i]\<rparr>"
  have w2: "adds_runs [] w ?w2" by (simp add: adds_runs_def) (simp add: refreshed_def)
  note run = run_simps run_conditions [OF assms(1,2)] run_is_running [OF assms(3)] check_recorded_def [symmetric]
  consider "check_recorded env (w_whc w) t" | "\<not> check_recorded env (w_whc w) t" "IsRunning ?i (w_exec w)"
    | "\<not> check_recorded env (w_whc w) t" "\<not> IsRunning ?i (w_exec w)" by blast
  then show ?case
  proof cases
    case 1
    have "timely env (w_whc (refreshed w)) ts" using Cons.prems(1) by (simp add: timely_def)
    then have "\<exists>w'. case dropWhile (check_recorded env (w_whc w)) ts of
        [] \<Rightarrow> run_state (sequential_checks env x ts) (refreshed w) = (Ret (requeue_after (dur (30 * Second))), w')
          \<and> adds_runs [] (refreshed w) w'
      | t # rest \<Rightarrow> run_state (sequential_checks env x ts) (refreshed w) =
            (Ret (requeue_after (GetCheckDuration env (w_whc w) + dur (10 * Second))), w')
          \<and> adds_runs (if IsRunning (own_id x t) (w_exec w) then [] else [own_id x t]) (refreshed w) w'"
      using Cons.IH [of "refreshed w"] Cons.prems(2-4) by (simp only: refreshed_frame prepared_refreshed) simp
    then obtain w' where w': "case dropWhile (check_recorded env (w_whc w)) ts of
        [] \<Rightarrow> run_state (sequential_checks env x ts) (refreshed w) = (Ret (requeue_after (dur (30 * Second))), w')
          \<and> adds_runs [] (refreshed w) w'
      | t # rest \<Rightarrow> run_state (sequential_checks env x ts) (refreshed w) =
            (Ret (requeue_after (GetCheckDuration env (w_whc w) + dur (10 * Second))), w')
          \<and> adds_runs (if IsRunning (own_id x t) (w_exec w) then [] else [own_id x t]) (refreshed w) w'"
      by (elim exE)
    have eq: "run_state (sequential_checks env x (t # ts)) w = run_state (sequential_checks env x ts) (refreshed w)"
      using 1 by (simp add: run)
    have tr: "adds_runs is (refreshed w) w' \<Longrightarrow> adds_runs is w w'" for "is"
      using adds_runs_trans [OF adds_runs_refreshed [of w], of "is" w'] by simp
    show ?thesis
      using 1 w' by (intro exI [of _ w'], cases "dropWhile (check_recorded env (w_whc w)) ts")
        (simp_all add: eq tr del: sequential_checks.simps dropWhile_eq_Nil_conv)
  next
    case 2
    obtain w' where w': "run_state (CheckOverdue env t) ?w2 = (Ret False, w')" "adds_runs [] ?w2 w'"
      using run_CheckOverdue [OF assms(1,2), of ?w2 "t # ts" t] Cons.prems(1) by auto
    have a: "adds_runs [] w w'" using adds_runs_trans [OF w2 w'(2)] by simp
    have "run_state (sequential_checks env x (t # ts)) w = (Ret (requeue_after (GetCheckDuration env (w_whc w') + dur (10 * Second))), w')"
      using 2 by (simp add: run w'(1) run_next_round)
    then show ?thesis using 2 a by (auto simp: adds_runs_def)
  next
    case 3
    obtain w' where w': "run_state (submit_check env x t) ?w2 = (Ret (), w')" "adds_runs [?i] ?w2 w'"
      using run_submit_check [OF assms(3), of ?w2 x t] Cons.prems 3 by auto
    have a: "adds_runs [?i] w w'" using adds_runs_trans [OF w2 w'(2)] by simp
    have "run_state (sequential_checks env x (t # ts)) w = (Ret (requeue_after (GetCheckDuration env (w_whc w') + dur (10 * Second))), w')"
      using 3 by (simp add: run start_sequential_def w'(1) run_next_round)
    then show ?thesis using 3 a by (auto simp: adds_runs_def)
  qed
qed



section \<open>What a whole reconciliation may do\<close>

lemma steps_reconcile_fetched:
  assumes "lawful env" "whc_DeletionTimestamp x = None"
  shows "steps anywhere (controls UNIV x) (reconcile_fetched env da b x) (\<lambda>_. anywhere)"
  unfolding reconcile_fetched_def Let_def assms(2)
  by (intro emits_intros keeps_deletion steps_reconcile_checks assms(1); simp)

lemma Reconcile_found:
  assumes "e_GetWHC env (w_trace w) ns n = Inr x"
  shows "run_state (Reconcile env da b ns n) w =
    run_state (reconcile_fetched env da b x) (w\<lparr>w_trace := w_trace w @ [EvGetWHC ns n]\<rparr>)"
  by (simp add: Reconcile_def run_simps assms)



lemma keeps_run_eq: "(\<And>w. I w \<Longrightarrow> run_state m w = run_state m' w) \<Longrightarrow> steps I P m' Q \<Longrightarrow> steps I P m Q"
  by (simp add: steps_def)

text \<open>
  A baseline that did not succeed ends the reconciliation at \<open>abort_failed_baseline\<close>: if the test there says that
  no baseline is recorded, so does the one before the checks.
\<close>

lemma run_abort:
  assumes "lawful env" "wrapper_unregistered env" "failed_baseline x"
  shows "run_state (or_else (abort_failed_baseline env x) (or_else (record_missing env x) rest)) w =
    run_state (or_else (abort_failed_baseline env x) (attempt (BaselineRecorded env) (\<lambda>_. rest))) w"
  using assms(3)
  by (simp add: or_else_def abort_failed_baseline_def record_missing_def go_on_def reply_with_def run_simps
      run_conditions [OF lawful_laws(1) [OF assms(1)] assms(2)])
    (simp split: prod.splits)

lemma keeps_failed_stages:
  assumes "lawful env" "wrapper_unregistered env" "failed_baseline x"
  shows "keeps (keyed (whc_Namespace x) (whc_Name x)) (controls {''baseline'', ''baseline-2'', ''Final''} x)
    (or_else (abort_failed_baseline env x) (or_else (record_missing env x) (ret (Ret finished_reply))))"
  by (rule keeps_run_eq [OF run_abort [OF assms]])
    (intro emits_intros control_calls keeps_baseline_stages assms; simp)

text \<open>
  C10. When a recorded baseline of the fetched resource did not succeed, no check is started: the
  reconciliation submits nothing but baselines and final checks.
\<close>

theorem failed_baseline_stops:
  assumes "lawful env" and "wrapper_unregistered env" and "e_GetWHC env (w_trace w) ns n = Inr x"
    and "whc_DeletionTimestamp x = None" and "failed_baseline x"
  shows "\<exists>evs. w_trace (snd (run_state (Reconcile env da b ns n) w)) = w_trace w @ EvGetWHC ns n # evs
    \<and> (\<forall>ev \<in> set evs. controls {''baseline'', ''baseline-2'', ''Final''} x ev)"
proof -
  let ?K = "keyed (whc_Namespace x) (whc_Name x)" and ?P = "controls {''baseline'', ''baseline-2'', ''Final''} x"
  have stages: "keeps ?K ?P
      (or_else (finish_recorded env) (or_else (analyze_finished env da b x) (or_else (retry_final env x)
      (or_else (await_final env) (or_else (start_final env x) (or_else (await_baseline env) (or_else (use_reference env x)
      (or_else (start_baseline env x) (or_else (abort_failed_baseline env x) (or_else (record_missing env x)
        (ret (Ret finished_reply))))))))))))"
    by (intro keeps_or_else keeps_final_stages keeps_baseline_stages keeps_failed_stages assms(1,2,5); simp)
  have "steps anywhere ?P (reconcile_checks env da b x) (\<lambda>_. anywhere)"
    unfolding reconcile_checks_def
    by (rule steps_bind [OF steps_manager]) (rule steps_weaken [OF stages]; simp)
  then have "steps anywhere ?P (reconcile_fetched env da b x) (\<lambda>_. anywhere)"
    unfolding reconcile_fetched_def Let_def assms(4)
    by (intro emits_intros keeps_deletion assms(1); simp)
  from stepsD_trace [OF this anywhere, of "w\<lparr>w_trace := w_trace w @ [EvGetWHC ns n]\<rparr>"]
  show ?thesis by (auto simp: Reconcile_found [OF assms(3)])
qed

definition crashed_baseline :: WorkloadHardeningCheck where
  "crashed_baseline = baseline_done\<lparr>whc_Status := (whc_Status baseline_done)\<lparr>st_BaselineRuns :=
     [\<lparr>cr_Name = ''baseline'', cr_RecordingSuccessfull = Some False, cr_CheckSuccessfull = Some False,
        cr_SecurityContext = None, cr_FailureReason = [], cr_LogAnomalies = []\<rparr>]\<rparr>\<rparr>"

theorem failed_baseline_stops_witness:
  "\<exists>evs. w_trace (snd (run_state (Reconcile (ref_env crashed_baseline [] []) line_miner False ''apps'' ''whc'')
      (start_world crashed_baseline))) = EvGetWHC ''apps'' ''whc'' # evs
    \<and> (\<forall>ev \<in> set evs. controls {''baseline'', ''baseline-2'', ''Final''} crashed_baseline ev)"
proof -
  have "e_GetWHC (ref_env crashed_baseline [] []) (w_trace (start_world crashed_baseline)) ''apps'' ''whc'' = Inr crashed_baseline"
    "whc_DeletionTimestamp crashed_baseline = None" "failed_baseline crashed_baseline"
    by (simp_all add: ref_env_def start_world_def crashed_baseline_def baseline_done_def empty_whc_def failed_baseline_def)
  from failed_baseline_stops [OF ref_env_lawful ref_env_wrapper this, of line_miner False] show ?thesis
    by (simp add: start_world_def)
qed

end
