(* ===== verification/NamespaceController.thy ===== *)
theory NamespaceController
  imports Dispatch
begin

text \<open>
  \<open>internal/controller/namespace\<close>: the reconciliation of a namespace hardening check. It records the
  baselines of all workloads of the namespace in one clone, creates one workload hardening check per
  workload with those baselines as references, waits for them, and runs a final check of the namespace
  with all recommendations at once. The custom resource it holds a pointer to is \<open>w_nhc\<close>.
\<close>

section \<open>Status\<close>

abbreviation nhc_Conditions :: "NamespaceHardeningCheck \<Rightarrow> Condition list" where
  "nhc_Conditions x \<equiv> nst_Conditions (nhc_Status x)"

abbreviation target_of :: "NamespaceHardeningCheck \<Rightarrow> string" where
  "target_of x \<equiv> nspec_TargetNamespace (nhc_Spec x)"

abbreviation suffix_of :: "NamespaceHardeningCheck \<Rightarrow> string" where
  "suffix_of x \<equiv> nspec_Suffix (nhc_Spec x)"

definition set_nhc_status ::
    "(NamespaceHardeningCheckStatus \<Rightarrow> NamespaceHardeningCheckStatus) \<Rightarrow> world \<Rightarrow> world" where
  "set_nhc_status f w = w\<lparr>w_nhc := (w_nhc w)\<lparr>nhc_Status := f (nhc_Status (w_nhc w))\<rparr>\<rparr>"

text \<open>The functions retried on a conflict: fetch by name, change the status, update it.\<close>

definition nhc_status_attempt :: "env \<Rightarrow> string \<Rightarrow> (int \<Rightarrow> NamespaceHardeningCheckStatus \<Rightarrow> NamespaceHardeningCheckStatus) \<Rightarrow>
    error option prog" where
  "nhc_status_attempt env name f = do {
     r \<leftarrow> ask (EvGetNHC name) (\<lambda>tr. e_GetNHC env tr name);
     case r of
       Inl err \<Rightarrow> if IsNotFound err then ret None else ret (Some err)
     | Inr x \<Rightarrow> do {
         modify (\<lambda>w. w\<lparr>w_nhc := x\<rparr>);
         now \<leftarrow> ask EvNow (e_now env);
         modify (set_nhc_status (f now));
         y \<leftarrow> gets w_nhc;
         u \<leftarrow> ask (EvStatusUpdateNHC y) (\<lambda>tr. e_StatusUpdateNHC env tr y);
         (case u of
           (None, z) \<Rightarrow> do { modify (\<lambda>w. w\<lparr>w_nhc := z\<rparr>); ret None }
         | (Some err, z) \<Rightarrow> ret (Some err)) } }"

definition with_nhc_condition :: "env \<Rightarrow> Condition \<Rightarrow> int \<Rightarrow> NamespaceHardeningCheckStatus \<Rightarrow> NamespaceHardeningCheckStatus" where
  "with_nhc_condition env c now st = st\<lparr>nst_Conditions := m_Set (e_meta env) now (nst_Conditions st) c\<rparr>"

text \<open>\<open>SetCondition\<close>; every attempt reads the name from the object the pointer leads to.\<close>

definition nhc_condition_attempt :: "env \<Rightarrow> Condition \<Rightarrow> error option prog" where
  "nhc_condition_attempt env c = do {
     x \<leftarrow> gets w_nhc;
     nhc_status_attempt env (nhc_Name x) (with_nhc_condition env c) }"

definition nhc_SetCondition :: "env \<Rightarrow> string \<Rightarrow> ConditionStatus \<Rightarrow> string \<Rightarrow> string \<Rightarrow> error option prog" where
  "nhc_SetCondition env type status reason message =
     RetryOnConflict env (nhc_condition_attempt env (mk_condition type status reason message))"

definition nhc_set :: "env \<Rightarrow> string \<Rightarrow> ConditionStatus \<Rightarrow> string \<Rightarrow> string \<Rightarrow> unit prog" where
  "nhc_set env type status reason message = do {
     nhc_SetCondition env type status reason message;
     ret () }"

definition nhc_CheckDuration :: "env \<Rightarrow> NamespaceHardeningCheck \<Rightarrow> Duration" where
  "nhc_CheckDuration env x = check_duration (e_parseFraction env) (nspec_RecordingDuration (nhc_Spec x))"

section \<open>The workload of a resource\<close>

definition exact_kind :: "string \<Rightarrow> Kind option" where
  "exact_kind s =
     (if s = ''Deployment'' then Some Deployment
      else if s = ''StatefulSet'' then Some StatefulSet
      else if s = ''DaemonSet'' then Some DaemonSet
      else None)"

text \<open>A supported kind that is spelt differently leaves the object nil, which the client dereferences.\<close>

definition nhc_GetWorkloadUnderTest :: "env \<Rightarrow> Resource \<Rightarrow> (error + Workload) outcome prog" where
  "nhc_GetWorkloadUnderTest env r =
     (if \<not> IsSupportedUnstructured r then ret (Ret (Inl (Errorf (''unsupported resource kind: '' @ u_Kind r))))
      else (case exact_kind (u_Kind r) of
        None \<Rightarrow> ret (Panic ''nil pointer dereference'')
      | Some k \<Rightarrow> do {
          g \<leftarrow> get_workload env k (u_Namespace r) (u_Name r);
          ret (Ret g) }))"

text \<open>Fetching the workload object again, an error leaves it alone.\<close>

definition refetch_workload :: "env \<Rightarrow> Workload \<Rightarrow> Workload prog" where
  "refetch_workload env wl = do {
     g \<leftarrow> get_workload env (wl_Kind wl) (wl_Namespace wl) (wl_Name wl);
     ret (case g of Inl e \<Rightarrow> wl | Inr wl' \<Rightarrow> wl') }"

section \<open>Creating the workload checks\<close>

definition resource_id :: "Resource \<Rightarrow> string" where
  "resource_id r = u_Kind r @ ''/'' @ u_Name r"

definition check_name :: "NamespaceHardeningCheck \<Rightarrow> Resource \<Rightarrow> string" where
  "check_name x r = to_lower (u_Kind r @ ''-'' @ u_Name r @ ''-'' @ suffix_of x)"

definition baseline_key :: "NamespaceHardeningCheck \<Rightarrow> Resource \<Rightarrow> string" where
  "baseline_key x r = to_lower (target_of x @ '':'' @ suffix_of x @ '':'' @ u_Kind r @ ''-'' @ u_Name r)"

definition new_workload_check :: "NamespaceHardeningCheck \<Rightarrow> Resource \<Rightarrow> string \<Rightarrow> WorkloadHardeningCheck" where
  "new_workload_check x r random = \<lparr>whc_Name = check_name x r, whc_Namespace = target_of x,
     whc_DeletionTimestamp = None, whc_Finalizers = [],
     whc_Labels = [(''app.kubernetes.io/name'', check_name x r), (LabelManagedBy, ManagedByValue),
       (''appkubernetes.io/part-of'', nhc_Name x)],
     whc_Owners = [],
     whc_Spec = \<lparr>spec_TargetRef = \<lparr>tr_Kind = u_Kind r, tr_Name = u_Name r\<rparr>,
       spec_BaselineRecordingReference = [baseline_key x r @ '':baseline'', baseline_key x r @ '':baseline-2''],
       spec_RecordingDuration = nspec_RecordingDuration (nhc_Spec x), spec_RunMode = nspec_RunMode (nhc_Spec x),
       spec_SecurityContext = nspec_SecurityContext (nhc_Spec x), spec_Suffix = suffix_of x @ ''-'' @ random\<rparr>,
     whc_Status = \<lparr>st_Conditions = [], st_BaselineRuns = [], st_CheckRuns = [], st_FinalRun = None,
       st_Recommendation = None\<rparr>\<rparr>"

definition create_failed :: "string \<Rightarrow> NamespaceHardeningCheck \<Rightarrow> Resource \<Rightarrow> error \<Rightarrow> error" where
  "create_failed what x r err =
     Wrapf (what @ '' WorkloadHardeningCheck for '' @ resource_id r @ '' in namespace '' @ target_of x) err"

definition createWorkloadHardeningCheck :: "env \<Rightarrow> Resource \<Rightarrow> (error + WorkloadHardeningCheck) outcome prog" where
  "createWorkloadHardeningCheck env r = do {
     x \<leftarrow> gets w_nhc;
     g \<leftarrow> ask (EvGetWHC (target_of x) (check_name x r)) (\<lambda>tr. e_GetWHC env tr (target_of x) (check_name x r));
     case g of
       Inr existing \<Rightarrow> ret (Ret (Inr existing))
     | Inl err \<Rightarrow>
         (if \<not> IsNotFound err then ret (Ret (Inl (create_failed ''failed to get existing'' x r err)))
          else attempt (rand_string env 8) (\<lambda>random. do {
            let y = e_OwnWHC env x (new_workload_check x r random);
            e \<leftarrow> ask (EvCreateWHC y) (\<lambda>tr. e_CreateWHC env tr y);
            case e of
              Some err' \<Rightarrow> ret (Ret (Inl (create_failed ''failed to create'' x r err')))
            | None \<Rightarrow> ret (Ret (Inr y)) })) }"

fun create_checks :: "env \<Rightarrow> Resource list \<Rightarrow> WorkloadHardeningCheck list outcome prog" where
  "create_checks env [] = ret (Ret [])"
| "create_checks env (r # rs) = attempt (createWorkloadHardeningCheck env r) (\<lambda>c. do {
     x \<leftarrow> gets w_nhc;
     (case c of
        Inl err \<Rightarrow> record_event ''Warning'' ''Failed''
          (''Failed to create WorkloadHardeningCheck for '' @ resource_id r @ '' in namespace '' @ target_of x @ '': '' @ error_text err)
      | Inr _ \<Rightarrow> ret ());
     attempt (create_checks env rs) (\<lambda>cs. ret (Ret (case c of Inl err \<Rightarrow> cs | Inr y \<Rightarrow> y # cs))) })"

section \<open>Recording the baselines of all workloads\<close>

text \<open>
  The recorders of the workloads run in goroutines that only read; here one after the other, in the order
  \<open>e_permutation\<close> picks. What each of them put into its channels is kept by the name of its resource, as
  in the maps of channels, so that of two resources of one name the later one's channels are found.
\<close>

fun run_records :: "nat \<Rightarrow> env \<Rightarrow> CheckRecorder list \<Rightarrow> nat list \<Rightarrow> (nat, sent) gomap \<Rightarrow> (nat, sent) gomap outcome prog" where
  "run_records fuel env recorders [] sents = ret (Ret sents)"
| "run_records fuel env recorders (i # is) sents = attempt (Record fuel env (recorders ! i)) (\<lambda>(s, _).
     run_records fuel env recorders is (AList.update i s sents))"

definition channel_of :: "Resource list \<Rightarrow> (nat, sent) gomap \<Rightarrow> Resource \<Rightarrow> (nat \<times> sent) option" where
  "channel_of rs sents r =
     (case filter (\<lambda>i. resource_id (rs ! i) = resource_id r) [0..<length rs] of
        [] \<Rightarrow> None
      | is \<Rightarrow> map_option (\<lambda>s. (last is, s)) (map_of sents (last is)))"

text \<open>Receiving: the message is gone afterwards, and a channel without one blocks for ever.\<close>

fun store_recordings :: "env \<Rightarrow> NamespaceHardeningCheck \<Rightarrow> Resource list \<Rightarrow> Resource list \<Rightarrow> (nat, sent) gomap \<Rightarrow> unit outcome prog" where
  "store_recordings env x rs [] sents = ret (Ret ())"
| "store_recordings env x rs (r # rest) sents = (case channel_of rs sents r of
     Some (i, SentRecording recording) \<Rightarrow> do {
       StoreRecording env (baseline_key x r) recording;
       store_recordings env x rs rest (AList.update i SentNothing sents) }
   | Some (i, SentError err) \<Rightarrow> store_recordings env x rs rest (AList.update i SentNothing sents)
   | _ \<Rightarrow> ret NoReturn)"

definition new_recorder :: "env \<Rightarrow> NamespaceHardeningCheck \<Rightarrow> string \<Rightarrow> string \<Rightarrow> Resource \<Rightarrow> CheckRecorder" where
  "new_recorder env x recordingName targetNamespace r =
     NewCheckRecorder recordingName targetNamespace \<lparr>tr_Kind = u_Kind r, tr_Name = u_Name r\<rparr> (nhc_CheckDuration env x)"

definition record_clone :: "nat \<Rightarrow> env \<Rightarrow> NamespaceHardeningCheck \<Rightarrow> string \<Rightarrow> string \<Rightarrow> Resource list \<Rightarrow> error option outcome prog" where
  "record_clone fuel env x recordingName targetNamespace rs = do {
     emit (EvSleep (int (5 * Second)));
     order \<leftarrow> gets (\<lambda>w. e_permutation env (w_trace w) (length rs));
     attempt (run_records fuel env (map (new_recorder env x recordingName targetNamespace) rs) order []) (\<lambda>sents.
     attempt (store_recordings env x rs rs sents) (\<lambda>_. do {
       Delete env targetNamespace;
       ret (Ret None) })) }"

definition empty_namespace :: Namespace where
  "empty_namespace = \<lparr>nsp_Name = [], nsp_Labels = [], nsp_CreationTimestamp = 0, nsp_Owners = []\<rparr>"

text \<open>Setting the owner of the clone; the error of the fetch is dropped, which leaves an empty object.\<close>

definition own_clone :: "env \<Rightarrow> NamespaceHardeningCheck \<Rightarrow> string \<Rightarrow> unit prog" where
  "own_clone env x targetNamespace = do {
     g \<leftarrow> ask (EvGetNamespace targetNamespace) (\<lambda>tr. e_GetNamespace env tr targetNamespace);
     let owned = e_OwnNamespace env x (case g of Inl e \<Rightarrow> empty_namespace | Inr ns \<Rightarrow> ns);
     u \<leftarrow> ask (EvUpdateNamespace owned) (\<lambda>tr. e_UpdateNamespace env tr owned);
     ret () }"

definition baseline_namespace :: "NamespaceHardeningCheck \<Rightarrow> string \<Rightarrow> string" where
  "baseline_namespace x recordingName = target_of x @ ''-'' @ suffix_of x @ ''-'' @ recordingName"

definition recordAllWorkloads :: "nat \<Rightarrow> env \<Rightarrow> NamespaceHardeningCheck \<Rightarrow> string \<Rightarrow> error option outcome prog" where
  "recordAllWorkloads fuel env x recordingName = do {
     topLevelResources \<leftarrow> GetSupportedWorkloadResources env (target_of x);
     let targetNamespace = baseline_namespace x recordingName;
     attempt (Clone env (target_of x) targetNamespace (suffix_of x)) (\<lambda>e.
       if (case e of None \<Rightarrow> False | Some err \<Rightarrow> \<not> IsAlreadyExists err) then ret (Ret e)
       else do {
         own_clone env x targetNamespace;
         record_clone fuel env x recordingName targetNamespace topLevelResources }) }"

section \<open>The final check of a namespace\<close>

text \<open>
  Both loops sleep and fetch before they test. The first has no time limit; the second has two minutes
  from \<open>startTime\<close>, for all workloads together, and its result is whether the workload became ready.
\<close>

fun wait_rolled_out :: "nat \<Rightarrow> env \<Rightarrow> Workload \<Rightarrow> unit outcome prog" where
  "wait_rolled_out 0 env wl = ret NoReturn"
| "wait_rolled_out (Suc fuel) env wl = do {
     emit (EvSleep (int (5 * Second)));
     wl' \<leftarrow> refetch_workload env wl;
     attempt (ret (VerifyUpdated wl')) (\<lambda>v. if ok_value v then ret (Ret ()) else wait_rolled_out fuel env wl') }"

fun wait_ready :: "nat \<Rightarrow> env \<Rightarrow> Workload \<Rightarrow> int \<Rightarrow> bool outcome prog" where
  "wait_ready 0 env wl startTime = ret NoReturn"
| "wait_ready (Suc fuel) env wl startTime = do {
     emit (EvSleep (int (5 * Second)));
     wl' \<leftarrow> refetch_workload env wl;
     now \<leftarrow> ask EvNow (e_now env);
     if longer (since now startTime) (dur (2 * Minute)) then ret (Ret False)
     else do {
       v \<leftarrow> VerifyReadiness env wl';
       if ok_value v then ret (Ret True) else wait_ready fuel env wl' startTime } }"

definition apply_recommendation :: "nat \<Rightarrow> env \<Rightarrow> Workload \<Rightarrow> Recommendation \<Rightarrow> unit outcome prog" where
  "apply_recommendation fuel env wl rec = do {
     ko \<leftarrow> map_order env;
     let wl1 = (case ApplySecurityContext ko wl (rec_Container rec) (rec_Pod rec) of Inl e \<Rightarrow> wl | Inr wl' \<Rightarrow> wl');
     u \<leftarrow> update_workload env wl1;
     wait_rolled_out fuel env (case u of (None, updated) \<Rightarrow> updated | (Some e, _) \<Rightarrow> wl1) }"

definition harden_resource :: "nat \<Rightarrow> env \<Rightarrow> Resource \<Rightarrow> unit outcome prog" where
  "harden_resource fuel env r =
     (if \<not> IsSupportedUnstructured r then ret (Ret ())
      else attempt (nhc_GetWorkloadUnderTest env r) (\<lambda>g. case g of
          Inl e \<Rightarrow> ret (Ret ())
        | Inr wl \<Rightarrow> do {
            x \<leftarrow> gets w_nhc;
            case map_of (nst_Recommendations (nhc_Status x)) (resource_id r) of
              None \<Rightarrow> ret (Ret ())
            | Some rec \<Rightarrow> apply_recommendation fuel env wl rec }))"

fun harden_all :: "nat \<Rightarrow> env \<Rightarrow> Resource list \<Rightarrow> unit outcome prog" where
  "harden_all fuel env [] = ret (Ret ())"
| "harden_all fuel env (r # rs) = attempt (harden_resource fuel env r) (\<lambda>_. harden_all fuel env rs)"

text \<open>The first workload that is not ready in time ends the loop.\<close>

fun all_running :: "nat \<Rightarrow> env \<Rightarrow> int \<Rightarrow> Resource list \<Rightarrow> bool outcome prog" where
  "all_running fuel env startTime [] = ret (Ret True)"
| "all_running fuel env startTime (r # rs) =
     (if \<not> IsSupportedUnstructured r then all_running fuel env startTime rs
      else attempt (nhc_GetWorkloadUnderTest env r) (\<lambda>g. case g of
          Inl e \<Rightarrow> all_running fuel env startTime rs
        | Inr wl \<Rightarrow> attempt (wait_ready fuel env wl startTime) (\<lambda>ready.
            if ready then all_running fuel env startTime rs
            else do {
              record_event ''Warning'' ''WorkloadNotRunning''
                (''Workload '' @ resource_id r @ '' did not become running in time after security context update'');
              ret (Ret False) })))"

definition final_namespace :: "NamespaceHardeningCheck \<Rightarrow> string" where
  "final_namespace x =
     (let name = target_of x @ ''-'' @ suffix_of x @ ''-final''
      in if length name > 63 then take 63 name else name)"

definition check_clone :: "nat \<Rightarrow> env \<Rightarrow> string \<Rightarrow> Resource list \<Rightarrow> (bool \<times> error option) outcome prog" where
  "check_clone fuel env ns resources = attempt (harden_all fuel env resources) (\<lambda>_. do {
     startTime \<leftarrow> ask EvNow (e_now env);
     attempt (all_running fuel env startTime resources) (\<lambda>success. do {
       e \<leftarrow> Delete env ns;
       case e of
         Some err \<Rightarrow> ret (Ret (success, Some (Wrapf (''failed to delete cloned namespace '' @ ns @ '' after final check'') err)))
       | None \<Rightarrow> ret (Ret (success, None)) }) })"

text \<open>The owner is set on the fetched object only, which is not written back.\<close>

definition createFinalCheckRun :: "nat \<Rightarrow> env \<Rightarrow> (bool \<times> error option) outcome prog" where
  "createFinalCheckRun fuel env = do {
     x \<leftarrow> gets w_nhc;
     let ns = final_namespace x;
     attempt (Clone env (target_of x) ns (suffix_of x)) (\<lambda>e.
       if (case e of None \<Rightarrow> False | Some err \<Rightarrow> \<not> IsAlreadyExists err) then ret (Ret (False, e))
       else do {
         ask (EvGetNamespace ns) (\<lambda>tr. e_GetNamespace env tr ns);
         topLevelResources \<leftarrow> GetTopLevelResources env ns;
         if topLevelResources = [] then ret (Ret (True, None))
         else check_clone fuel env ns topLevelResources }) }"

section \<open>Jobs\<close>

text \<open>What the submitted functions do; each works on the object as it was when it was submitted.\<close>

definition record_all_job :: "nat \<Rightarrow> env \<Rightarrow> NamespaceHardeningCheck \<Rightarrow> string \<Rightarrow> bool \<Rightarrow> unit outcome prog" where
  "record_all_job fuel env x recordingName delayed = do {
     go \<leftarrow> (if delayed then baseline_delay env else ret True);
     if \<not> go then ret (Ret ())
     else attempt (recordAllWorkloads fuel env x recordingName) (\<lambda>_. ret (Ret ())) }"

definition final_check_job :: "nat \<Rightarrow> env \<Rightarrow> NamespaceHardeningCheck \<Rightarrow> unit outcome prog" where
  "final_check_job fuel env x = do {
     modify (\<lambda>w. w\<lparr>w_nhc := x\<rparr>);
     attempt (createFinalCheckRun fuel env) (\<lambda>(success, e). do {
       (case e of
          Some err \<Rightarrow> nhc_set env ConditionTypeFinished ConditionTrue ConditionTypeFinished
            (''Failed to create final check run for namespace hardening: '' @ error_text err)
        | None \<Rightarrow>
            (if success then nhc_set env ConditionTypeFinished ConditionTrue ReasonSuccess
               ''Namespace hardening checks completed successfully''
             else nhc_set env ConditionTypeFinished ConditionTrue ReasonFailed
               ''Final check run failed, not all workloads are running successfully''));
       ret (Ret ()) }) }"

section \<open>Reconcile\<close>

definition nhc_id :: "NamespaceHardeningCheck \<Rightarrow> string \<Rightarrow> string" where
  "nhc_id x purpose = NewCheckRunID (target_of x) (nhc_Name x) purpose"

definition nhc_start_baseline :: "env \<Rightarrow> reply option outcome prog" where
  "nhc_start_baseline env = do {
     x \<leftarrow> gets w_nhc;
     if m_Find (e_meta env) (nhc_Conditions x) ConditionTypeBaseline \<noteq> None then go_on
     else do {
       nhc_set env ConditionTypeBaseline ConditionFalse ReasonBaselineRecording
         ''No baseline recordings yet, creating new ones.'';
       y \<leftarrow> gets w_nhc;
       attempt (submit env (nhc_id y ''ns-baseline'') (RecordAllJob y ''baseline'' False)) (\<lambda>_.
       attempt (submit env (nhc_id y ''ns-baseline-2'') (RecordAllJob y ''baseline-2'' True)) (\<lambda>_.
         reply_with (requeue_after (nhc_CheckDuration env y + dur Minute)))) } }"

definition baselines_done :: "env \<Rightarrow> NamespaceHardeningCheck \<Rightarrow> bool prog" where
  "baselines_done env x = do {
     first \<leftarrow> is_running env (nhc_id x ''ns-baseline'');
     if first then ret False
     else do {
       second \<leftarrow> is_running env (nhc_id x ''ns-baseline-2'');
       ret (\<not> second) } }"

definition nhc_await_baseline :: "env \<Rightarrow> reply option outcome prog" where
  "nhc_await_baseline env = do {
     x \<leftarrow> gets w_nhc;
     case m_Find (e_meta env) (nhc_Conditions x) ConditionTypeBaseline of
       None \<Rightarrow> go_on
     | Some c \<Rightarrow>
         (if c_Status c = ConditionTrue then go_on
          else do {
            over \<leftarrow> baselines_done env x;
            if over then do {
              nhc_set env ConditionTypeBaseline ConditionTrue ReasonBaselineRecordingFinished
                ''Baseline recordings completed for all workloads.'';
              go_on }
            else do {
              now \<leftarrow> ask EvNow (e_now env);
              if c_LastTransitionTime c + sint (nhc_CheckDuration env x + dur (5 * Minute)) < now then do {
                nhc_set env ConditionTypeFinished ConditionTrue ReasonFailed
                  ''Baseline recordings took too long, marking NamespaceHardeningCheck as failed'';
                reply_with finished_reply }
              else reply_with (requeue_after (dur Minute)) } }) }"

definition announce_checks :: "env \<Rightarrow> WorkloadHardeningCheck list \<Rightarrow> unit prog" where
  "announce_checks env checks =
     (if checks = [] then ret ()
      else do {
        x \<leftarrow> gets w_nhc;
        let message = ''Created '' @ show_nat (length checks) @
          '' WorkloadHardeningChecks for top-level resources in namespace '' @ target_of x;
        record_event ''Normal'' ''WorkloadChecksCreated'' message;
        nhc_set env ConditionTypeFinished ConditionFalse ReasonWorkloadChecksCreated message })"

definition check_finished :: "env \<Rightarrow> WorkloadHardeningCheck \<Rightarrow> bool" where
  "check_finished env c \<longleftrightarrow> m_IsTrue (e_meta env) (whc_Conditions c) ConditionTypeFinished"

definition recommendations_of :: "WorkloadHardeningCheck list \<Rightarrow> (string, Recommendation) gomap" where
  "recommendations_of checks = fold (\<lambda>c m. case whc_Recommendation c of
       None \<Rightarrow> m
     | Some r \<Rightarrow> AList.update (tr_Kind (spec_TargetRef (whc_Spec c)) @ ''/'' @ tr_Name (spec_TargetRef (whc_Spec c))) r m)
     checks []"

text \<open>The retried function of the finalisation fetches the object under the name of the request.\<close>

definition write_recommendations :: "env \<Rightarrow> string \<Rightarrow> WorkloadHardeningCheck list \<Rightarrow> unit prog" where
  "write_recommendations env name checks = do {
     RetryOnConflict env (nhc_status_attempt env name (\<lambda>now st.
       with_nhc_condition env (mk_condition ConditionTypeFinished ConditionFalse ConditionTypeFinalCheck
         ''Creating final check for namespace hardening'') now
         (st\<lparr>nst_Recommendations := recommendations_of checks\<rparr>)));
     ret () }"

definition submit_final_check :: "env \<Rightarrow> reply outcome prog" where
  "submit_final_check env = do {
     x \<leftarrow> gets w_nhc;
     running \<leftarrow> is_running env (nhc_id x ''ns-final-check'');
     attempt (if running then ret (Ret ()) else submit env (nhc_id x ''ns-final-check'') (FinalCheckJob x)) (\<lambda>_.
       ret (Ret (requeue_after (dur (2 * Minute))))) }"

definition finish_namespace :: "env \<Rightarrow> string \<Rightarrow> nat \<Rightarrow> WorkloadHardeningCheck list \<Rightarrow> reply outcome prog" where
  "finish_namespace env name workloads checks =
     (let finishedCount = length (filter (check_finished env) checks) in
      if finishedCount \<noteq> length checks then do {
        nhc_set env ConditionTypeFinished ConditionFalse ReasonNamespaceInProgress
          (''NamespaceHardeningCheck is in progress, '' @ show_nat finishedCount @ ''/'' @ show_nat workloads @ '' finished'');
        ret (Ret (requeue_after (dur (30 * Second)))) }
      else do {
        write_recommendations env name checks;
        submit_final_check env })"

definition nhc_run_checks :: "env \<Rightarrow> string \<Rightarrow> Resource list \<Rightarrow> reply outcome prog" where
  "nhc_run_checks env name resources = attempt (create_checks env resources) (\<lambda>created. do {
     announce_checks env created;
     x \<leftarrow> gets w_nhc;
     l \<leftarrow> ask (EvListWHCs (target_of x)) (\<lambda>tr. e_ListWHCs env tr (target_of x));
     case l of
       Inl err \<Rightarrow> ret (Ret (\<lparr>rr_Requeue = False, rr_RequeueAfter = dur Minute\<rparr>, Some err))
     | Inr checks \<Rightarrow> finish_namespace env name (length resources) checks })"

definition nhc_prepare :: "env \<Rightarrow> unit prog" where
  "nhc_prepare env = do {
     x \<leftarrow> gets w_nhc;
     if m_Find (e_meta env) (nhc_Conditions x) ConditionTypeFinished = None then
       nhc_set env ConditionTypeFinished ConditionFalse ConditionTypePreparation
         ''Starting NamespaceHardeningCheck reconciliation, preparing to create WorkloadHardeningChecks''
     else ret () }"

definition nhc_reconcile_target :: "env \<Rightarrow> string \<Rightarrow> reply outcome prog" where
  "nhc_reconcile_target env name = do {
     nhc_prepare env;
     x \<leftarrow> gets w_nhc;
     supportedWorkloadResources \<leftarrow> GetSupportedWorkloadResources env (target_of x);
     if supportedWorkloadResources = [] then do {
       nhc_set env ConditionTypeFinished ConditionTrue ReasonAnalysisFinished
         ''No top-level resources found in target namespace, skipping WorkloadHardeningCheck creation'';
       ret (Ret finished_reply) }
     else or_else (nhc_start_baseline env)
       (or_else (nhc_await_baseline env)
         (nhc_run_checks env name supportedWorkloadResources)) }"

definition nhc_reconcile_fetched :: "env \<Rightarrow> string \<Rightarrow> NamespaceHardeningCheck \<Rightarrow> reply outcome prog" where
  "nhc_reconcile_fetched env name x =
     (if m_IsTrue (e_meta env) (nhc_Conditions x) ConditionTypeFinished then ret (Ret finished_reply)
      else if target_of x = [] then ret (Ret finished_reply)
      else do {
        g \<leftarrow> ask (EvGetNamespace (target_of x)) (\<lambda>tr. e_GetNamespace env tr (target_of x));
        case g of
          Inl err \<Rightarrow>
            (if IsNotFound err then do {
               nhc_set env ConditionTypeFinished ConditionFalse ReasonTargetNamespaceNotFound
                 ''The target namespace for the NamespaceHardeningCheck does not exist'';
               ret (Ret finished_reply) }
             else ret (Ret (requeue_after (dur Minute))))
        | Inr ns \<Rightarrow> nhc_reconcile_target env name })"

definition nhc_Reconcile :: "env \<Rightarrow> string \<Rightarrow> reply outcome prog" where
  "nhc_Reconcile env name = do {
     r \<leftarrow> ask (EvGetNHC name) (\<lambda>tr. e_GetNHC env tr name);
     case r of
       Inl err \<Rightarrow>
         (if IsNotFound err then ret (Ret finished_reply)
          else ret (Ret (\<lparr>rr_Requeue = False, rr_RequeueAfter = dur Minute\<rparr>, Some err)))
     | Inr x \<Rightarrow> do {
         modify (\<lambda>w. w\<lparr>w_nhc := x\<rparr>);
         nhc_reconcile_fetched env name x } }"

section \<open>What a reconciliation touches\<close>

text \<open>The client reads the object of the requested name, and writing an object keeps its name.\<close>

definition nhc_laws :: "env \<Rightarrow> bool" where
  "nhc_laws env \<longleftrightarrow> (\<forall>tr n x. e_GetNHC env tr n = Inr x \<longrightarrow> nhc_Name x = n)
     \<and> (\<forall>tr x. nhc_Name (snd (e_StatusUpdateNHC env tr x)) = nhc_Name x)"

text \<open>
  The calls of a reconciliation of the namespace check \<open>n\<close>: it reads, it updates the status of \<open>n\<close>, creates
  workload checks from the template and owned by an object of that name, and submits its three jobs.
\<close>

fun nhc_controls :: "env \<Rightarrow> string \<Rightarrow> event \<Rightarrow> bool" where
  "nhc_controls env n (EvStatusUpdateNHC x) \<longleftrightarrow> nhc_Name x = n"
| "nhc_controls env n (EvCreateWHC y) \<longleftrightarrow> (\<exists>x r s. nhc_Name x = n \<and> y = e_OwnWHC env x (new_workload_check x r s))"
| "nhc_controls env n (EvSubmit i (RecordAllJob x name d) b) \<longleftrightarrow> nhc_Name x = n
     \<and> (i = nhc_id x ''ns-baseline'' \<and> name = ''baseline'' \<and> \<not> d \<or> i = nhc_id x ''ns-baseline-2'' \<and> name = ''baseline-2'' \<and> d)"
| "nhc_controls env n (EvSubmit i (FinalCheckJob x) b) \<longleftrightarrow> nhc_Name x = n \<and> i = nhc_id x ''ns-final-check''"
| "nhc_controls env n (EvStatusUpdateWHC x) \<longleftrightarrow> False"
| "nhc_controls env n (EvSet k v) \<longleftrightarrow> False"
| "nhc_controls env n ev \<longleftrightarrow> footprint None [] [] ev"

definition named :: "string \<Rightarrow> world \<Rightarrow> bool" where
  "named n w \<longleftrightarrow> nhc_Name (w_nhc w) = n"

lemma named_simps [simp]:
  "named n (w\<lparr>w_trace := tr\<rparr>) = named n w" "named n (w\<lparr>w_exec := e\<rparr>) = named n w"
  "named n (w\<lparr>w_nhc := x\<rparr>) \<longleftrightarrow> nhc_Name x = n" "named n (set_nhc_status f w) = named n w"
  "w_trace (set_nhc_status f w) = w_trace w"
  by (simp_all add: named_def set_nhc_status_def)

lemma steps_gets_fact:
  assumes "\<And>x. (\<And>w. I w \<Longrightarrow> True) \<Longrightarrow> R x \<Longrightarrow> steps I P (f x) Q" "\<And>w. I w \<Longrightarrow> R (g w)"
  shows "steps I P (State_Monad.bind (gets g) f) Q"
  by (rule steps_bind_fact [where R = R]) (auto intro: steps_gets assms)

lemma keeps_nhc_attempt:
  assumes "nhc_laws env"
  shows "keeps (named n) (nhc_controls env n) (nhc_status_attempt env n f)"
proof -
  have named: "nhc_Name x = n" if "e_GetNHC env tr n = Inr x" for tr x
    using assms that by (simp add: nhc_laws_def)
  have kept: "nhc_Name (snd (e_StatusUpdateNHC env tr x)) = nhc_Name x" for tr x
    using assms by (simp add: nhc_laws_def)
  let ?P = "nhc_controls env n"
  have fetch: "steps (named n) ?P (ask (EvGetNHC n) (\<lambda>tr. e_GetNHC env tr n))
      (\<lambda>r w. named n w \<and> (\<forall>x. r = Inr x \<longrightarrow> nhc_Name x = n))"
    by (rule steps_ask) (auto dest: named)
  have send: "steps (named n) ?P (ask (EvStatusUpdateNHC y) (\<lambda>tr. e_StatusUpdateNHC env tr y))
      (\<lambda>u w. named n w \<and> nhc_Name (snd u) = n)" if "nhc_Name y = n" for y
    by (rule steps_ask) (simp_all add: that kept)
  have answer: "keeps (named n) ?P (do {
         y \<leftarrow> gets w_nhc;
         u \<leftarrow> ask (EvStatusUpdateNHC y) (\<lambda>tr. e_StatusUpdateNHC env tr y);
         (case u of
           (None, z) \<Rightarrow> do { modify (\<lambda>w. w\<lparr>w_nhc := z\<rparr>); ret None }
         | (Some err, z) \<Rightarrow> ret (Some err)) })"
  proof (rule steps_gets_fact [where R = "\<lambda>y. nhc_Name y = n"])
    show "keeps (named n) ?P (do {
         u \<leftarrow> ask (EvStatusUpdateNHC y) (\<lambda>tr. e_StatusUpdateNHC env tr y);
         (case u of
           (None, z) \<Rightarrow> do { modify (\<lambda>w. w\<lparr>w_nhc := z\<rparr>); ret None }
         | (Some err, z) \<Rightarrow> ret (Some err)) })" if "nhc_Name y = n" for y
      by (rule steps_bind_fact [OF send [OF that]]) (auto intro!: emits_intros split: option.splits)
  qed (simp add: named_def)
  have writes: "keeps (named n) ?P (do {
         modify (\<lambda>w. w\<lparr>w_nhc := x\<rparr>);
         now \<leftarrow> ask EvNow (e_now env);
         modify (set_nhc_status (f now));
         y \<leftarrow> gets w_nhc;
         u \<leftarrow> ask (EvStatusUpdateNHC y) (\<lambda>tr. e_StatusUpdateNHC env tr y);
         (case u of
           (None, z) \<Rightarrow> do { modify (\<lambda>w. w\<lparr>w_nhc := z\<rparr>); ret None }
         | (Some err, z) \<Rightarrow> ret (Some err)) })" if "nhc_Name x = n" for x
    by (intro keeps_bind [OF keeps_modify] keeps_bind [OF keeps_ask] answer) (simp_all add: that)
  show ?thesis unfolding nhc_status_attempt_def
    by (rule steps_bind_fact [OF fetch], rule keeps_case_sum)
      (intro keeps_if keeps_ret writes; simp)+
qed

lemma keeps_nhc_set [emits_intros]:
  assumes "lawful env" "nhc_laws env"
  shows "keeps (named n) (nhc_controls env n) (nhc_set env t s r m)"
proof -
  have "keeps (named n) (nhc_controls env n) (nhc_condition_attempt env c)" for c
    unfolding nhc_condition_attempt_def
    by (rule steps_gets_fact [where R = "\<lambda>x. nhc_Name x = n"])
      (auto simp: named_def intro: keeps_nhc_attempt [OF assms(2)])
  then show ?thesis unfolding nhc_set_def nhc_SetCondition_def
    by (intro emits_intros lawful_laws(2) [OF assms(1)])
qed

lemma keeps_named_exec [emits_intros]:
  "keeps (named n) P (completions env)"
  "P (EvIsRunning i) \<Longrightarrow> keeps (named n) P (is_running env i)"
  "(\<And>b. P (EvSubmit i job b)) \<Longrightarrow> keeps (named n) P (submit env i job)"
proof -
  show c: "keeps (named n) P (completions env)" for P
    unfolding completions_def by (intro emits_intros) simp_all
  show "P (EvIsRunning i) \<Longrightarrow> keeps (named n) P (is_running env i)"
    unfolding is_running_def by (intro emits_intros c) simp_all
  show "(\<And>b. P (EvSubmit i job b)) \<Longrightarrow> keeps (named n) P (submit env i job)"
    unfolding submit_def by (intro emits_intros c) simp_all
qed

text \<open>The object a stage reads has the name.\<close>

lemma keeps_with_nhc:
  assumes "\<And>x. nhc_Name x = n \<Longrightarrow> steps (named n) P (f x) Q"
  shows "steps (named n) P (State_Monad.bind (gets w_nhc) f) Q"
  by (rule steps_gets_fact [where R = "\<lambda>x. nhc_Name x = n"]) (auto simp: named_def assms)

lemma keeps_create_check:
  "keeps (named n) (nhc_controls env n) (createWorkloadHardeningCheck env r)"
  unfolding createWorkloadHardeningCheck_def rand_string_def Let_def
  by (rule keeps_with_nhc) (intro emits_intros; auto)

lemma keeps_create_checks:
  "keeps (named n) (nhc_controls env n) (create_checks env rs)"
  by (induction rs) (auto simp: record_event_def intro!: emits_intros keeps_create_check)

lemma keeps_listing:
  "keeps (named n) (nhc_controls env n) (GetSupportedWorkloadResources env ns)"
  unfolding GetSupportedWorkloadResources_def Let_def by (intro emits_intros keeps_GetTopLevelResources) simp_all

lemma keeps_nhc_stages:
  assumes "lawful env" "nhc_laws env"
  shows "keeps (named n) (nhc_controls env n) (nhc_start_baseline env)"
    "keeps (named n) (nhc_controls env n) (nhc_await_baseline env)"
    "keeps (named n) (nhc_controls env n) (announce_checks env checks)"
    "keeps (named n) (nhc_controls env n) (submit_final_check env)"
    "keeps (named n) (nhc_controls env n) (nhc_prepare env)"
proof -
  note calls = emits_intros keeps_nhc_set assms
  show "keeps (named n) (nhc_controls env n) (nhc_start_baseline env)"
    unfolding nhc_start_baseline_def
    by (rule keeps_with_nhc, rule keeps_if, intro calls, rule keeps_bind, intro calls, rule keeps_with_nhc)
      (intro calls; simp)
  show "keeps (named n) (nhc_controls env n) (nhc_await_baseline env)"
    unfolding nhc_await_baseline_def baselines_done_def by (intro calls; simp)
  show "keeps (named n) (nhc_controls env n) (announce_checks env checks)"
    unfolding announce_checks_def record_event_def Let_def by (intro calls; simp)
  show "keeps (named n) (nhc_controls env n) (submit_final_check env)"
    unfolding submit_final_check_def by (rule keeps_with_nhc) (intro calls; simp)
  show "keeps (named n) (nhc_controls env n) (nhc_prepare env)"
    unfolding nhc_prepare_def by (intro calls; simp)
qed

lemma keeps_nhc_run_checks:
  assumes "lawful env" "nhc_laws env"
  shows "keeps (named n) (nhc_controls env n) (nhc_run_checks env n rs)"
  unfolding nhc_run_checks_def finish_namespace_def write_recommendations_def Let_def
  by (intro emits_intros keeps_create_checks keeps_nhc_stages keeps_nhc_set keeps_nhc_attempt
      lawful_laws(2) assms; simp)

lemma keeps_nhc_fetched:
  assumes "lawful env" "nhc_laws env"
  shows "keeps (named n) (nhc_controls env n) (nhc_reconcile_fetched env n x)"
  unfolding nhc_reconcile_fetched_def nhc_reconcile_target_def
  by (intro emits_intros keeps_listing keeps_nhc_stages keeps_nhc_set keeps_nhc_run_checks assms; simp)

text \<open>
  C15. The reconciliation of a namespace check changes the status of that check only. It never touches a
  workload, a namespace or the status of a workload check: the one kind of object it creates are workload checks
  made from its template and owned by it, and it submits only its own three jobs, under its own identifiers.
\<close>

theorem namespace_reconcile_confined:
  assumes "lawful env" and "nhc_laws env"
  shows "\<exists>evs. w_trace (snd (run_state (nhc_Reconcile env n) w)) = w_trace w @ EvGetNHC n # evs
    \<and> (\<forall>ev \<in> set evs. nhc_controls env n ev)"
proof (cases "e_GetNHC env (w_trace w) n")
  case (Inl err)
  then show ?thesis by (simp add: nhc_Reconcile_def run_simps)
next
  case (Inr x)
  then have "nhc_Name x = n" using assms(2) by (simp add: nhc_laws_def)
  then show ?thesis
    using stepsD_trace [OF keeps_nhc_fetched [OF assms, of n x], of "w\<lparr>w_trace := w_trace w @ [EvGetNHC n], w_nhc := x\<rparr>"]
    by (auto simp: nhc_Reconcile_def run_simps Inr)
qed

text \<open>A reference cluster with a namespace check of every name, in a namespace with one deployment.\<close>

definition web_resource :: Resource where
  "web_resource = \<lparr>u_Kind = ''Deployment'', u_APIVersion = ''apps/v1'', u_Name = ''web'', u_Namespace = ''apps'',
     u_ResourceVersion = ''1'', u_SelfLink = [], u_UID = ''u'', u_Generation = 1, u_OwnerReferences = [],
     u_Annotations = [], u_Spec = None, u_Subjects = None, u_other = []\<rparr>"

definition nhc_env :: env where
  "nhc_env = (ref_env empty_whc [clone_namespace [] ''apps'' []] [])\<lparr>
     e_GetNHC := \<lambda>tr n. Inr (ref_nhc\<lparr>nhc_Name := n\<rparr>),
     e_namespacedResources := [\<lparr>arl_GroupVersion = ''apps/v1'', arl_APIResources =
       [\<lparr>ar_Name = ''deployments'', ar_Kind = ''Deployment'', ar_Group = ''apps'', ar_Namespaced = True\<rparr>]\<rparr>],
     e_ListResources := \<lambda>tr g ns. Inr [web_resource\<lparr>u_Namespace := ns\<rparr>]\<rparr>"

lemma nhc_env_laws: "lawful nhc_env" "nhc_laws nhc_env"
proof -
  have "api_laws nhc_env = api_laws (ref_env empty_whc [clone_namespace [] ''apps'' []] [])"
    by (simp add: api_laws_def nhc_env_def)
  then show "lawful nhc_env"
    using ref_env_lawful [of empty_whc "[clone_namespace [] ''apps'' []]" "[]"] by (simp add: lawful_def nhc_env_def)
  show "nhc_laws nhc_env" by (simp add: nhc_laws_def nhc_env_def ref_env_def)
qed

theorem namespace_reconcile_confined_witness:
  "\<exists>evs. w_trace (snd (run_state (nhc_Reconcile nhc_env ''nhc'') (start_world empty_whc))) = EvGetNHC ''nhc'' # evs
    \<and> (\<forall>ev \<in> set evs. nhc_controls nhc_env ''nhc'' ev)"
  using namespace_reconcile_confined [OF nhc_env_laws, of "''nhc''" "start_world empty_whc"]
  by (simp add: start_world_def)

section \<open>The recordings are stored where the checks look for them\<close>

text \<open>
  \<open>reference_keys x r\<close>: the Valkey keys under which the manager looks up the baselines that a check created
  for \<open>r\<close> refers to.
\<close>

definition reference_keys :: "NamespaceHardeningCheck \<Rightarrow> Resource \<Rightarrow> string set" where
  "reference_keys x r = (\<lambda>ref. to_lower (''recording:'' @ ref)) `
     set (spec_BaselineRecordingReference (whc_Spec (new_workload_check x r [])))"

fun stores_references :: "NamespaceHardeningCheck \<Rightarrow> event \<Rightarrow> bool" where
  "stores_references x (EvSet k v) \<longleftrightarrow> (\<exists>r. k \<in> reference_keys x r)"
| "stores_references x ev \<longleftrightarrow> True"

text \<open>A recorder sends only recordings of its type.\<close>

fun sends_type :: "string \<Rightarrow> sent \<Rightarrow> bool" where
  "sends_type t (SentRecording rec) \<longleftrightarrow> wr_Type rec = t"
| "sends_type t _ \<longleftrightarrow> True"

lemma reading_stores: "reading ev \<Longrightarrow> stores_references x ev" "clones s t ev \<Longrightarrow> stores_references x ev"
  by (cases ev; simp add: clones_def)+

lemma anywhere_free [simp]: "metrics_free anywhere" "trace_free anywhere"
  by (simp_all add: metrics_free_def trace_free_def)

lemma steps_attempt_post:
  assumes "keeps anywhere P m" "\<And>x. steps anywhere P (f x) (\<lambda>r w. \<forall>v. r = Ret v \<longrightarrow> R v)"
  shows "steps anywhere P (attempt m f) (\<lambda>r w. \<forall>v. r = Ret v \<longrightarrow> R v)"
  unfolding attempt_def
  by (rule steps_bind [OF assms(1)], rule keeps_case_outcome) (auto intro!: steps_ret assms(2))

lemma steps_bind_post:
  assumes "keeps anywhere P m" "\<And>x. steps anywhere P (f x) Q"
  shows "steps anywhere P (State_Monad.bind m f) Q"
  by (rule steps_bind [OF assms])

lemma steps_Record:
  "steps anywhere reading (Record fuel env rec) (\<lambda>res w. \<forall>v. res = Ret v \<longrightarrow> sends_type (rec_checkType rec) (fst v))"
proof -
  have rets: "steps anywhere reading (ret (Ret (s, e))) (\<lambda>res w. \<forall>v. res = Ret v \<longrightarrow> sends_type (rec_checkType rec) (fst v))"
    if "sends_type (rec_checkType rec) s" for s and e :: "error + WorkloadRecording"
    by (rule steps_ret) (simp add: that)
  note reads = keeps_wait_pods [OF anywhere_free(2)] keeps_wait_elapsed [OF anywhere_free(1)]
    keeps_RecordLogs [OF anywhere_free(1)] keeps_read(1) [OF anywhere_free(1)]
  have "steps anywhere reading (record_workload fuel env rec selector)
      (\<lambda>res w. \<forall>v. res = Ret v \<longrightarrow> sends_type (rec_checkType rec) (fst v))" for selector
    unfolding record_workload_def Let_def
    by (intro steps_attempt_post steps_bind_post keeps_case_sum rets reads; simp)
  then show ?thesis
    unfolding Record_def Let_def get_workload_def
    by (intro keeps_if steps_bind_post keeps_case_sum rets reads; simp)
qed

lemma steps_run_records:
  assumes "\<forall>i \<in> set is. rec_checkType (recorders ! i) = t" "\<forall>s \<in> ran (map_of sents). sends_type t s"
  shows "steps anywhere reading (run_records fuel env recorders is sents)
     (\<lambda>res w. \<forall>m. res = Ret m \<longrightarrow> (\<forall>s \<in> ran (map_of m). sends_type t s))"
  using assms
proof (induction "is" arbitrary: sents)
  case Nil
  then show ?case by (simp add: steps_ret)
next
  case (Cons i "is")
  have "steps anywhere reading (run_records fuel env recorders is (AList.update i s sents))
      (\<lambda>res w. \<forall>m. res = Ret m \<longrightarrow> (\<forall>s \<in> ran (map_of m). sends_type t s))" if "sends_type t s" for s
    using that Cons.prems ran_update [of i s sents] by (intro Cons.IH) auto
  note rest = this
  have rec: "steps anywhere reading (Record fuel env (recorders ! i))
      (\<lambda>r w. anywhere w \<and> (\<forall>v. r = Ret v \<longrightarrow> sends_type t (fst v)))"
    by (rule steps_weaken [OF steps_Record]) (use Cons.prems(1) in auto)
  show ?case
    unfolding run_records.simps
    by (rule steps_attempt_fact [OF rec]) (simp_all add: case_prod_unfold rest del: anywhere)
qed

lemma stored_reference:
  assumes "t = ''baseline'' \<or> t = ''baseline-2''"
  shows "to_lower (recording_key (baseline_key x r) t) \<in> reference_keys x r"
  using assms by (auto simp: reference_keys_def new_workload_check_def recording_key_def)

lemma keeps_store_recordings:
  assumes "t = ''baseline'' \<or> t = ''baseline-2''"
  shows "(\<forall>s \<in> ran (map_of sents). sends_type t s) \<Longrightarrow>
    keeps anywhere (stores_references x) (store_recordings env x rs todo sents)"
proof (induction todo arbitrary: sents)
  case Nil
  then show ?case by (simp add: keeps_ret)
next
  case (Cons r todo)
  have silent: "\<forall>s \<in> ran (map_of (AList.update i SentNothing sents)). sends_type t s" for i
    using Cons.prems ran_update [of i SentNothing sents] by auto
  show ?case
  proof (cases "channel_of rs sents r")
    case None
    then show ?thesis by (simp add: keeps_ret)
  next
    case (Some c)
    obtain i s where c: "c = (i, s)" by force
    have "s \<in> ran (map_of sents)"
      using Some by (auto simp: c channel_of_def ran_def split: list.splits)
    then have s: "sends_type t s" using Cons.prems by blast
    have "keeps anywhere (stores_references x) (StoreRecording env (baseline_key x r) rec)" if "s = SentRecording rec" for rec
      unfolding StoreRecording_def storeEntry_def using s that stored_reference [OF assms, of x r]
      by (auto intro!: emits_intros)
    then show ?thesis using Cons.IH [OF silent]
      by (cases s) (simp_all add: Some c keeps_bind keeps_ret del: anywhere)
  qed
qed

text \<open>The order in which goroutines run, or a map is ranged over, is a permutation.\<close>

definition picks_permutations :: "env \<Rightarrow> bool" where
  "picks_permutations env \<longleftrightarrow> (\<forall>tr n. mset (e_permutation env tr n) = mset [0..<n])"

lemma picks_permutations_set: "picks_permutations env \<Longrightarrow> set (e_permutation env tr n) = {..<n}"
proof -
  assume "picks_permutations env"
  then have "mset (e_permutation env tr n) = mset [0..<n]" by (simp add: picks_permutations_def)
  then have "set_mset (mset (e_permutation env tr n)) = set_mset (mset [0..<n])" by (simp only:)
  then show ?thesis by (simp only: set_mset_mset set_upt atLeast0LessThan)
qed

lemma keeps_recordAll:
  assumes "t = ''baseline'' \<or> t = ''baseline-2''" "service_conversion env" "target_of x \<noteq> baseline_namespace x t"
    "picks_permutations env"
  shows "keeps anywhere (stores_references x) (recordAllWorkloads fuel env x t)"
proof -
  let ?ns = "baseline_namespace x t"
  have lift: "keeps anywhere reading m \<Longrightarrow> keeps anywhere (stores_references x) m" for m :: "'b prog"
    by (erule steps_weaken) (auto dest: reading_stores)
  have clone: "keeps anywhere (stores_references x) (Clone env (target_of x) ?ns (suffix_of x))"
    by (rule steps_weaken [OF keeps_Clone [OF assms(2,3), of anywhere]]) (auto dest: reading_stores)
  have del: "keeps anywhere (stores_references x) (Delete env ?ns)"
    unfolding Delete_def delete_binding_def by (intro emits_intros) simp_all
  have rest: "keeps anywhere (stores_references x) (record_clone fuel env x t ?ns rs)" for rs
  proof -
    let ?recs = "map (new_recorder env x t ?ns) rs"
    let ?Q = "\<lambda>res w. anywhere w \<and> (\<forall>m. res = Ret m \<longrightarrow> (\<forall>s \<in> ran (map_of m). sends_type t s))"
    have records: "steps anywhere (stores_references x) (run_records fuel env ?recs is []) ?Q"
      if "set is = {..<length rs}" for "is"
    proof (rule steps_weaken [OF steps_run_records [of "is" ?recs t "[]" fuel env]])
      show "\<forall>i \<in> set is. rec_checkType (?recs ! i) = t"
        using that by (simp add: new_recorder_def NewCheckRecorder_def)
    qed (auto dest: reading_stores)
    have "keeps anywhere (stores_references x) (attempt (run_records fuel env ?recs is []) (\<lambda>sents.
        attempt (store_recordings env x rs rs sents) (\<lambda>_. do { Delete env ?ns; ret (Ret None) })))"
      if "set is = {..<length rs}" for "is"
      by (rule steps_attempt_fact [OF records [OF that]])
        (simp_all add: keeps_attempt keeps_store_recordings [OF assms(1)] keeps_bind del keeps_ret del: anywhere)
    then show ?thesis unfolding record_clone_def
      by (intro keeps_bind [OF keeps_emit] steps_gets_fact [where R = "\<lambda>is. set is = {..<length rs}"])
        (simp_all add: picks_permutations_set [OF assms(4)] del: anywhere, rule anywhere)
  qed
  show ?thesis
    unfolding recordAllWorkloads_def own_clone_def Let_def GetSupportedWorkloadResources_def
    by (intro emits_intros clone rest keeps_GetTopLevelResources; simp)
qed

lemma baseline_namespace_longer: "target_of x \<noteq> baseline_namespace x t"
  by (simp add: baseline_namespace_def)

text \<open>The keys a run writes to Valkey.\<close>

definition stored_keys :: "trace \<Rightarrow> string list" where
  "stored_keys tr = concat (map (\<lambda>ev. case ev of EvSet k v \<Rightarrow> [k] | _ \<Rightarrow> []) tr)"

lemma stored_keys_iff: "k \<in> set (stored_keys tr) \<longleftrightarrow> (\<exists>v. EvSet k v \<in> set tr)"
  by (induction tr) (auto simp: stored_keys_def split: event.splits)



section \<open>The two waiting loops of the final check\<close>

text \<open>A clock that advances at least by what is slept.\<close>

definition clock_runs :: "env \<Rightarrow> bool" where
  "clock_runs env \<longleftrightarrow> (\<forall>tr evs. e_now env tr \<le> e_now env (tr @ evs))
     \<and> (\<forall>tr d evs. e_now env tr + d \<le> e_now env (tr @ EvSleep d # evs))"

text \<open>A workload whose rollout never completes, however often it is fetched.\<close>

definition never_rolls_out :: "env \<Rightarrow> Workload \<Rightarrow> bool" where
  "never_rolls_out env wl \<longleftrightarrow> (\<forall>tr. \<exists>wl'. e_GetWorkload env tr (wl_Kind wl) (wl_Namespace wl) (wl_Name wl) = Inr wl'
     \<and> VerifyUpdated wl' = Ret (Inr False))"

lemma attempt_stuck: "fst (run_state m w) = NoReturn \<Longrightarrow> fst (run_state (attempt m f) w) = NoReturn"
  by (cases "run_state m w") (simp add: run_attempt)

lemma refetched:
  "run_state (refetch_workload env wl) w =
    (case e_GetWorkload env (w_trace w) (wl_Kind wl) (wl_Namespace wl) (wl_Name wl) of Inl e \<Rightarrow> wl | Inr wl' \<Rightarrow> wl',
     w\<lparr>w_trace := w_trace w @ [EvGetWorkload (wl_Kind wl) (wl_Namespace wl) (wl_Name wl)]\<rparr>)"
  by (simp add: refetch_workload_def get_workload_def run_simps)

lemma wait_rolled_out_stuck:
  assumes "lawful env" "never_rolls_out env wl"
  shows "wl_Kind u = wl_Kind wl \<Longrightarrow> wl_Namespace u = wl_Namespace wl \<Longrightarrow> wl_Name u = wl_Name wl \<Longrightarrow>
    fst (run_state (wait_rolled_out fuel env u) w) = NoReturn"
proof (induction fuel arbitrary: u w)
  case 0
  then show ?case by (simp add: run_ret)
next
  case (Suc fuel)
  let ?tr = "w_trace w @ [EvSleep (int (5 * Second))]"
  obtain u' where u': "e_GetWorkload env ?tr (wl_Kind wl) (wl_Namespace wl) (wl_Name wl) = Inr u'"
      "VerifyUpdated u' = Ret (Inr False)"
    using assms(2) unfolding never_rolls_out_def by blast
  have "wl_Kind u' = wl_Kind wl" "wl_Namespace u' = wl_Namespace wl" "wl_Name u' = wl_Name wl"
    using GetWorkload_key [OF assms(1) u'(1)] by simp_all
  from Suc.IH [OF this] show ?case using Suc.prems u'
    by (simp add: run_bind run_emit refetched run_attempt run_ret)
qed

text \<open>A clock that shows exactly the time slept, for the witnesses.\<close>

definition slept :: "trace \<Rightarrow> int" where
  "slept tr = sum_list (map (\<lambda>ev. case ev of EvSleep d \<Rightarrow> max 0 d | _ \<Rightarrow> 0) tr)"

lemma slept_append [simp]: "slept (tr @ evs) = slept tr + slept evs"
  by (simp add: slept_def)

lemma slept_Nil [simp]: "slept [] = 0"
  by (simp add: slept_def)

lemma slept_nonneg [simp]: "0 \<le> slept tr"
  unfolding slept_def by (rule sum_list_nonneg) (auto split: event.splits)

lemma slept_sleep: "slept (EvSleep d # evs) = max 0 d + slept evs"
  by (simp add: slept_def)

lemma clock_runs_slept: "clock_runs (env\<lparr>e_now := slept\<rparr>)"
proof -
  have "d \<le> max 0 d + slept evs" for d evs using slept_nonneg [of evs] by linarith
  then show ?thesis by (simp add: clock_runs_def slept_sleep)
qed

text \<open>
  C19. The wait for a rollout has no limit: when the rollout of one workload of the clone never completes, the
  final check of the namespace never returns, whatever amount of fuel it is given, so that the outcome of the
  hardening is never published; here for the first resource of the clone, when it has a recommendation.
\<close>

theorem rollout_wait_unbounded:
  assumes "lawful env" and "never_rolls_out env wl"
    and "IsSupportedUnstructured r" and "exact_kind (u_Kind r) = Some (wl_Kind wl)"
    and "u_Namespace r = wl_Namespace wl" and "u_Name r = wl_Name wl"
    and "map_of (nst_Recommendations (nhc_Status (w_nhc w))) (resource_id r) = Some rec"
  shows "fst (run_state (check_clone fuel env ns (r # rs)) w) = NoReturn"
proof -
  let ?ask = "e_GetWorkload env (w_trace w) (wl_Kind wl) (wl_Namespace wl) (wl_Name wl)"
  obtain wl0 where wl0: "?ask = Inr wl0" using assms(2) unfolding never_rolls_out_def by blast
  note key0 = GetWorkload_key [OF assms(1) wl0]
  let ?w1 = "w\<lparr>w_trace := w_trace w @ [EvGetWorkload (wl_Kind wl) (wl_Namespace wl) (wl_Name wl)]\<rparr>"
  have stuck: "fst (run_state (wait_rolled_out fuel env u) v) = NoReturn"
    if "wl_Kind u = wl_Kind wl0" "wl_Namespace u = wl_Namespace wl0" "wl_Name u = wl_Name wl0" for u v
    using wait_rolled_out_stuck [OF assms(1,2)] that key0 by simp
  have apply_key: "wl_Kind wl1 = wl_Kind wl0 \<and> wl_Namespace wl1 = wl_Namespace wl0 \<and> wl_Name wl1 = wl_Name wl0"
    if "ApplySecurityContext ko wl0 c p = Inr wl1" for ko c p wl1
    using that by (auto simp: ApplySecurityContext_def split: Kind.splits)
  have "fst (run_state (apply_recommendation fuel env wl0 rec) ?w1) = NoReturn"
  proof -
    let ?wl1 = "case ApplySecurityContext (e_order env (w_trace ?w1)) wl0 (rec_Container rec) (rec_Pod rec) of
      Inl e \<Rightarrow> wl0 | Inr wl' \<Rightarrow> wl'"
    have key1: "wl_Kind ?wl1 = wl_Kind wl0" "wl_Namespace ?wl1 = wl_Namespace wl0" "wl_Name ?wl1 = wl_Name wl0"
      by (auto split: sum.splits dest: apply_key)
    obtain e u where u: "e_UpdateWorkload env (w_trace ?w1) ?wl1 = (e, u)" by force
    have "wl_Kind u = wl_Kind wl0" "wl_Namespace u = wl_Namespace wl0" "wl_Name u = wl_Name wl0"
      using UpdateWorkload_key [OF assms(1), of "w_trace ?w1" ?wl1] by (simp_all only: u snd_conv key1)
    then show ?thesis using u key1 unfolding apply_recommendation_def update_workload_def
      by (cases e) (simp_all add: run_bind run_map_order run_ask Let_def stuck)
  qed
  then have "fst (run_state (harden_resource fuel env r) w) = NoReturn"
    by (simp add: harden_resource_def nhc_GetWorkloadUnderTest_def get_workload_def run_simps assms(3-) wl0)
  then show ?thesis
    unfolding check_clone_def harden_all.simps by (intro attempt_stuck)
qed

text \<open>The reference cluster with a deployment whose new pods never start.\<close>

definition broken_rollout :: Workload where
  "broken_rollout = (ref_workload Deployment ''apps'' ''web'')\<lparr>wl_Replicas := Some 2, wl_UpdatedReplicas := 1\<rparr>"

definition broken_env :: env where
  "broken_env = nhc_env\<lparr>e_GetWorkload := \<lambda>tr k ns n. Inr (broken_rollout\<lparr>wl_Kind := k, wl_Namespace := ns, wl_Name := n\<rparr>)\<rparr>"

lemma broken_env_lawful: "lawful broken_env"
proof -
  have "api_laws broken_env" using lawful_laws(3) [OF nhc_env_laws(1)]
    by (simp add: api_laws_def broken_env_def)
  then show ?thesis using nhc_env_laws(1) by (simp add: lawful_def broken_env_def)
qed

theorem rollout_wait_unbounded_witness:
  "fst (run_state (check_clone 7 broken_env ''apps-final'' [web_resource]) ((start_world empty_whc)\<lparr>w_nhc := ref_nhc\<lparr>nhc_Status :=
     (nhc_Status ref_nhc)\<lparr>nst_Recommendations := [(''Deployment/web'', \<lparr>rec_Container = None, rec_Pod = None\<rparr>)]\<rparr>\<rparr>\<rparr>)) = NoReturn"
proof (rule rollout_wait_unbounded [OF broken_env_lawful])
  show "never_rolls_out broken_env broken_rollout"
    by (simp add: never_rolls_out_def broken_env_def broken_rollout_def ref_workload_def VerifyUpdated_def)
  show "IsSupportedUnstructured web_resource" unfolding web_resource_def by code_simp
qed (simp_all add: web_resource_def broken_rollout_def ref_workload_def exact_kind_def resource_id_def)

text \<open>The other loop has one: after 25 rounds of five seconds the two minutes are over.\<close>

lemma sint_clamped: "- (2 ^ 63) \<le> k \<Longrightarrow> k < 2 ^ 63 \<Longrightarrow> sint (word_of_int k :: int64) = k"
  by (simp add: sint_sbintrunc' signed_take_bit_int_eq_self)

lemma two_minutes: "sint (dur (2 * Minute)) = 120000000000"
  by (simp add: dur_def Minute_def Second_def)

lemma since_longer: "longer (since now t) (dur (2 * Minute)) \<longleftrightarrow> 120000000000 < now - t"
proof -
  have "sint (since now t) = max (- (2 ^ 63)) (min (2 ^ 63 - 1) (now - t))"
    unfolding since_def by (rule sint_clamped) simp_all
  then show ?thesis by (simp add: longer_def two_minutes max_def min_def)
qed

lemma reading_VerifyReadiness: "keeps anywhere reading (VerifyReadiness env wl)"
  unfolding VerifyReadiness_def GetPodsForWorkload_def list_pods_def
  by (intro emits_intros; simp)

lemma wait_ready_rounds:
  assumes "clock_runs env"
  shows "120000000000 < e_now env (w_trace w) - startTime + int fuel * 5000000000 \<Longrightarrow> 0 < fuel \<Longrightarrow>
    \<exists>b. fst (run_state (wait_ready fuel env wl startTime) w) = Ret b"
proof (induction fuel arbitrary: wl w)
  case 0
  then show ?case by simp
next
  case (Suc fuel)
  let ?tr = "w_trace w @ [EvSleep 5000000000, EvGetWorkload (wl_Kind wl) (wl_Namespace wl) (wl_Name wl)]"
  have later: "e_now env (w_trace w) + 5000000000 \<le> e_now env (?tr @ evs)" for evs
  proof -
    have "e_now env (w_trace w) + 5000000000 \<le> e_now env (w_trace w @ EvSleep 5000000000 #
        (EvGetWorkload (wl_Kind wl) (wl_Namespace wl) (wl_Name wl) # evs))"
      using assms unfolding clock_runs_def by blast
    then show ?thesis by simp
  qed
  let ?wl = "case e_GetWorkload env (w_trace w @ [EvSleep 5000000000]) (wl_Kind wl) (wl_Namespace wl) (wl_Name wl) of
    Inl e \<Rightarrow> wl | Inr wl' \<Rightarrow> wl'"
  obtain v w' where v: "run_state (VerifyReadiness env ?wl) (w\<lparr>w_trace := ?tr @ [EvNow]\<rparr>) = (v, w')" by force
  obtain evs where evs: "w_trace w' = ?tr @ EvNow # evs"
    using stepsD_trace [OF reading_VerifyReadiness [of env ?wl] anywhere, of "w\<lparr>w_trace := ?tr @ [EvNow]\<rparr>"] v by auto
  have round: "run_state (wait_ready (Suc fuel) env wl startTime) w =
      (if 120000000000 < e_now env ?tr - startTime then (Ret False, w\<lparr>w_trace := ?tr @ [EvNow]\<rparr>)
       else if ok_value v then (Ret True, w') else run_state (wait_ready fuel env ?wl startTime) w')"
    using v by (simp add: run_bind run_emit refetched run_ask since_longer run_state_if run_ret Second_def)
  show ?case
  proof (cases "120000000000 < e_now env ?tr - startTime \<or> ok_value v")
    case True
    then show ?thesis unfolding round by auto
  next
    case False
    have "e_now env (w_trace w) + 5000000000 \<le> e_now env (w_trace w')"
      using later [of "EvNow # evs"] by (simp add: evs)
    then have "120000000000 < e_now env (w_trace w') - startTime + int fuel * 5000000000" "0 < fuel"
      using Suc.prems(1) later [of "[]"] False by (auto simp: algebra_simps intro: gr0I)
    from Suc.IH [OF this] False show ?thesis unfolding round by simp
  qed
qed

lemma reading_wait_ready: "keeps anywhere reading (wait_ready fuel env wl startTime)"
  by (induction fuel arbitrary: wl)
    (auto simp: refetch_workload_def get_workload_def intro!: emits_intros reading_VerifyReadiness)

text \<open>The instants from \<open>t\<close> on.\<close>

definition from_time :: "env \<Rightarrow> int \<Rightarrow> world \<Rightarrow> bool" where
  "from_time env t w \<longleftrightarrow> t \<le> e_now env (w_trace w)"

lemma steps_from_time:
  assumes "clock_runs env" "keeps anywhere P m" "\<And>w. from_time env t w \<Longrightarrow> R (fst (run_state m w))"
  shows "steps (from_time env t) P m (\<lambda>r w. from_time env t w \<and> R r)"
  unfolding steps_def
proof (intro allI impI)
  fix w :: world assume w: "from_time env t w"
  from stepsD_trace [OF assms(2) anywhere, of w] obtain evs where
    evs: "w_trace (snd (run_state m w)) = w_trace w @ evs" "\<forall>ev \<in> set evs. P ev" by blast
  have "from_time env t (snd (run_state m w))"
    using w assms(1) unfolding from_time_def evs(1) clock_runs_def by (meson order_trans)
  then show "(\<exists>evs. w_trace (snd (run_state m w)) = w_trace w @ evs \<and> (\<forall>ev \<in> set evs. P ev)) \<and>
      from_time env t (snd (run_state m w)) \<and> R (fst (run_state m w))"
    using evs assms(3) [OF w] by blast
qed

lemma steps_attempt_ends:
  assumes "steps I P m (\<lambda>r w. I w \<and> r \<noteq> NoReturn)" "\<And>x. steps I P (f x) (\<lambda>r w. r \<noteq> NoReturn)"
  shows "steps I P (attempt m f) (\<lambda>r w. r \<noteq> NoReturn)"
  unfolding attempt_def
  by (rule steps_bind_fact [where R = "\<lambda>r. r \<noteq> NoReturn", OF assms(1)], rule keeps_case_outcome)
    (auto intro: assms(2) steps_ret)

lemma all_running_ends:
  assumes "clock_runs env" "25 \<le> fuel"
  shows "steps (from_time env t) (\<lambda>_. True) (all_running fuel env t rs) (\<lambda>r w. r \<noteq> NoReturn)"
proof (induction rs)
  case Nil
  then show ?case by (simp add: steps_ret)
next
  case (Cons r rs)
  have wait: "steps (from_time env t) (\<lambda>_. True) (wait_ready fuel env wl t) (\<lambda>r w. from_time env t w \<and> r \<noteq> NoReturn)" for wl
  proof (rule steps_from_time [OF assms(1) steps_weaken [OF reading_wait_ready]])
    fix w :: world assume "from_time env t w"
    then obtain b where "fst (run_state (wait_ready fuel env wl t) w) = Ret b"
      using wait_ready_rounds [OF assms(1), of w t fuel wl] assms(2) by (auto simp: from_time_def)
    then show "fst (run_state (wait_ready fuel env wl t) w) \<noteq> NoReturn" by simp
  qed simp_all
  have get: "steps (from_time env t) (\<lambda>_. True) (nhc_GetWorkloadUnderTest env r)
      (\<lambda>x w. from_time env t w \<and> x \<noteq> NoReturn)"
    by (rule steps_from_time [OF assms(1)])
      (auto simp: nhc_GetWorkloadUnderTest_def get_workload_def run_simps split: option.splits intro!: emits_intros)
  have failed: "steps (from_time env t) (\<lambda>_. True) (do { record_event a b c; ret (Ret False) }) (\<lambda>r w. r \<noteq> NoReturn)" for a b c
    unfolding record_event_def by (rule steps_bind [where R = "\<lambda>_ w. True"], simp add: steps_def run_emit) (simp add: steps_ret)
  show ?case unfolding all_running.simps
    by (intro keeps_if Cons.IH steps_attempt_ends [OF get] keeps_case_sum steps_attempt_ends [OF wait] failed)
qed

text \<open>
  C20. Waiting for the workloads of the clone to become ready ends: with a clock that passes at least the time
  slept, 25 rounds of each workload's loop are enough for a result, whatever the cluster answers, so that the
  whole loop over the workloads returns or panics.
\<close>


theorem readiness_wait_returns:
  assumes "clock_runs env" and "startTime \<le> e_now env (w_trace w)" and "25 \<le> fuel"
  shows "fst (run_state (all_running fuel env startTime rs) w) \<noteq> NoReturn"
  using stepsD_post [OF all_running_ends [OF assms(1,3)], where w = w] assms(2) by (simp add: from_time_def)

theorem readiness_wait_returns_witness:
  "fst (run_state (all_running 25 (broken_env\<lparr>e_now := slept\<rparr>) 0 [web_resource, web_resource]) (start_world empty_whc)) \<noteq> NoReturn"
  by (rule readiness_wait_returns [OF clock_runs_slept]) (simp_all add: start_world_def)

section \<open>A recorder that sends nothing\<close>

text \<open>No pods can be listed, so that every recorder gives up before it sends anything.\<close>

definition pods_unlistable :: "env \<Rightarrow> bool" where
  "pods_unlistable env \<longleftrightarrow> (\<forall>tr ns sel. \<exists>e. e_ListPods env tr ns sel = Inl e)
     \<and> (\<forall>tr k ns n. k \<noteq> OtherObject \<longrightarrow> (\<exists>wl sel. e_GetWorkload env tr k ns n = Inr wl \<and> GetLabelSelectorForWorkload env wl = Inr sel))"

definition silent :: "(sent \<times> (error + WorkloadRecording)) outcome \<Rightarrow> bool" where
  "silent r \<longleftrightarrow> r = NoReturn \<or> (\<exists>e. r = Ret (SentNothing, e))"

lemma silent_record_workload:
  assumes "\<And>tr. \<exists>e. e_ListPods env tr (rec_targetNamespace rec) sel = Inl e"
  shows "silent (fst (run_state (record_workload fuel env rec sel) w))"
proof (cases fuel)
  case 0
  then show ?thesis by (simp add: record_workload_def run_attempt run_ret silent_def)
next
  case (Suc n)
  obtain e where "e_ListPods env (w_trace w) (rec_targetNamespace rec) sel = Inl e" using assms by blast
  then have "run_state (wait_pods fuel env (rec_targetNamespace rec) sel) w =
      (Ret (Inl e), w\<lparr>w_trace := w_trace w @ [EvListPods (rec_targetNamespace rec) sel]\<rparr>)"
    by (simp add: Suc list_pods_def run_bind run_ask run_ret)
  then show ?thesis by (simp add: record_workload_def run_attempt run_ret silent_def)
qed

lemma silent_Record:
  assumes "pods_unlistable env"
  shows "silent (fst (run_state (Record fuel env rec) w))"
proof (cases "to_lower (tr_Kind (rec_targetRef rec)) \<in> {''deployment'', ''statefulset'', ''daemonset''}")
  case False
  then show ?thesis by (simp add: Record_def Let_def run_ret silent_def)
next
  case True
  let ?k = "kind_of (to_lower (tr_Kind (rec_targetRef rec)))"
  obtain wl sel where wl: "e_GetWorkload env (w_trace w) ?k (rec_targetNamespace rec) (tr_Name (rec_targetRef rec)) = Inr wl"
      "GetLabelSelectorForWorkload env wl = Inr sel"
  proof -
    have "?k \<noteq> OtherObject" using True by (auto simp: kind_of_def)
    then show ?thesis using assms that unfolding pods_unlistable_def by blast
  qed
  have "\<exists>e. e_ListPods env tr (rec_targetNamespace rec) sel = Inl e" for tr
    using assms unfolding pods_unlistable_def by blast
  note silent_record_workload [OF this]
  then show ?thesis
    using True wl by (simp add: Record_def Let_def get_workload_def run_bind run_ask del: insert_iff)
qed

lemma silent_records:
  assumes "pods_unlistable env"
  shows "\<forall>s \<in> ran (map_of sents). s = SentNothing \<Longrightarrow>
    fst (run_state (run_records fuel env recorders is sents) w) = NoReturn
    \<or> (\<exists>m. fst (run_state (run_records fuel env recorders is sents) w) = Ret m \<and> (\<forall>s \<in> ran (map_of m). s = SentNothing))"
proof (induction "is" arbitrary: sents w)
  case Nil
  then show ?case by (simp add: run_ret)
next
  case (Cons i "is")
  obtain r w' where r: "run_state (Record fuel env (recorders ! i)) w = (r, w')" by force
  have "silent r" using silent_Record [OF assms, of fuel "recorders ! i" w] by (simp add: r)
  moreover have "\<forall>s \<in> ran (map_of (AList.update i SentNothing sents)). s = SentNothing"
    using Cons.prems ran_update [of i SentNothing sents] by auto
  ultimately show ?case using Cons.IH [of "AList.update i SentNothing sents" w']
    by (auto simp: run_attempt r silent_def)
qed

text \<open>
  C21. A recorder that gives up without sending anything blocks the recording of the whole namespace: when the
  pods of the clone cannot be listed, recording the baselines of one or more workloads never returns, so that
  the clone is not deleted and the job of the baseline stays registered for ever.
\<close>

theorem silent_recorder_blocks:
  assumes "pods_unlistable env" and "rs \<noteq> []"
  shows "fst (run_state (record_clone fuel env x recordingName ns rs) w) = NoReturn"
proof -
  let ?w1 = "w\<lparr>w_trace := w_trace w @ [EvSleep (int (5 * Second))]\<rparr>"
  let ?run = "run_records fuel env (map (new_recorder env x recordingName ns) rs) (e_permutation env (w_trace ?w1) (length rs)) []"
  have store: "fst (run_state (store_recordings env x rs rs m) v) = NoReturn" if "\<forall>s \<in> ran (map_of m). s = SentNothing" for m v
  proof (cases rs)
    case (Cons r rest)
    have "map_of m k = None \<or> map_of m k = Some SentNothing" for k
      using that by (cases "map_of m k") (auto simp: ran_def)
    then have "channel_of rs m r = None \<or> (\<exists>i. channel_of rs m r = Some (i, SentNothing))"
      by (auto simp: channel_of_def split: list.splits)
    then show ?thesis by (auto simp: Cons run_ret)
  qed (simp add: assms(2))
  have "fst (run_state (attempt ?run (\<lambda>sents. attempt (store_recordings env x rs rs sents)
      (\<lambda>_. do { Delete env ns; ret (Ret None) }))) ?w1) = NoReturn"
  proof -
    obtain r v where r: "run_state ?run ?w1 = (r, v)" by force
    then consider "r = NoReturn" | m where "r = Ret m" "\<forall>s \<in> ran (map_of m). s = SentNothing"
      using silent_records [OF assms(1), of "[]" fuel "map (new_recorder env x recordingName ns) rs"
        "e_permutation env (w_trace ?w1) (length rs)" ?w1] by auto
    then show ?thesis
    proof cases
      case 1
      then show ?thesis using r by (intro attempt_stuck) simp
    next
      case 2
      note attempt_stuck [OF store [OF 2(2)], of "\<lambda>_. do { Delete env ns; ret (Ret None) }" v]
      then show ?thesis unfolding run_attempt [of ?run] r using 2(1) by simp
    qed
  qed
  then show ?thesis by (simp add: record_clone_def run_bind run_emit run_gets)
qed

theorem silent_recorder_blocks_witness:
  "fst (run_state (record_clone 4 (nhc_env\<lparr>e_ListPods := \<lambda>tr ns sel. Inl (Errorf ''forbidden'')\<rparr>) ref_nhc ''baseline''
     ''apps-abc-baseline'' [web_resource]) (start_world empty_whc)) = NoReturn"
proof (rule silent_recorder_blocks)
  show "pods_unlistable (nhc_env\<lparr>e_ListPods := \<lambda>tr ns sel. Inl (Errorf ''forbidden'')\<rparr>)"
    by (simp add: pods_unlistable_def nhc_env_def ref_env_def ref_workload_def GetLabelSelectorForWorkload_def split: Kind.splits)
      (metis Kind.exhaust)
qed simp

end
