(* ===== verification/Resume.thy ===== *)
theory Resume
  imports WorkloadController NamespaceController
begin

text \<open>
  \<open>internal/executor/resume.go\<close> and \<open>SleepWithContext\<close> of \<open>pkg/util/wait\<close>: the scan for clones left behind by
  an earlier process. The scan starts goroutines; here it returns what they do, in the order they start.
\<close>

section \<open>Deleting a clone\<close>

definition deleteNamespace :: "env \<Rightarrow> string \<Rightarrow> unit prog" where
  "deleteNamespace env targetNamespace = do {
     r \<leftarrow> ask (EvGetNamespace targetNamespace) (\<lambda>tr. e_GetNamespace env tr targetNamespace);
     case r of
       Inl err \<Rightarrow> ret ()
     | Inr ns \<Rightarrow> do {
         e \<leftarrow> ask (EvDeleteNamespace ns) (\<lambda>tr. e_DeleteNamespace env tr ns);
         case e of
           Some err \<Rightarrow> ret ()
         | None \<Rightarrow> do {
             l \<leftarrow> ask (EvListCRBs (clone_selector targetNamespace)) (\<lambda>tr. e_ListCRBs env tr (clone_selector targetNamespace));
             case l of
               Inl err \<Rightarrow> ret ()
             | Inr crbs \<Rightarrow> for_each crbs (delete_binding env) } } }"

section \<open>What a resumed check does\<close>

text \<open>The error of the context when it ends before the time is over.\<close>

definition SleepWithContext :: "env \<Rightarrow> Duration \<Rightarrow> error option prog" where
  "SleepWithContext env d = do {
     emit (EvSleep (sint d));
     done \<leftarrow> gets (\<lambda>w. e_ctxDone env (w_trace w));
     ret (if done then Some (Errorf ''context canceled'') else None) }"

definition getWorkloadInNamespace :: "env \<Rightarrow> WorkloadHardeningCheck \<Rightarrow> string \<Rightarrow> (error + Workload) prog" where
  "getWorkloadInNamespace env x targetNamespace =
     (case exact_kind (tr_Kind (spec_TargetRef (whc_Spec x))) of
        None \<Rightarrow> ret (Inl (Errorf (''unsupported workload kind: '' @ tr_Kind (spec_TargetRef (whc_Spec x)))))
      | Some k \<Rightarrow> get_workload env k targetNamespace (tr_Name (spec_TargetRef (whc_Spec x))))"

text \<open>The zero time, which a recording has that was made without one: the start of the year 1.\<close>

definition zero_time :: int where
  "zero_time = - 62135596800 * 1000000000"

definition resumed_recording :: "string \<Rightarrow> (string, string list) gomap \<Rightarrow> WorkloadRecording" where
  "resumed_recording checkType logs = \<lparr>wr_Type = checkType, wr_PodStateRunning = True, wr_StartTime = zero_time,
     wr_EndTime = zero_time, wr_SecurityContextConfigurations = None, wr_RecordedMetrics = [], wr_Logs = logs\<rparr>"

definition collect_logs :: "nat \<Rightarrow> env \<Rightarrow> WorkloadHardeningCheck \<Rightarrow> string \<Rightarrow> string \<Rightarrow> unit outcome prog" where
  "collect_logs fuel env x targetNamespace checkType = do {
     g \<leftarrow> getWorkloadInNamespace env x targetNamespace;
     case g of
       Inl err \<Rightarrow> do { deleteNamespace env targetNamespace; ret (Ret ()) }
     | Inr wl \<Rightarrow> (case GetLabelSelectorForWorkload env wl of
         Inl err \<Rightarrow> do { deleteNamespace env targetNamespace; ret (Ret ()) }
       | Inr labelSelector \<Rightarrow>
           attempt (RecordLogs fuel env targetNamespace labelSelector False) (\<lambda>l. case l of
               Inl err \<Rightarrow> do { deleteNamespace env targetNamespace; ret (Ret ()) }
             | Inr logs \<Rightarrow> do {
                 StoreRecording env (recording_prefix x) (resumed_recording checkType logs);
                 deleteNamespace env targetNamespace;
                 ret (Ret ()) })) }"

definition resume_fn :: "nat \<Rightarrow> env \<Rightarrow> WorkloadHardeningCheck \<Rightarrow> string \<Rightarrow> string \<Rightarrow> Duration \<Rightarrow> Duration \<Rightarrow> unit outcome prog" where
  "resume_fn fuel env x targetNamespace checkType nsAge recordingDuration =
     (let remaining = recordingDuration - nsAge in
      if longer remaining 0 then do {
        e \<leftarrow> SleepWithContext env remaining;
        case e of
          Some err \<Rightarrow> ret (Ret ())
        | None \<Rightarrow> collect_logs fuel env x targetNamespace checkType }
      else collect_logs fuel env x targetNamespace checkType)"

section \<open>The scan\<close>

datatype ResumeTask =
    DeleteTask string
  | CollectTask WorkloadHardeningCheck string string Duration Duration

definition label_of :: "Namespace \<Rightarrow> string \<Rightarrow> string" where
  "label_of ns k = (case map_of (nsp_Labels ns) k of None \<Rightarrow> [] | Some v \<Rightarrow> v)"

definition evaluate_clone :: "env \<Rightarrow> Namespace \<Rightarrow> ResumeTask list prog" where
  "evaluate_clone env ns =
     (if label_of ns LabelCheckRunID = [] \<or> label_of ns LabelSourceNamespace = [] then ret []
      else (case ParseCheckRunID (label_of ns LabelCheckRunID) of
        Inl err \<Rightarrow> ret [DeleteTask (nsp_Name ns)]
      | Inr (whcNamespace, whcName, checkType) \<Rightarrow> do {
          g \<leftarrow> ask (EvGetWHC whcNamespace whcName) (\<lambda>tr. e_GetWHC env tr whcNamespace whcName);
          case g of
            Inl err \<Rightarrow>
              (if IsNotFound err then do { deleteNamespace env (nsp_Name ns); ret [] } else ret [])
          | Inr x \<Rightarrow> do {
              let recordingDuration = check_duration (e_parseFraction env) (spec_RecordingDuration (whc_Spec x));
              now \<leftarrow> ask EvNow (e_now env);
              ret [CollectTask x (nsp_Name ns) checkType (since now (nsp_CreationTimestamp ns)) recordingDuration] } }))"

fun scan_clones :: "env \<Rightarrow> Namespace list \<Rightarrow> ResumeTask list prog" where
  "scan_clones env [] = ret []"
| "scan_clones env (ns # nss) = do {
     t \<leftarrow> evaluate_clone env ns;
     ts \<leftarrow> scan_clones env nss;
     ret (t @ ts) }"

definition managed :: label_set where
  "managed = [(LabelManagedBy, ManagedByValue)]"

definition resume :: "env \<Rightarrow> ResumeTask list prog" where
  "resume env = do {
     l \<leftarrow> ask (EvListNamespaces managed) (\<lambda>tr. e_ListNamespaces env tr managed);
     case l of
       Inl err \<Rightarrow> ret []
     | Inr nss \<Rightarrow> (if length nss = 0 then ret [] else scan_clones env nss) }"

fun run_task :: "nat \<Rightarrow> env \<Rightarrow> ResumeTask \<Rightarrow> unit outcome prog" where
  "run_task fuel env (DeleteTask n) = do { deleteNamespace env n; ret (Ret ()) }"
| "run_task fuel env (CollectTask x n t age d) = resume_fn fuel env x n t age d"

section \<open>Properties\<close>

text \<open>The local copy deletes a clone exactly as \<open>namespace.Delete\<close> does.\<close>

lemma deleteNamespace_eq: "run_state (deleteNamespace env n) w = ((), snd (run_state (Delete env n) w))"
  by (simp add: deleteNamespace_def Delete_def run_bind run_ask run_ret run_state_case_sum run_state_case_option
      run_state_if split: sum.split option.split prod.split)

lemma run_deleteNamespace:
  "run_state (deleteNamespace env n) w = ((), w\<lparr>w_trace := w_trace w @ delete_calls env (w_trace w) n\<rparr>)"
  by (simp add: deleteNamespace_eq run_Delete)

text \<open>Namespaces with the labels that \<open>Clone\<close> gives to the ones it makes.\<close>

definition made_by_Clone :: "Namespace list \<Rightarrow> bool" where
  "made_by_Clone nss \<longleftrightarrow> list_all (\<lambda>ns. \<exists>src tgt suffix. nsp_Labels ns = nsp_Labels (clone_namespace src tgt suffix)) nss"

text \<open>
  The scan never resumes a check: the namespaces that \<open>Clone\<close> makes do not carry the label of the run, so
  whatever clones are left behind, the scan makes the one call that lists them and starts nothing.
\<close>

theorem clones_never_resumed:
  assumes "e_ListNamespaces env (w_trace w) managed = Inr nss" and "made_by_Clone nss"
  shows "run_state (resume env) w = ([], w\<lparr>w_trace := w_trace w @ [EvListNamespaces managed]\<rparr>)"
proof -
  have "label_of ns LabelCheckRunID = []" if "nsp_Labels ns = nsp_Labels (clone_namespace src tgt suffix)" for ns src tgt suffix
    using that by (simp add: label_of_def clone_namespace_def label_consts)
  then have "run_state (scan_clones env nss) v = ([], v)" if "made_by_Clone nss" for v :: world
    using that by (induction nss) (auto simp: made_by_Clone_def run_ret run_bind evaluate_clone_def)
  then show ?thesis using assms by (simp add: resume_def run_bind run_ask run_ret)
qed

theorem clones_never_resumed_witness:
  "run_state (resume (ref_env empty_whc [clone_namespace ''apps'' ''apps-abc-user'' ''abc''] [])) (start_world empty_whc) =
    ([], (start_world empty_whc)\<lparr>w_trace := [EvListNamespaces managed]\<rparr>)"
proof -
  let ?nss = "[clone_namespace ''apps'' ''apps-abc-user'' ''abc'']"
  have start: "w_trace (start_world empty_whc) = []" by (simp add: start_world_def)
  have "e_ListNamespaces (ref_env empty_whc ?nss []) (w_trace (start_world empty_whc)) managed = Inr ?nss"
    by (simp add: ref_env_def start managed_def clone_namespace_def label_consts)
  moreover have "made_by_Clone ?nss" unfolding made_by_Clone_def by auto
  ultimately show ?thesis using clones_never_resumed [of "ref_env empty_whc ?nss []" "start_world empty_whc" ?nss]
    by (simp only: start append_Nil)
qed

text \<open>The calls of a resumed check before its clone is deleted: it reads, and stores under one key.\<close>

definition collects :: "WorkloadHardeningCheck \<Rightarrow> string \<Rightarrow> event \<Rightarrow> bool" where
  "collects x t ev \<longleftrightarrow> reading ev \<or> (\<exists>v. ev = EvSet (to_lower (''recording:'' @ recording_id x t)) v)"

definition cleaned_up :: "env \<Rightarrow> WorkloadHardeningCheck \<Rightarrow> string \<Rightarrow> string \<Rightarrow> world \<Rightarrow> world \<Rightarrow> bool" where
  "cleaned_up env x ns t w w' \<longleftrightarrow>
     (\<exists>evs. w_trace w' = w_trace w @ evs @ delete_calls env (w_trace w @ evs) ns \<and> list_all (collects x t) evs)"

lemma cleaned_up_after:
  assumes "w_trace v = w_trace w @ evs" "list_all (collects x t) evs"
  shows "cleaned_up env x ns t w (snd (run_state (deleteNamespace env ns) v))"
  unfolding cleaned_up_def using assms by (intro exI [of _ evs]) (simp add: run_deleteNamespace)

lemma cleaned_up_earlier:
  assumes "cleaned_up env x ns t v w'" "w_trace v = w_trace w @ evs" "list_all (collects x t) evs"
  shows "cleaned_up env x ns t w w'"
proof -
  obtain evs' where "w_trace w' = w_trace v @ evs' @ delete_calls env (w_trace v @ evs') ns" "list_all (collects x t) evs'"
    using assms(1) unfolding cleaned_up_def by blast
  then show ?thesis unfolding cleaned_up_def using assms(2,3) by (intro exI [of _ "evs @ evs'"]) simp
qed

lemma stored_under_own_key:
  "\<exists>evs. w_trace (snd (run_state (StoreRecording env (recording_prefix x) (resumed_recording t logs)) w)) = w_trace w @ evs
    \<and> list_all (collects x t) evs"
  by (cases "e_Marshal env (resumed_recording t logs)")
    (simp_all add: StoreRecording_def storeEntry_def run_ret run_ask collects_def recording_key_def recording_prefix_def
      recording_id_def resumed_recording_def)

lemma collect_logs_cleans_up:
  assumes "fst (run_state (collect_logs fuel env x ns t) w) = Ret ()"
  shows "cleaned_up env x ns t w (snd (run_state (collect_logs fuel env x ns t) w))"
proof -
  let ?del = "do { deleteNamespace env ns; ret (Ret ()) } :: unit outcome prog"
  have del: "cleaned_up env x ns t w (snd (run_state ?del v))" if "w_trace v = w_trace w @ evs" "list_all (collects x t) evs" for v evs
    using cleaned_up_after [OF that, of env ns] by (auto simp: run_bind run_ret split: prod.split)
  obtain g v where g: "run_state (getWorkloadInNamespace env x ns) w = (g, v)" by (meson surj_pair)
  obtain evs where evs: "w_trace v = w_trace w @ evs" "list_all (collects x t) evs"
  proof -
    have "keeps anywhere (collects x t) (getWorkloadInNamespace env x ns)"
      unfolding getWorkloadInNamespace_def get_workload_def by (intro emits_intros) (simp_all add: collects_def)
    from stepsD_trace [OF this anywhere, of w] that show ?thesis by (auto simp: g list_all_iff)
  qed
  show ?thesis
  proof (cases "\<exists>wl sel. g = Inr wl \<and> GetLabelSelectorForWorkload env wl = Inr sel")
    case False
    then have "run_state (collect_logs fuel env x ns t) w = run_state ?del v"
      by (auto simp: collect_logs_def run_bind [of "getWorkloadInNamespace env x ns"] g split: sum.splits)
    then show ?thesis using del [OF evs] by simp
  next
    case True
    then obtain wl sel where sel: "g = Inr wl" "GetLabelSelectorForWorkload env wl = Inr sel" by blast
    obtain r u where r: "run_state (RecordLogs fuel env ns sel False) v = (r, u)" by (meson surj_pair)
    have "keeps anywhere (collects x t) (RecordLogs fuel env ns sel False)"
      by (rule steps_weaken [OF keeps_RecordLogs [OF anywhere_free(1)]]) (simp_all add: collects_def)
    from stepsD_trace [OF this anywhere, of v] obtain evs1 where "w_trace u = w_trace v @ evs1" "\<forall>ev \<in> set evs1. collects x t ev"
      by (auto simp: r)
    then have evs': "w_trace u = w_trace w @ (evs @ evs1)" "list_all (collects x t) (evs @ evs1)"
      using evs by (auto simp: list_all_iff)
    let ?rest = "\<lambda>l. case l of Inl err \<Rightarrow> ?del | Inr logs \<Rightarrow> do {
        StoreRecording env (recording_prefix x) (resumed_recording t logs); ?del }"
    have run: "run_state (collect_logs fuel env x ns t) w = run_state (attempt (RecordLogs fuel env ns sel False) ?rest) v"
      by (simp add: collect_logs_def run_bind [of "getWorkloadInNamespace env x ns"] g sel)
    then obtain l where l: "r = Ret l" using assms by (cases r) (simp_all add: run_attempt r)
    show ?thesis
    proof (cases l)
      case (Inl e)
      then show ?thesis using del [OF evs'] by (simp add: run run_attempt [of "RecordLogs fuel env ns sel False"] r l)
    next
      case (Inr logs)
      obtain s v' where s: "run_state (StoreRecording env (recording_prefix x) (resumed_recording t logs)) u = (s, v')"
        by (meson surj_pair)
      obtain evs2 where "w_trace v' = w_trace u @ evs2" "list_all (collects x t) evs2"
        using stored_under_own_key [of env x t logs u] by (auto simp: s)
      then have "w_trace v' = w_trace w @ (evs @ evs1 @ evs2)" "list_all (collects x t) (evs @ evs1 @ evs2)"
        using evs' by simp_all
      from del [OF this] show ?thesis
        by (simp add: run run_attempt [of "RecordLogs fuel env ns sel False"] r l Inr
            run_bind [of "StoreRecording env (recording_prefix x) (resumed_recording t logs)"] s)
    qed
  qed
qed



end
