(* ===== verification/Startup.thy ===== *)
theory Startup
  imports Prelude
begin

text \<open>
  \<open>cmd/main.go\<close>: the command line, the TLS options of the two servers, and the calls that set up the manager,
  in their order, each of which ends the process when it fails. The packages \<open>flag\<close> and \<open>path/filepath\<close> of Go and
  its slices are modelled as far as they are used; flags of other packages (\<open>zap\<close>, \<open>kubeconfig\<close>) and whether
  a call fails are parameters. Also here: \<open>NewValKeyClient\<close> and the \<open>SetupWithManager\<close> functions.
\<close>

section \<open>The command line\<close>

record Flags =
  fl_metricsAddr :: string
  fl_probeAddr :: string
  fl_enableLeaderElection :: bool
  fl_secureMetrics :: bool
  fl_enableHTTP2 :: bool
  fl_webhookCertPath :: string
  fl_webhookCertName :: string
  fl_webhookCertKey :: string
  fl_metricsCertPath :: string
  fl_metricsCertName :: string
  fl_metricsCertKey :: string
  fl_valkeyHost :: string
  fl_valkeyPort :: string
  fl_normalizeTimestamps :: bool

text \<open>A flag is registered with the variable it sets and its default.\<close>

datatype Flag =
    StringVar "string \<Rightarrow> Flags \<Rightarrow> Flags" string
  | BoolVar "bool \<Rightarrow> Flags \<Rightarrow> Flags" bool

definition initial_flags :: Flags where
  "initial_flags = \<lparr>fl_metricsAddr = [], fl_probeAddr = [], fl_enableLeaderElection = False, fl_secureMetrics = False,
     fl_enableHTTP2 = False, fl_webhookCertPath = [], fl_webhookCertName = [], fl_webhookCertKey = [],
     fl_metricsCertPath = [], fl_metricsCertName = [], fl_metricsCertKey = [],
     fl_valkeyHost = ''valkey'', fl_valkeyPort = ''6379'', fl_normalizeTimestamps = False\<rparr>"

definition program_flags :: "(string, Flag) gomap" where
  "program_flags = [
     (''metrics-bind-address'', StringVar (\<lambda>v f. f\<lparr>fl_metricsAddr := v\<rparr>) ''0''),
     (''health-probe-bind-address'', StringVar (\<lambda>v f. f\<lparr>fl_probeAddr := v\<rparr>) '':8081''),
     (''leader-elect'', BoolVar (\<lambda>v f. f\<lparr>fl_enableLeaderElection := v\<rparr>) False),
     (''metrics-secure'', BoolVar (\<lambda>v f. f\<lparr>fl_secureMetrics := v\<rparr>) True),
     (''enable-http2'', BoolVar (\<lambda>v f. f\<lparr>fl_enableHTTP2 := v\<rparr>) False),
     (''webhook-cert-path'', StringVar (\<lambda>v f. f\<lparr>fl_webhookCertPath := v\<rparr>) []),
     (''webhook-cert-name'', StringVar (\<lambda>v f. f\<lparr>fl_webhookCertName := v\<rparr>) ''tls.crt''),
     (''webhook-cert-key'', StringVar (\<lambda>v f. f\<lparr>fl_webhookCertKey := v\<rparr>) ''tls.key''),
     (''metrics-cert-path'', StringVar (\<lambda>v f. f\<lparr>fl_metricsCertPath := v\<rparr>) []),
     (''metrics-cert-name'', StringVar (\<lambda>v f. f\<lparr>fl_metricsCertName := v\<rparr>) ''tls.crt''),
     (''metrics-cert-key'', StringVar (\<lambda>v f. f\<lparr>fl_metricsCertKey := v\<rparr>) ''tls.key''),
     (''valkey-host'', StringVar (\<lambda>v f. f\<lparr>fl_valkeyHost := v\<rparr>) (fl_valkeyHost initial_flags)),
     (''valkey-port'', StringVar (\<lambda>v f. f\<lparr>fl_valkeyPort := v\<rparr>) (fl_valkeyPort initial_flags)),
     (''normalize-timestamps'', BoolVar (\<lambda>v f. f\<lparr>fl_normalizeTimestamps := v\<rparr>) False)]"

text \<open>Registering a flag stores its default.\<close>

fun register_flag :: "Flag \<Rightarrow> Flags \<Rightarrow> Flags" where
  "register_flag (StringVar upd d) f = upd d f"
| "register_flag (BoolVar upd d) f = upd d f"

definition default_flags :: Flags where
  "default_flags = fold register_flag (map snd program_flags) initial_flags"

text \<open>\<open>strconv.ParseBool\<close>\<close>

definition ParseBool :: "string \<Rightarrow> bool option" where
  "ParseBool s =
     (if s \<in> {''1'', ''t'', ''T'', ''true'', ''TRUE'', ''True''} then Some True
      else if s \<in> {''0'', ''f'', ''F'', ''false'', ''FALSE'', ''False''} then Some False
      else None)"

text \<open>
  A flag of another package only accepts a value or not; the boolean says whether it may stand without one.
\<close>

type_synonym other_flags = "string \<Rightarrow> (bool \<times> (string \<Rightarrow> bool)) option"

definition known_flag :: "other_flags \<Rightarrow> string \<Rightarrow> bool option" where
  "known_flag others name = (case map_of program_flags name of
     Some (StringVar _ _) \<Rightarrow> Some False
   | Some (BoolVar _ _) \<Rightarrow> Some True
   | None \<Rightarrow> map_option fst (others name))"

definition set_flag :: "other_flags \<Rightarrow> string \<Rightarrow> string \<Rightarrow> Flags \<Rightarrow> Flags option" where
  "set_flag others name v f = (case map_of program_flags name of
     Some (StringVar upd _) \<Rightarrow> Some (upd v f)
   | Some (BoolVar upd _) \<Rightarrow> map_option (\<lambda>b. upd b f) (ParseBool v)
   | None \<Rightarrow> (case others name of
       None \<Rightarrow> None
     | Some (_, accepts) \<Rightarrow> (if accepts v then Some f else None)))"

text \<open>One argument: \<open>-name\<close>, \<open>--name\<close>, either with \<open>=value\<close>; anything else ends the flags or is an error.\<close>

datatype flag_token = EndOfFlags | BadSyntax | FlagToken string "string option"

definition flag_body :: "string \<Rightarrow> flag_token" where
  "flag_body s =
     (if s = [] \<or> hd s = CHR ''-'' \<or> hd s = CHR ''='' then BadSyntax
      else if CHR ''='' \<in> set s
        then FlagToken (takeWhile (\<lambda>c. c \<noteq> CHR ''='') s) (Some (tl (dropWhile (\<lambda>c. c \<noteq> CHR ''='') s)))
      else FlagToken s None)"

definition read_flag :: "string \<Rightarrow> flag_token" where
  "read_flag s =
     (if length s < 2 \<or> hd s \<noteq> CHR ''-'' then EndOfFlags
      else if s = ''--'' then EndOfFlags
      else if hd (tl s) = CHR ''-'' then flag_body (tl (tl s))
      else flag_body (tl s))"

text \<open>
  \<open>flag.Parse\<close> ends the process with status 2 on an error and 0 after a request for help, \<open>Inl\<close> here; a boolean
  flag without a value is true, another one takes the next argument.
\<close>

fun parse_flags :: "other_flags \<Rightarrow> string list \<Rightarrow> Flags \<Rightarrow> nat + Flags" where
  "parse_flags others [] f = Inr f"
| "parse_flags others (s # args) f = (case read_flag s of
     EndOfFlags \<Rightarrow> Inr f
   | BadSyntax \<Rightarrow> Inl 2
   | FlagToken name val \<Rightarrow> (case known_flag others name of
       None \<Rightarrow> Inl (if name = ''help'' \<or> name = ''h'' then 0 else 2)
     | Some boolean \<Rightarrow> (case (if val = None \<and> boolean then Some ''true'' else val) of
         Some v \<Rightarrow> (case set_flag others name v f of None \<Rightarrow> Inl 2 | Some f' \<Rightarrow> parse_flags others args f')
       | None \<Rightarrow> (case args of
           [] \<Rightarrow> Inl 2
         | v # rest \<Rightarrow> (case set_flag others name v f of None \<Rightarrow> Inl 2 | Some f' \<Rightarrow> parse_flags others rest f')))))"

section \<open>Paths\<close>

text \<open>\<open>filepath.Clean\<close> and \<open>filepath.Join\<close>\<close>

definition clean_step :: "bool \<Rightarrow> string \<Rightarrow> string list \<Rightarrow> string list" where
  "clean_step rooted p acc =
     (if p = [] \<or> p = ''.'' then acc
      else if p \<noteq> ''..'' then p # acc
      else (case acc of
          [] \<Rightarrow> if rooted then [] else [''..'']
        | q # qs \<Rightarrow> if q = ''..'' then ''..'' # acc else qs))"

definition Clean :: "string \<Rightarrow> string" where
  "Clean path =
     (let rooted = (path \<noteq> [] \<and> hd path = CHR ''/'');
          out = str_join (rev (fold (clean_step rooted) (str_split (CHR ''/'') path) [])) ''/''
      in if rooted then CHR ''/'' # out else if out = [] then ''.'' else out)"

definition Join :: "string list \<Rightarrow> string" where
  "Join ps = (let qs = filter (\<lambda>p. p \<noteq> []) ps in if qs = [] then [] else Clean (str_join qs ''/''))"

section \<open>TLS options\<close>

text \<open>A certificate watcher, by the files it was made for and the server it belongs to.\<close>

datatype Server = WebhookServer | MetricsServer

record CertWatcher =
  cw_for :: Server
  cw_cert :: string
  cw_key :: string

record TLSConfig =
  tls_NextProtos :: "string list option"
  tls_GetCertificate :: "CertWatcher option"

datatype TLSOption = disableHTTP2 | UseCertificate CertWatcher

fun apply_option :: "TLSOption \<Rightarrow> TLSConfig \<Rightarrow> TLSConfig" where
  "apply_option disableHTTP2 c = c\<lparr>tls_NextProtos := Some [''http/1.1'']\<rparr>"
| "apply_option (UseCertificate w) c = c\<lparr>tls_GetCertificate := Some w\<rparr>"

text \<open>
  A slice of options is nil or the first elements of an array on the heap. \<open>append\<close> writes behind them into the
  same array while there is room, and else into a new one, whose size for \<open>n\<close> elements is \<open>grow n\<close>: the language
  only promises that it is at least \<open>n\<close>.
\<close>

datatype Slice = NilSlice | Slice nat nat

type_synonym arrays = "TLSOption option list list"

definition new_array :: "(nat \<Rightarrow> nat) \<Rightarrow> TLSOption list \<Rightarrow> TLSOption option list" where
  "new_array grow xs = map Some xs @ replicate (grow (length xs) - length xs) None"

definition slice_elements :: "arrays \<Rightarrow> Slice \<Rightarrow> TLSOption list" where
  "slice_elements h s = (case s of NilSlice \<Rightarrow> [] | Slice a n \<Rightarrow> List.map_filter (\<lambda>x. x) (take n (h ! a)))"

definition append_option :: "(nat \<Rightarrow> nat) \<Rightarrow> TLSOption \<Rightarrow> Slice \<Rightarrow> arrays \<Rightarrow> Slice \<times> arrays" where
  "append_option grow x s h =
     (let fresh = (Slice (length h) (Suc (length (slice_elements h s))), h @ [new_array grow (slice_elements h s @ [x])])
      in case s of
        NilSlice \<Rightarrow> fresh
      | Slice a n \<Rightarrow> if n < length (h ! a) then (Slice a (Suc n), h[a := (h ! a)[n := Some x]]) else fresh)"

text \<open>The configuration a server comes to: its options are applied when it starts.\<close>

definition served_with :: "arrays \<Rightarrow> Slice \<Rightarrow> TLSConfig" where
  "served_with h s = fold apply_option (slice_elements h s) \<lparr>tls_NextProtos = None, tls_GetCertificate = None\<rparr>"

definition base_options :: "(nat \<Rightarrow> nat) \<Rightarrow> Flags \<Rightarrow> Slice \<times> arrays" where
  "base_options grow fl = (if \<not> fl_enableHTTP2 fl then append_option grow disableHTTP2 NilSlice [] else (NilSlice, []))"

definition with_watcher :: "(nat \<Rightarrow> nat) \<Rightarrow> CertWatcher option \<Rightarrow> Slice \<Rightarrow> arrays \<Rightarrow> Slice \<times> arrays" where
  "with_watcher grow w s h = (case w of None \<Rightarrow> (s, h) | Some w \<Rightarrow> append_option grow (UseCertificate w) s h)"

section \<open>The calls\<close>

record MetricsOptions =
  mo_BindAddress :: string
  mo_SecureServing :: bool
  mo_TLSOpts :: Slice
  mo_filtered :: bool

record ManagerOptions =
  mgr_Metrics :: MetricsOptions
  mgr_WebhookTLS :: Slice
  mgr_HealthProbeBindAddress :: string
  mgr_LeaderElection :: bool
  mgr_LeaderElectionID :: string

text \<open>Which events reach a controller; an update is known by the generations of the two objects.\<close>

datatype WatchEvent = CreateEvent | DeleteEvent | GenericEvent | UpdateEvent int int

fun ignoreStatusChanges :: "WatchEvent \<Rightarrow> bool" where
  "ignoreStatusChanges (UpdateEvent old new) \<longleftrightarrow> old \<noteq> new"
| "ignoreStatusChanges _ \<longleftrightarrow> True"

record Controller =
  ctl_Named :: string
  ctl_For :: string
  ctl_Owns :: string
  ctl_MaxConcurrentReconciles :: nat
  ctl_Filter :: "WatchEvent \<Rightarrow> bool"
  ctl_NormalizeTimestamps :: bool

record Webhook =
  wh_For :: string
  wh_reads_recordings :: bool

datatype Runnable = ExecutorRunnable | WatcherRunnable CertWatcher

datatype SetupCall =
    NewCertWatcher CertWatcher
  | GetConfig
  | NewManager ManagerOptions
  | ConnectValkey string
  | PingValkey
  | AddRunnable Runnable
  | CompleteController Controller
  | CompleteWebhook Webhook
  | AddHealthzCheck string
  | AddReadyzCheck string
  | StartManager

text \<open>
  The rest of the set-up is a function of the calls made so far. A call that fails (\<open>fails\<close>) ends the process
  with status 1; \<open>None\<close> is the end of \<open>main\<close>.
\<close>

type_synonym ending = "nat option \<times> SetupCall list"
type_synonym rest = "SetupCall list \<Rightarrow> ending"
type_synonym failing = "SetupCall list \<Rightarrow> SetupCall \<Rightarrow> bool"

definition must :: "failing \<Rightarrow> SetupCall \<Rightarrow> rest \<Rightarrow> rest" where
  "must fails c k tr = (if fails tr c then (Some 1, tr @ [c]) else k (tr @ [c]))"

definition NewValKeyClient :: "failing \<Rightarrow> string \<Rightarrow> string \<Rightarrow> rest \<Rightarrow> rest" where
  "NewValKeyClient fails host port k = must fails (ConnectValkey (host @ '':'' @ port)) (must fails PingValkey k)"

definition workload_controller :: "bool \<Rightarrow> Controller" where
  "workload_controller normalizeTimestamps = \<lparr>ctl_Named = ''workloadhardeningcheck'', ctl_For = ''WorkloadHardeningCheck'',
     ctl_Owns = ''Namespace'', ctl_MaxConcurrentReconciles = 2, ctl_Filter = ignoreStatusChanges,
     ctl_NormalizeTimestamps = normalizeTimestamps\<rparr>"

definition namespace_controller :: Controller where
  "namespace_controller = \<lparr>ctl_Named = ''namespacehardeningcheck'', ctl_For = ''NamespaceHardeningCheck'',
     ctl_Owns = ''WorkloadHardeningCheck'', ctl_MaxConcurrentReconciles = 2, ctl_Filter = ignoreStatusChanges,
     ctl_NormalizeTimestamps = False\<rparr>"

definition workload_webhook :: Webhook where
  "workload_webhook = \<lparr>wh_For = ''WorkloadHardeningCheck'', wh_reads_recordings = True\<rparr>"

definition namespace_webhook :: Webhook where
  "namespace_webhook = \<lparr>wh_For = ''NamespaceHardeningCheck'', wh_reads_recordings = False\<rparr>"

text \<open>A watcher is made when a directory is given.\<close>

definition cert_watcher :: "Server \<Rightarrow> string \<Rightarrow> string \<Rightarrow> string \<Rightarrow> CertWatcher option" where
  "cert_watcher server path name key =
     (if length path > 0 then Some \<lparr>cw_for = server, cw_cert = Join [path, name], cw_key = Join [path, key]\<rparr> else None)"

definition webhook_watcher :: "Flags \<Rightarrow> CertWatcher option" where
  "webhook_watcher fl = cert_watcher WebhookServer (fl_webhookCertPath fl) (fl_webhookCertName fl) (fl_webhookCertKey fl)"

definition metrics_watcher :: "Flags \<Rightarrow> CertWatcher option" where
  "metrics_watcher fl = cert_watcher MetricsServer (fl_metricsCertPath fl) (fl_metricsCertName fl) (fl_metricsCertKey fl)"

definition with_optional :: "'a option \<Rightarrow> ('a \<Rightarrow> rest \<Rightarrow> rest) \<Rightarrow> rest \<Rightarrow> rest" where
  "with_optional x f k = (case x of None \<Rightarrow> k | Some y \<Rightarrow> f y k)"

definition webhooks_enabled :: "(string \<Rightarrow> string) \<Rightarrow> bool" where
  "webhooks_enabled getenv \<longleftrightarrow> getenv ''ENABLE_WEBHOOKS'' \<noteq> ''false''"

text \<open>From the creation of the manager to its start.\<close>

definition manager_options :: "Flags \<Rightarrow> Slice \<Rightarrow> Slice \<Rightarrow> ManagerOptions" where
  "manager_options fl webhookTLSOpts metricsTLSOpts = \<lparr>
     mgr_Metrics = \<lparr>mo_BindAddress = fl_metricsAddr fl, mo_SecureServing = fl_secureMetrics fl,
       mo_TLSOpts = metricsTLSOpts, mo_filtered = fl_secureMetrics fl\<rparr>,
     mgr_WebhookTLS = webhookTLSOpts, mgr_HealthProbeBindAddress = fl_probeAddr fl,
     mgr_LeaderElection = fl_enableLeaderElection fl, mgr_LeaderElectionID = ''44323975.ofunk.org''\<rparr>"

definition register_controllers :: "failing \<Rightarrow> (string \<Rightarrow> string) \<Rightarrow> Flags \<Rightarrow> rest \<Rightarrow> rest" where
  "register_controllers fails getenv fl k =
     NewValKeyClient fails (fl_valkeyHost fl) (fl_valkeyPort fl)
     (must fails (AddRunnable ExecutorRunnable)
     (must fails (CompleteController (workload_controller (fl_normalizeTimestamps fl)))
     ((if webhooks_enabled getenv then must fails (CompleteWebhook workload_webhook) else (\<lambda>k. k))
     (must fails (CompleteController namespace_controller)
     ((if webhooks_enabled getenv then must fails (CompleteWebhook namespace_webhook) else (\<lambda>k. k)) k)))))"

definition start_manager :: "failing \<Rightarrow> Flags \<Rightarrow> rest" where
  "start_manager fails fl =
     with_optional (metrics_watcher fl) (\<lambda>w. must fails (AddRunnable (WatcherRunnable w)))
     (with_optional (webhook_watcher fl) (\<lambda>w. must fails (AddRunnable (WatcherRunnable w)))
     (must fails (AddHealthzCheck ''healthz'')
     (must fails (AddReadyzCheck ''readyz'')
     (must fails StartManager (\<lambda>tr. (None, tr))))))"

text \<open>
  \<open>main\<close> after the flags. The slices are the servers' options; the arrays behind them, which nothing changes
  any more once both are built, are what the servers find when they start.
\<close>

definition tls_options :: "(nat \<Rightarrow> nat) \<Rightarrow> Flags \<Rightarrow> Slice \<times> Slice \<times> arrays" where
  "tls_options grow fl =
     (let (tlsOpts, h) = base_options grow fl;
          (webhookTLSOpts, h) = with_watcher grow (webhook_watcher fl) tlsOpts h;
          (metricsTLSOpts, h) = with_watcher grow (metrics_watcher fl) tlsOpts h
      in (webhookTLSOpts, metricsTLSOpts, h))"

definition main :: "(nat \<Rightarrow> nat) \<Rightarrow> failing \<Rightarrow> (string \<Rightarrow> string) \<Rightarrow> Flags \<Rightarrow> ending" where
  "main grow fails getenv fl =
     (let (webhookTLSOpts, metricsTLSOpts, h) = tls_options grow fl in
      with_optional (webhook_watcher fl) (\<lambda>w. must fails (NewCertWatcher w))
      (with_optional (metrics_watcher fl) (\<lambda>w. must fails (NewCertWatcher w))
      (must fails GetConfig
      (must fails (NewManager (manager_options fl webhookTLSOpts metricsTLSOpts))
      (register_controllers fails getenv fl
      (start_manager fails fl))))) [])"

text \<open>The process: the command line, then \<open>main\<close>.\<close>

definition operator :: "other_flags \<Rightarrow> (nat \<Rightarrow> nat) \<Rightarrow> failing \<Rightarrow> (string \<Rightarrow> string) \<Rightarrow> string list \<Rightarrow> ending" where
  "operator others grow fails getenv args = (case parse_flags others args default_flags of
     Inl status \<Rightarrow> (Some status, [])
   | Inr fl \<Rightarrow> main grow fails getenv fl)"

section \<open>The plan of the calls\<close>

text \<open>The specification of \<open>main\<close>: a list of calls that is gone through until one fails.\<close>

definition optional :: "'a option \<Rightarrow> ('a \<Rightarrow> SetupCall) \<Rightarrow> SetupCall list" where
  "optional x f = (case x of None \<Rightarrow> [] | Some y \<Rightarrow> [f y])"

definition setup_plan :: "(nat \<Rightarrow> nat) \<Rightarrow> (string \<Rightarrow> string) \<Rightarrow> Flags \<Rightarrow> SetupCall list" where
  "setup_plan grow getenv fl =
     (let (webhookTLSOpts, metricsTLSOpts, h) = tls_options grow fl;
          webhook = (\<lambda>w. if webhooks_enabled getenv then [CompleteWebhook w] else [])
      in optional (webhook_watcher fl) NewCertWatcher @ optional (metrics_watcher fl) NewCertWatcher
       @ [GetConfig, NewManager (manager_options fl webhookTLSOpts metricsTLSOpts),
          ConnectValkey (fl_valkeyHost fl @ '':'' @ fl_valkeyPort fl), PingValkey, AddRunnable ExecutorRunnable,
          CompleteController (workload_controller (fl_normalizeTimestamps fl))]
       @ webhook workload_webhook @ [CompleteController namespace_controller] @ webhook namespace_webhook
       @ optional (metrics_watcher fl) (\<lambda>w. AddRunnable (WatcherRunnable w))
       @ optional (webhook_watcher fl) (\<lambda>w. AddRunnable (WatcherRunnable w))
       @ [AddHealthzCheck ''healthz'', AddReadyzCheck ''readyz'', StartManager])"

fun go_through :: "failing \<Rightarrow> SetupCall list \<Rightarrow> SetupCall list \<Rightarrow> rest \<Rightarrow> ending" where
  "go_through fails [] tr k = k tr"
| "go_through fails (c # cs) tr k = must fails c (\<lambda>tr'. go_through fails cs tr' k) tr"

lemma go_through_append: "go_through fails (cs @ ds) tr k = go_through fails cs tr (\<lambda>tr'. go_through fails ds tr' k)"
  by (induction cs arbitrary: tr) (simp_all add: must_def)

lemma main_follows_plan: "main grow fails getenv fl = go_through fails (setup_plan grow getenv fl) [] (\<lambda>tr. (None, tr))"
proof (cases "tls_options grow fl" rule: prod_cases3)
  case (fields a b c)
  show ?thesis
    by (cases "webhook_watcher fl"; cases "metrics_watcher fl"; cases "webhooks_enabled getenv")
      (simp_all add: fields main_def setup_plan_def register_controllers_def start_manager_def NewValKeyClient_def
        with_optional_def optional_def)
qed

fun all_succeed :: "failing \<Rightarrow> SetupCall list \<Rightarrow> SetupCall list \<Rightarrow> bool" where
  "all_succeed fails tr [] \<longleftrightarrow> True"
| "all_succeed fails tr (c # cs) \<longleftrightarrow> \<not> fails tr c \<and> all_succeed fails (tr @ [c]) cs"

lemma go_through_cases:
  "(all_succeed fails tr cs \<and> go_through fails cs tr (\<lambda>tr. (None, tr)) = (None, tr @ cs))
   \<or> (\<exists>pre c post. cs = pre @ c # post \<and> all_succeed fails tr pre \<and> fails (tr @ pre) c
        \<and> go_through fails cs tr (\<lambda>tr. (None, tr)) = (Some 1, tr @ pre @ [c]))"
proof (induction cs arbitrary: tr)
  case Nil
  then show ?case by simp
next
  case (Cons c cs)
  show ?case
  proof (cases "fails tr c")
    case True
    then have "c # cs = [] @ c # cs \<and> all_succeed fails tr [] \<and> fails (tr @ []) c
      \<and> go_through fails (c # cs) tr (\<lambda>tr. (None, tr)) = (Some 1, tr @ [] @ [c])"
      by (simp add: must_def)
    then show ?thesis by blast
  next
    case False
    then have go: "go_through fails (c # cs) tr k = go_through fails cs (tr @ [c]) k" for k
      by (simp add: must_def)
    from Cons [of "tr @ [c]"] show ?thesis
    proof (elim disjE exE)
      assume "all_succeed fails (tr @ [c]) cs \<and> go_through fails cs (tr @ [c]) (\<lambda>tr. (None, tr)) = (None, (tr @ [c]) @ cs)"
      then show ?thesis using False by (simp add: go del: go_through.simps)
    next
      fix pre d post
      assume a: "cs = pre @ d # post \<and> all_succeed fails (tr @ [c]) pre \<and> fails ((tr @ [c]) @ pre) d
        \<and> go_through fails cs (tr @ [c]) (\<lambda>tr. (None, tr)) = (Some 1, (tr @ [c]) @ pre @ [d])"
      have "go_through fails (c # cs) tr (\<lambda>tr. (None, tr)) = (Some 1, tr @ (c # pre) @ [d])"
        using a unfolding go by (elim conjE) simp
      moreover have "c # cs = (c # pre) @ d # post" "all_succeed fails tr (c # pre)" "fails (tr @ c # pre) d"
        using a False by simp_all
      ultimately have "c # cs = (c # pre) @ d # post \<and> all_succeed fails tr (c # pre) \<and> fails (tr @ c # pre) d
        \<and> go_through fails (c # cs) tr (\<lambda>tr. (None, tr)) = (Some 1, tr @ (c # pre) @ [d])" by (intro conjI)
      then show ?thesis by blast
    qed
  qed
qed

lemma all_succeed_append: "all_succeed fails tr (cs @ ds) \<longleftrightarrow> all_succeed fails tr cs \<and> all_succeed fails (tr @ cs) ds"
  by (induction cs arbitrary: tr) simp_all

text \<open>The manager is started by the last call of the plan, and only there.\<close>

lemma plan_starts_last: "\<exists>cs. setup_plan grow getenv fl = cs @ [StartManager] \<and> StartManager \<notin> set cs"
  by (cases "tls_options grow fl" rule: prod_cases3)
    (auto simp: setup_plan_def optional_def split: option.splits)

text \<open>
  C25. The process makes the calls of the plan one after the other: either all of them succeed, or the first one
  that fails is the last one made and the exit status is 1. So the manager is started only when every call
  before it succeeded, Valkey's answer included, and a webhook is registered only if \<open>ENABLE_WEBHOOKS\<close> is not \<open>false\<close>.
\<close>

theorem main_runs_plan:
  "(let plan = setup_plan grow getenv fl; (status, calls) = main grow fails getenv fl in
     ((all_succeed fails [] plan \<and> status = None \<and> calls = plan)
      \<or> (\<exists>pre c post. plan = pre @ c # post \<and> all_succeed fails [] pre \<and> fails pre c
          \<and> status = Some 1 \<and> calls = pre @ [c]))
     \<and> (StartManager \<in> set calls \<longrightarrow> all_succeed fails [] (butlast plan) \<and> calls = plan)
     \<and> (\<forall>w. CompleteWebhook w \<in> set calls \<longrightarrow> getenv ''ENABLE_WEBHOOKS'' \<noteq> ''false''))"
proof -
  let ?plan = "setup_plan grow getenv fl"
  obtain cs where cs: "?plan = cs @ [StartManager]" "StartManager \<notin> set cs" using plan_starts_last by blast
  have web: "CompleteWebhook w \<in> set ?plan \<Longrightarrow> getenv ''ENABLE_WEBHOOKS'' \<noteq> ''false''" for w
    by (cases "tls_options grow fl" rule: prod_cases3)
      (auto simp: setup_plan_def optional_def webhooks_enabled_def split: option.splits if_splits)
  have start: "all_succeed fails [] (butlast ?plan) \<and> pre @ [c] = ?plan"
    if "?plan = pre @ c # post" "all_succeed fails [] pre" "StartManager \<in> set (pre @ [c])" for pre c post
  proof -
    have "post = []" using that(1,3) cs by (cases post rule: rev_cases) (auto simp: append_eq_append_conv2)
    then show ?thesis using that by simp
  qed
  have part: "CompleteWebhook w \<in> set (pre @ [c]) \<Longrightarrow> CompleteWebhook w \<in> set ?plan" if "?plan = pre @ c # post" for w pre c post
    using that by auto
  from go_through_cases [of fails "[]" ?plan] show ?thesis
  proof (elim disjE exE)
    assume "all_succeed fails [] ?plan \<and> go_through fails ?plan [] (\<lambda>tr. (None, tr)) = (None, [] @ ?plan)"
    then show ?thesis using web cs by (simp add: main_follows_plan Let_def all_succeed_append) blast
  next
    fix pre c post
    assume a: "?plan = pre @ c # post \<and> all_succeed fails [] pre \<and> fails ([] @ pre) c
      \<and> go_through fails ?plan [] (\<lambda>tr. (None, tr)) = (Some 1, [] @ pre @ [c])"
    then have run: "main grow fails getenv fl = (Some 1, pre @ [c])"
      unfolding main_follows_plan by (elim conjE) (simp only: append_Nil)
    have "CompleteWebhook w \<in> set (pre @ [c]) \<longrightarrow> getenv ''ENABLE_WEBHOOKS'' \<noteq> ''false''" for w
      using part [of pre c post w] a web by blast
    moreover have "StartManager \<in> set (pre @ [c]) \<longrightarrow> all_succeed fails [] (butlast ?plan) \<and> pre @ [c] = ?plan"
      using start [of pre c post] a by blast
    ultimately show ?thesis using a unfolding run Let_def prod.case by (metis append_Nil)
  qed
qed

text \<open>A Valkey that does not answer keeps the manager from starting.\<close>

theorem main_runs_plan_witness:
  "StartManager \<notin> set (snd (main (\<lambda>n. n) (\<lambda>tr c. c = PingValkey) (\<lambda>_. ''true'') default_flags))"
proof -
  have "\<not> all_succeed (\<lambda>tr c. c = PingValkey) [] (butlast (setup_plan (\<lambda>n. n) (\<lambda>_. ''true'') default_flags))"
    by (cases "tls_options (\<lambda>n. n) default_flags" rule: prod_cases3)
      (simp add: setup_plan_def all_succeed_append butlast_append)
  then show ?thesis
    using main_runs_plan [of "\<lambda>n. n" "\<lambda>_. ''true''" default_flags "\<lambda>tr c. c = PingValkey"]
    by (auto simp: Let_def split: prod.splits)
qed

section \<open>The certificates\<close>

lemma map_filter_Some [simp]: "List.map_filter (\<lambda>x. x) (map Some xs) = xs"
  by (induction xs) simp_all

lemma new_array_elements: "List.map_filter (\<lambda>x. x) (take (length xs) (new_array grow xs)) = xs"
  by (simp add: new_array_def)

text \<open>
  C26. Each server takes its certificate from the watcher of its own directory and speaks HTTP/1.1 only unless
  HTTP/2 is enabled, although both lists of options start from one slice. The webhook server depends on
  \<open>append\<close> for that: were the array of one element made larger than one, the two watchers would be written to
  the same place of it, and the webhook server would come up with the certificate of the metrics server.
\<close>

theorem servers_keep_certificates:
  "(let (webhookTLSOpts, metricsTLSOpts, h) = tls_options grow fl;
        protocols = (if fl_enableHTTP2 fl then None else Some [''http/1.1'']);
        shared = (\<not> fl_enableHTTP2 fl \<and> 1 < grow 1 \<and> webhook_watcher fl \<noteq> None \<and> metrics_watcher fl \<noteq> None)
    in served_with h webhookTLSOpts = \<lparr>tls_NextProtos = protocols,
         tls_GetCertificate = (if shared then metrics_watcher fl else webhook_watcher fl)\<rparr>
     \<and> served_with h metricsTLSOpts = \<lparr>tls_NextProtos = protocols, tls_GetCertificate = metrics_watcher fl\<rparr>)"
proof -
  note defs = tls_options_def base_options_def with_watcher_def append_option_def served_with_def new_array_def
    slice_elements_def Let_def nth_append List.map_filter_def
  consider "grow 1 \<le> 1" | k where "grow 1 = Suc (Suc k)"
    using less_imp_Suc_add [of 1 "grow 1"] by fastforce
  then show ?thesis
  proof cases
    case 1
    then show ?thesis
      by (cases "fl_enableHTTP2 fl"; cases "webhook_watcher fl"; cases "metrics_watcher fl") (simp_all add: defs)
  next
    case 2
    then show ?thesis
      by (cases "fl_enableHTTP2 fl"; cases "webhook_watcher fl"; cases "metrics_watcher fl") (simp_all add: defs)
  qed
qed

text \<open>
  The arguments of the chart under \<open>deploy/charts\<close>: both directories are given and HTTP/2 is off, so both
  servers get options behind a common first one.
\<close>

definition chart_args :: "string list" where
  "chart_args = [''--leader-elect'', ''--health-probe-bind-address=:8081'', ''--metrics-bind-address=:8443'',
     ''--metrics-cert-path=/tmp/k8s-metrics-server/metrics-certs'',
     ''--webhook-cert-path=/tmp/k8s-webhook-server/serving-certs'', ''--normalize-timestamps=false'']"

definition chart_flags :: Flags where
  "chart_flags = default_flags\<lparr>fl_enableLeaderElection := True, fl_metricsAddr := '':8443'',
     fl_metricsCertPath := ''/tmp/k8s-metrics-server/metrics-certs'',
     fl_webhookCertPath := ''/tmp/k8s-webhook-server/serving-certs''\<rparr>"

lemma chart_flags: "parse_flags (\<lambda>_. None) chart_args default_flags = Inr chart_flags"
  by code_simp

lemma chart_watchers:
  "webhook_watcher chart_flags = Some \<lparr>cw_for = WebhookServer, cw_cert = ''/tmp/k8s-webhook-server/serving-certs/tls.crt'',
     cw_key = ''/tmp/k8s-webhook-server/serving-certs/tls.key''\<rparr>"
  "metrics_watcher chart_flags = Some \<lparr>cw_for = MetricsServer, cw_cert = ''/tmp/k8s-metrics-server/metrics-certs/tls.crt'',
     cw_key = ''/tmp/k8s-metrics-server/metrics-certs/tls.key''\<rparr>"
  by code_simp+

end
