(* ===== verification/Waiting.thy ===== *)
theory Waiting
  imports WorkloadUtil Reference Duration
begin

text \<open>
  \<open>pkg/util/wait\<close>: the wrappers of the polling loop of \<open>k8s.io/apimachinery\<close>. The loop is a parameter, a function
  of the interval, the timeout, whether it tries at once, and the condition. A condition answers with a flag and
  an error; it works on the state \<open>'s\<close>, which for the wait for pods includes the variable it assigns.
\<close>

type_synonym 's condition = "'s \<Rightarrow> (bool \<times> error option) \<times> 's"
type_synonym 's poller = "Duration \<Rightarrow> Duration \<Rightarrow> bool \<Rightarrow> 's condition \<Rightarrow> 's \<Rightarrow> error option \<times> 's"

section \<open>The wrappers\<close>

definition DefaultPollInterval :: Duration where
  "DefaultPollInterval = dur (5 * Second)"

definition pods_condition :: "env \<Rightarrow> string \<Rightarrow> opaque \<Rightarrow> (world \<times> Pod list option) condition" where
  "pods_condition env ns selector = (\<lambda>(w, pods).
     case run_state (list_pods env ns selector) w of
       (Inl e, w') \<Rightarrow> ((False, None), (w', pods))
     | (Inr podList, w') \<Rightarrow>
         (if length podList = 0 then ((False, None), (w', pods))
          else if list_ex (\<lambda>pod. pd_NodeName pod = []) podList then ((False, None), (w', pods))
          else ((True, None), (w', Some podList))))"

text \<open>The pods are a pointer, nil until the condition sets it.\<close>

definition WaitForPodsAssigned ::
    "(world \<times> Pod list option) poller \<Rightarrow> env \<Rightarrow> string \<Rightarrow> opaque \<Rightarrow> Duration \<Rightarrow> (error + Pod list option) prog" where
  "WaitForPodsAssigned poll env ns selector timeout = State (\<lambda>w.
     case poll DefaultPollInterval timeout True (pods_condition env ns selector) (w, None) of
       (Some e, (w', pods)) \<Rightarrow> (Inl (Wrapf (''waiting for pods to be assigned in namespace '' @ ns) e), w')
     | (None, (w', pods)) \<Rightarrow> (Inr pods, w'))"

definition WaitForWorkloadUpdated :: "'s poller \<Rightarrow> 's condition \<Rightarrow> Duration \<Rightarrow> 's \<Rightarrow> error option \<times> 's" where
  "WaitForWorkloadUpdated poll checkFn timeout s =
     (case poll DefaultPollInterval timeout True checkFn s of
        (Some e, s') \<Rightarrow> (Some (Wrapf ''waiting for workload to be updated'' e), s')
      | (None, s') \<Rightarrow> (None, s'))"

definition WaitForCondition :: "'s poller \<Rightarrow> Duration \<Rightarrow> Duration \<Rightarrow> 's condition \<Rightarrow> 's \<Rightarrow> error option \<times> 's" where
  "WaitForCondition poll interval timeout condFn s = poll interval timeout True condFn s"

section \<open>What the loop promises\<close>

text \<open>
  The documented behaviour of \<open>PollUntilContextTimeout\<close>: the condition is tried until it answers true or with an
  error, and the time between two attempts passes; when the time is over the loop ends with the error of the
  context. \<open>polls elapse c s r s'\<close> says that it may end with \<open>r\<close> in \<open>s'\<close>.
\<close>

inductive polls :: "('s \<Rightarrow> 's) \<Rightarrow> 's condition \<Rightarrow> 's \<Rightarrow> error option \<Rightarrow> 's \<Rightarrow> bool" for elapse c where
  succeeded: "c s = ((True, None), s') \<Longrightarrow> polls elapse c s None s'"
| failed: "c s = ((b, Some e), s') \<Longrightarrow> polls elapse c s (Some e) s'"
| expired: "polls elapse c s (Some e) s"
| again: "c s = ((False, None), s1) \<Longrightarrow> polls elapse c (elapse s1) r s' \<Longrightarrow> polls elapse c s r s'"

inductive_cases polls_None: "polls elapse c s None s'"

definition polling :: "(Duration \<Rightarrow> 's \<Rightarrow> 's) \<Rightarrow> 's poller \<Rightarrow> bool" where
  "polling elapse poll \<longleftrightarrow> (\<forall>interval timeout immediate c s.
     polls (elapse interval) c s (fst (poll interval timeout immediate c s)) (snd (poll interval timeout immediate c s)))"

text \<open>Such a loop: it tries a number of times given by the timeout.\<close>

fun poll_times :: "('s \<Rightarrow> 's) \<Rightarrow> 's condition \<Rightarrow> nat \<Rightarrow> 's \<Rightarrow> error option \<times> 's" where
  "poll_times elapse c 0 s = (Some (Errorf ''context deadline exceeded''), s)"
| "poll_times elapse c (Suc n) s = (case c s of
     ((b, Some e), s') \<Rightarrow> (Some e, s')
   | ((True, None), s') \<Rightarrow> (None, s')
   | ((False, None), s') \<Rightarrow> poll_times elapse c n (elapse s'))"

definition ref_poll :: "(Duration \<Rightarrow> 's \<Rightarrow> 's) \<Rightarrow> 's poller" where
  "ref_poll elapse interval timeout immediate c s = poll_times (elapse interval) c (Suc (unat (timeout div interval))) s"

lemma poll_times_polls: "polls elapse c s (fst (poll_times elapse c n s)) (snd (poll_times elapse c n s))"
proof (induction n arbitrary: s)
  case 0
  then show ?case by (simp add: polls.expired)
next
  case (Suc n)
  obtain b e s' where c: "c s = ((b, e), s')" by (cases "c s" rule: prod.exhaust) (metis surj_pair)
  show ?case
  proof (cases e)
    case None
    then show ?thesis using c Suc.IH [of "elapse s'"] by (cases b) (auto intro: polls.succeeded polls.again)
  next
    case (Some x)
    then show ?thesis using c polls.failed [of c s b x s' elapse] by (cases b) simp_all
  qed
qed

lemma ref_poll_polling: "polling elapse (ref_poll elapse)"
  by (simp add: polling_def ref_poll_def poll_times_polls del: poll_times.simps)

section \<open>Waiting for pods\<close>

definition pass_time :: "Duration \<Rightarrow> world \<times> 'a \<Rightarrow> world \<times> 'a" where
  "pass_time interval s = ((fst s)\<lparr>w_trace := w_trace (fst s) @ [EvSleep (sint interval)]\<rparr>, snd s)"

text \<open>
  Success: the condition answered true last, in a call that listed pods which are all assigned. The loop makes no
  other calls than listing, and sleeps in between.
\<close>

fun only_lists :: "string \<Rightarrow> opaque \<Rightarrow> event \<Rightarrow> bool" where
  "only_lists ns sel (EvListPods ns' sel') \<longleftrightarrow> ns' = ns \<and> sel' = sel"
| "only_lists ns sel (EvSleep d) \<longleftrightarrow> d = 5 * int Second"
| "only_lists ns sel _ \<longleftrightarrow> False"

lemma pods_condition_cases:
  obtains (found) pods where "pods_condition env ns sel (w, p) = ((True, None),
      (w\<lparr>w_trace := w_trace w @ [EvListPods ns sel]\<rparr>, Some pods))"
      "e_ListPods env (w_trace w) ns sel = Inr pods" "pods \<noteq> []" "list_all (\<lambda>pod. pd_NodeName pod \<noteq> []) pods"
  | (missing) "pods_condition env ns sel (w, p) = ((False, None), (w\<lparr>w_trace := w_trace w @ [EvListPods ns sel]\<rparr>, p))"
proof (cases "e_ListPods env (w_trace w) ns sel")
  case (Inl e)
  then show ?thesis using missing by (simp add: pods_condition_def list_pods_def run_simps)
next
  case (Inr pods)
  show ?thesis
  proof (cases "pods = [] \<or> list_ex (\<lambda>pod. pd_NodeName pod = []) pods")
    case True
    then have "pods_condition env ns sel (w, p) = ((False, None), (w\<lparr>w_trace := w_trace w @ [EvListPods ns sel]\<rparr>, p))"
      by (auto simp: pods_condition_def list_pods_def run_simps Inr simp del: list_ex_iff)
    then show ?thesis by (rule missing)
  next
    case False
    then have "pods_condition env ns sel (w, p) = ((True, None), (w\<lparr>w_trace := w_trace w @ [EvListPods ns sel]\<rparr>, Some pods))"
      by (simp add: pods_condition_def list_pods_def run_simps Inr)
    moreover have "list_all (\<lambda>pod. pd_NodeName pod \<noteq> []) pods" "pods \<noteq> []"
      using False by (auto simp: list_all_iff list_ex_iff)
    ultimately show ?thesis using found Inr by blast
  qed
qed

lemma sint_interval: "sint DefaultPollInterval = 5 * int Second"
  by (simp add: DefaultPollInterval_def dur_def Second_def)

lemma polls_pods:
  assumes "polls (pass_time DefaultPollInterval) (pods_condition env ns sel) s r s'"
  shows "\<exists>evs. w_trace (fst s') = w_trace (fst s) @ evs \<and> list_all (only_lists ns sel) evs
    \<and> (r = None \<longrightarrow> (\<exists>pods pre. snd s' = Some pods \<and> pods \<noteq> [] \<and> list_all (\<lambda>pod. pd_NodeName pod \<noteq> []) pods
          \<and> evs = pre @ [EvListPods ns sel] \<and> e_ListPods env (w_trace (fst s) @ pre) ns sel = Inr pods))"
  using assms
proof (induction rule: polls.induct)
  case (succeeded s s')
  then show ?case using succeeded
    by (cases s rule: prod.exhaust) (cases rule: pods_condition_cases [of env ns sel "fst s" "snd s"]; auto)
next
  case (failed s b e s')
  then show ?case using failed
    by (cases s rule: prod.exhaust) (cases rule: pods_condition_cases [of env ns sel "fst s" "snd s"]; auto)
next
  case (expired s e)
  then show ?case by simp
next
  case (again s s1 r s')
  obtain w p where s: "s = (w, p)" by (cases s)
  let ?call = "[EvListPods ns sel]" and ?pause = "[EvSleep (5 * int Second)]"
  have s1: "s1 = (w\<lparr>w_trace := w_trace w @ ?call\<rparr>, p)"
    using again(1) unfolding s by (cases rule: pods_condition_cases [of env ns sel w p]) auto
  have tr: "w_trace (fst (pass_time DefaultPollInterval s1)) = w_trace w @ ?call @ ?pause"
    by (simp add: pass_time_def s1 sint_interval)
  from again.IH obtain evs where evs: "w_trace (fst s') = (w_trace w @ ?call @ ?pause) @ evs" "list_all (only_lists ns sel) evs"
    and last: "r = None \<longrightarrow> (\<exists>pods pre. snd s' = Some pods \<and> pods \<noteq> [] \<and> list_all (\<lambda>pod. pd_NodeName pod \<noteq> []) pods
          \<and> evs = pre @ ?call \<and> e_ListPods env ((w_trace w @ ?call @ ?pause) @ pre) ns sel = Inr pods)"
    unfolding tr by (elim exE conjE) (rule that; assumption)
  show ?case
  proof (intro exI [of _ "?call @ ?pause @ evs"] conjI impI)
    assume "r = None"
    with last obtain pods pre where "snd s' = Some pods" "pods \<noteq> []" "list_all (\<lambda>pod. pd_NodeName pod \<noteq> []) pods"
      "evs = pre @ ?call" "e_ListPods env ((w_trace w @ ?call @ ?pause) @ pre) ns sel = Inr pods" by blast
    then show "\<exists>pods pre. snd s' = Some pods \<and> pods \<noteq> [] \<and> list_all (\<lambda>pod. pd_NodeName pod \<noteq> []) pods
        \<and> ?call @ ?pause @ evs = pre @ ?call \<and> e_ListPods env (w_trace (fst s) @ pre) ns sel = Inr pods"
      by (intro exI [of _ pods] exI [of _ "?call @ ?pause @ pre"]) (simp add: s)
  qed (use evs in \<open>simp_all add: s\<close>)
qed

text \<open>
  C28. Waiting for the pods only lists pods, in the one namespace, and pauses; with pods it returns only pods
  that its last list call answered, at least one and every one of them assigned to a node, and never the nil
  pointer the variable starts with. An error it returns is wrapped with the namespace.
\<close>

theorem WaitForPodsAssigned_sound:
  assumes "polling pass_time poll"
  shows "let (r, w') = run_state (WaitForPodsAssigned poll env ns selector timeout) w in
    \<exists>evs. w_trace w' = w_trace w @ evs \<and> list_all (only_lists ns selector) evs
      \<and> (case r of
          Inl e \<Rightarrow> \<exists>e'. e = Wrapf (''waiting for pods to be assigned in namespace '' @ ns) e'
        | Inr pods \<Rightarrow> \<exists>ps pre. pods = Some ps \<and> ps \<noteq> [] \<and> list_all (\<lambda>pod. pd_NodeName pod \<noteq> []) ps
            \<and> evs = pre @ [EvListPods ns selector] \<and> e_ListPods env (w_trace w @ pre) ns selector = Inr ps)"
proof -
  obtain r w' pods where run: "poll DefaultPollInterval timeout True (pods_condition env ns selector) (w, None) = (r, (w', pods))"
    by (metis surj_pair)
  then have "polls (pass_time DefaultPollInterval) (pods_condition env ns selector) (w, None) r (w', pods)"
    using assms unfolding polling_def by (metis fst_conv snd_conv)
  from polls_pods [OF this] show ?thesis
    by (cases r) (auto simp: WaitForPodsAssigned_def run)
qed

definition assigned_pod :: Pod where
  "assigned_pod = \<lparr>pd_Namespace = ''apps'', pd_Name = ''web-0'', pd_UID = ''1'', pd_NodeName = ''node'', pd_Containers = [''main''],
     pd_InitContainers = [], pd_Phase = ''Running'', pd_DeletionTimestamp = None, pd_StartTime = None,
     pd_ContainerStatuses = []\<rparr>"

theorem WaitForPodsAssigned_sound_witness:
  "fst (run_state (WaitForPodsAssigned (ref_poll pass_time) (ref_env empty_whc [] [assigned_pod]) ''apps'' [] (dur Minute))
     (start_world empty_whc)) = Inr (Some [assigned_pod])"
proof -
  let ?env = "ref_env empty_whc [] [assigned_pod]"
  have c: "pods_condition ?env ''apps'' [] (w, p) = ((True, None), (w\<lparr>w_trace := w_trace w @ [EvListPods ''apps'' []]\<rparr>, Some [assigned_pod]))"
    for w p by (simp add: pods_condition_def list_pods_def run_simps ref_env_def assigned_pod_def)
  then show ?thesis
    using WaitForPodsAssigned_sound [OF ref_poll_polling, of ?env "''apps''" "[]" "dur Minute" "start_world empty_whc"]
    by (simp add: WaitForPodsAssigned_def ref_poll_def Let_def)
qed

text \<open>The other two wrappers succeed only when the condition has answered true last.\<close>

lemma polls_succeed: "polls elapse c s r s' \<Longrightarrow> r = None \<Longrightarrow> \<exists>s1. c s1 = ((True, None), s')"
  by (induction rule: polls.induct) auto

lemma waits_end_true:
  assumes "polling elapse poll"
  shows "WaitForWorkloadUpdated poll checkFn timeout s = (None, s') \<Longrightarrow> \<exists>s1. checkFn s1 = ((True, None), s')"
    "WaitForCondition poll interval timeout condFn s = (None, s') \<Longrightarrow> \<exists>s1. condFn s1 = ((True, None), s')"
proof -
  have ends: "\<exists>s1. c s1 = ((True, None), s')" if "poll interval timeout True c s = (None, s')" for interval c
    using assms that unfolding polling_def by (metis fst_conv snd_conv polls_succeed)
  show "WaitForWorkloadUpdated poll checkFn timeout s = (None, s') \<Longrightarrow> \<exists>s1. checkFn s1 = ((True, None), s')"
    by (rule ends [of DefaultPollInterval]) (auto simp: WaitForWorkloadUpdated_def split: prod.splits option.splits)
  show "WaitForCondition poll interval timeout condFn s = (None, s') \<Longrightarrow> \<exists>s1. condFn s1 = ((True, None), s')"
    by (rule ends [of interval]) (simp add: WaitForCondition_def)
qed

end
