(* ===== verification/Conditions.thy ===== *)
theory Conditions
  imports WorkloadController NamespaceController
begin

text \<open>
  What a reconciliation keeps of the custom resource it works on. A predicate on the resource that every status
  change of the code preserves (\<open>status_invariant\<close>) holds of the manager's copy throughout and of every status
  that is sent. Two instances: the conditions stay within the schema of the custom resource, and the recording
  duration stays one that a reply can wait for.
\<close>

section \<open>Invariants of the resource\<close>

definition with_status :: "(WorkloadHardeningCheckStatus \<Rightarrow> WorkloadHardeningCheckStatus) \<Rightarrow> WorkloadHardeningCheck \<Rightarrow> WorkloadHardeningCheck" where
  "with_status f x = x\<lparr>whc_Status := f (whc_Status x)\<rparr>"

definition with_conditions :: "(Condition list \<Rightarrow> Condition list) \<Rightarrow> WorkloadHardeningCheckStatus \<Rightarrow> WorkloadHardeningCheckStatus" where
  "with_conditions f st = st\<lparr>st_Conditions := f (st_Conditions st)\<rparr>"

text \<open>
  What the API server answers satisfies \<open>J\<close>, and \<open>J\<close> survives setting a condition with \<open>ok\<close>, the removal of
  conditions, and changes of the rest of the status.
\<close>

definition status_invariant :: "env \<Rightarrow> (Condition \<Rightarrow> bool) \<Rightarrow> (WorkloadHardeningCheck \<Rightarrow> bool) \<Rightarrow> bool" where
  "status_invariant env ok J \<longleftrightarrow>
     (\<forall>tr ns n x. e_GetWHC env tr ns n = Inr x \<longrightarrow> J x)
     \<and> (\<forall>tr x y. e_RefreshWHC env tr x = Inr y \<longrightarrow> J y)
     \<and> (\<forall>tr x y. J x \<and> e_StatusUpdateWHC env tr x = (None, y) \<longrightarrow> J y)
     \<and> (\<forall>sc x. J (with_SecurityContext sc x) = J x)
     \<and> (\<forall>f x. J x \<and> (\<forall>st. st_Conditions (f st) = st_Conditions st) \<longrightarrow> J (with_status f x))
     \<and> (\<forall>now c x. J x \<and> ok c \<longrightarrow> J (with_status (with_conditions (\<lambda>cs. m_Set (e_meta env) now cs c)) x))
     \<and> (\<forall>x. J x \<longrightarrow> J (with_status (with_conditions (filter kept_condition)) x))"

lemma status_invariantD:
  assumes "status_invariant env ok J"
  shows "e_GetWHC env tr ns n = Inr x \<Longrightarrow> J x"
    "e_RefreshWHC env tr x = Inr y \<Longrightarrow> J y"
    "J x \<Longrightarrow> e_StatusUpdateWHC env tr x = (None, y) \<Longrightarrow> J y"
    "J (with_SecurityContext sc x) = J x"
    "J x \<Longrightarrow> (\<And>st. st_Conditions (f st) = st_Conditions st) \<Longrightarrow> J (with_status f x)"
    "J x \<Longrightarrow> ok c \<Longrightarrow> J (with_status (with_conditions (\<lambda>cs. m_Set (e_meta env) now cs c)) x)"
    "J x \<Longrightarrow> J (with_status (with_conditions (filter kept_condition)) x)"
  using assms unfolding status_invariant_def by metis+

text \<open>The calls of an operation that submits nothing and writes only statuses with \<open>J\<close>.\<close>

definition kept :: "(WorkloadHardeningCheck \<Rightarrow> bool) \<Rightarrow> world \<Rightarrow> bool" where
  "kept J w \<longleftrightarrow> J (w_whc w)"

fun writes :: "(WorkloadHardeningCheck \<Rightarrow> bool) \<Rightarrow> event \<Rightarrow> bool" where
  "writes J (EvStatusUpdateWHC y) \<longleftrightarrow> J y"
| "writes J (EvUpdateWHC y) \<longleftrightarrow> False"
| "writes J (EvSubmit i j b) \<longleftrightarrow> False"
| "writes J ev \<longleftrightarrow> True"

lemma kept_simps [simp]:
  "kept J (w\<lparr>w_trace := tr\<rparr>) = kept J w" "kept J (w\<lparr>w_heap := h\<rparr>) = kept J w" "kept J (w\<lparr>w_exec := e\<rparr>) = kept J w"
  "kept J (w\<lparr>w_scaled := wl\<rparr>) = kept J w" "kept J (w\<lparr>w_wl := wl\<rparr>) = kept J w"
  "kept J (fetched x w) = J x" "kept J (decoded x w) = J x"
  "kept J (set_status f w) = J (with_status f (w_whc w))"
  by (simp_all add: kept_def set_status_def with_status_def)

lemma whc_set_status: "w_whc (set_status f w) = with_status f (w_whc w)"
  by (simp add: set_status_def with_status_def)

lemma kept_get_whc:
  assumes "status_invariant env ok J"
  shows "keeps (kept J) (writes J) (get_whc env)"
  using status_invariantD(1) [OF assms] by (auto simp: steps_def run_get_whc Let_def split: sum.splits)

lemma kept_update_status:
  assumes "status_invariant env ok J"
  shows "keeps (kept J) (writes J) (update_status env)"
proof -
  have "J (whc_current w) = kept J w" for w
    by (simp add: whc_current_def kept_def status_invariantD(4) [OF assms])
  then show ?thesis
    using status_invariantD(3) [OF assms]
    by (auto simp: steps_def run_update_status Let_def split: prod.splits option.splits)
qed

lemma kept_Refresh:
  assumes "status_invariant env ok J"
  shows "keeps (kept J) (writes J) (RefreshWorkloadHardeningCheck env)"
  using status_invariantD(2) [OF assms]
  by (auto simp: steps_def RefreshWorkloadHardeningCheck_def run_simps split: sum.splits)

lemma kept_status_change:
  assumes "status_invariant env ok J" "\<And>st. st_Conditions (f st) = st_Conditions st"
  shows "keeps (kept J) P (modify (set_status f))"
  by (rule keeps_modify) (use status_invariantD(5) [OF assms(1), of _ f] assms(2) in \<open>simp_all add: kept_def set_status_def with_status_def\<close>)

lemma kept_manager:
  assumes "J x" shows "steps anywhere P (NewWorkloadCheckManager x) (\<lambda>_. kept J)"
  unfolding NewWorkloadCheckManager_def by (rule steps_modify) (simp add: assms)

lemma kept_SetCondition:
  assumes "status_invariant env ok J" "lawful env" "ok c"
  shows "keeps (kept J) (writes J) (SetCondition env c)"
proof -
  note set = status_invariantD(6) [OF assms(1) _ assms(3), unfolded with_conditions_def]
  show ?thesis
    unfolding SetCondition_def set_condition_attempt_def
    by (intro emits_intros kept_get_whc [OF assms(1)] kept_update_status [OF assms(1)] lawful_laws(2) [OF assms(2)])
      (simp_all add: set kept_def whc_set_status)
qed

lemma kept_set_cond:
  assumes "status_invariant env ok J" "lawful env" "ok (mk_condition t s r m)"
  shows "keeps (kept J) (writes J) (set_cond env t s r m)"
  unfolding set_cond_def by (intro keeps_bind keeps_ret kept_SetCondition [OF assms])

lemma kept_RemoveCheckConditions:
  assumes "status_invariant env ok J" "lawful env"
  shows "keeps (kept J) (writes J) (RemoveCheckConditions env)"
proof -
  note removed = status_invariantD(7) [OF assms(1), unfolded with_conditions_def]
  show ?thesis
    unfolding RemoveCheckConditions_def remove_conditions_attempt_def
    by (intro emits_intros kept_get_whc [OF assms(1)] kept_update_status [OF assms(1)] lawful_laws(2) [OF assms(2)])
      (simp_all add: removed kept_def whc_set_status)
qed

lemma kept_tests:
  assumes "status_invariant env ok J"
  shows "keeps (kept J) (writes J) (BaselineRecorded env)"
    "keeps (kept J) (writes J) (BaselineInProgress env)"
    "keeps (kept J) (writes J) (FinalCheckRecorded env)"
    "keeps (kept J) (writes J) (FinalCheckInProgress env)"
    "keeps (kept J) (writes J) (CheckRecorded env t)"
    "keeps (kept J) (writes J) (CheckInProgress env t)"
  unfolding BaselineRecorded_def BaselineInProgress_def FinalCheckRecorded_def FinalCheckInProgress_def
    CheckRecorded_def CheckInProgress_def
  by (intro emits_intros kept_Refresh [OF assms])+

lemma kept_overdue:
  assumes "keeps (kept J) (writes J) m" shows "keeps (kept J) (writes J) (overdue env m t)"
  unfolding overdue_def by (intro emits_intros assms) simp_all

lemma kept_overdues:
  assumes "status_invariant env ok J"
  shows "keeps (kept J) (writes J) (BaselineOverdue env)"
    "keeps (kept J) (writes J) (FinalCheckOverdue env)"
    "keeps (kept J) (writes J) (CheckOverdue env t)"
  unfolding BaselineOverdue_def FinalCheckOverdue_def CheckOverdue_def
  by (intro kept_overdue kept_tests [OF assms])+

lemma kept_get_workload: "keeps (kept J) (writes J) (GetWorkloadUnderTest env s)"
  unfolding GetWorkloadUnderTest_def get_workload_def by (intro emits_intros) simp_all

lemma kept_template: "keeps (kept J) (writes J) (GetPodSpecTemplate env s)"
  unfolding GetPodSpecTemplate_def by (intro emits_intros kept_get_workload)

lemma kept_recording: "keeps (kept J) (writes J) (GetRecording env k)"
  unfolding GetRecording_def getEntry_def by (intro keeps_bind keeps_ask keeps_case_sum keeps_if keeps_ret) simp_all

lemma kept_load_baselines: "keeps (kept J) (writes J) (load_baselines env da bs la)"
  by (induction bs arbitrary: la)
    (auto intro!: keeps_bind keeps_case_sum keeps_case_option keeps_case_prod keeps_if keeps_ret keeps_map_order kept_recording)

lemma kept_analyze_runs: "keeps (kept J) (writes J) (analyze_runs env da crs la updated)"
  by (induction crs arbitrary: la updated)
    (auto intro!: keeps_bind keeps_attempt keeps_case_sum keeps_case_option keeps_case_prod keeps_ret keeps_gets
      keeps_map_order kept_recording)

lemma kept_AnalyzeCheckRuns:
  assumes "status_invariant env ok J" "lawful env"
  shows "keeps (kept J) (writes J) (AnalyzeCheckRuns env da b)"
  unfolding AnalyzeCheckRuns_def write_check_runs_def Let_def
  by (intro emits_intros kept_get_whc [OF assms(1)] kept_update_status [OF assms(1)] kept_load_baselines kept_analyze_runs
      kept_status_change [OF assms(1)] lawful_laws(2) [OF assms(2)]) simp_all

lemma kept_SetRecommendation:
  assumes "status_invariant env ok J" "lawful env"
  shows "keeps (kept J) (writes J) (SetRecommendation env)"
  unfolding SetRecommendation_def write_recommendation_def Let_def
  by (intro emits_intros kept_get_whc [OF assms(1)] kept_update_status [OF assms(1)] kept_template
      kept_status_change [OF assms(1)] lawful_laws(2) [OF assms(2)]) simp_all

lemma kept_SetBaselineRecorded:
  assumes "status_invariant env ok J" "lawful env"
    "\<And>m. ok (mk_condition ConditionTypeBaseline ConditionTrue ReasonBaselineRecordingFinished m)"
  shows "keeps (kept J) (writes J) (SetBaselineRecorded env)"
  unfolding SetBaselineRecorded_def write_baseline_runs_def
  by (intro emits_intros kept_get_whc [OF assms(1)] kept_update_status [OF assms(1)] kept_SetCondition [OF assms(1,2)]
      kept_status_change [OF assms(1)] lawful_laws(2) [OF assms(2)] assms(3)) simp_all

lemma kept_check_context: "keeps (kept J) (writes J) (GetSecurityContextForCheckType t)"
  unfolding GetSecurityContextForCheckType_def base_context_def Let_def by (intro emits_intros) simp_all

lemma kept_own_pointer: "keeps (kept J) (writes J) (own_pointer sc)"
  unfolding own_pointer_def by (intro emits_intros) simp_all

lemma kept_is_running: "keeps (kept J) (writes J) (is_running env i)"
  unfolding is_running_def completions_def by (intro emits_intros) simp_all

section \<open>The conditions of a reconciliation\<close>

text \<open>The types and reasons of the conditions that the manager and the controller set.\<close>

definition check_types :: "string set" where
  "check_types = dom (map_of GetAllChecks)"

definition condition_types :: "env \<Rightarrow> string set" where
  "condition_types env = {ConditionTypeFinished, ConditionTypeAnalysis, ConditionTypeFinalCheck, ConditionTypeBaseline}
     \<union> check_condition_type env ` check_types"

definition condition_reasons :: "string set" where
  "condition_reasons = {ConditionTypeFinished, ReasonAnalysisFailed, ReasonAnalysisRunning, ReasonAnalysisFinished,
     ReasonRequeue, ''Final'' @ ReasonCheckRecording, ReasonBaselineRecording, ReasonBaselineRecordingFailed,
     ReasonBaselineRecordingFinished, ReasonCheckRecording, ReasonCheckNotStarted}"

definition code_condition :: "env \<Rightarrow> Condition \<Rightarrow> bool" where
  "code_condition env c \<longleftrightarrow> c_Type c \<in> condition_types env \<and> c_Reason c \<in> condition_reasons"

lemma code_condition_mk: "code_condition env (mk_condition t s r m) \<longleftrightarrow> t \<in> condition_types env \<and> r \<in> condition_reasons"
  by (simp add: code_condition_def mk_condition_def)

lemma condition_types [simp]: "ConditionTypeFinished \<in> condition_types env" "ConditionTypeAnalysis \<in> condition_types env"
  "ConditionTypeFinalCheck \<in> condition_types env" "ConditionTypeBaseline \<in> condition_types env"
  "t \<in> check_types \<Longrightarrow> check_condition_type env t \<in> condition_types env"
  by (simp_all add: condition_types_def)

lemma condition_reasons [simp]: "ConditionTypeFinished \<in> condition_reasons" "ReasonAnalysisFailed \<in> condition_reasons"
  "ReasonAnalysisRunning \<in> condition_reasons" "ReasonAnalysisFinished \<in> condition_reasons"
  "ReasonRequeue \<in> condition_reasons" "''Final'' @ ReasonCheckRecording \<in> condition_reasons"
  "ReasonBaselineRecording \<in> condition_reasons" "ReasonBaselineRecordingFailed \<in> condition_reasons"
  "ReasonBaselineRecordingFinished \<in> condition_reasons" "ReasonCheckRecording \<in> condition_reasons"
  "ReasonCheckNotStarted \<in> condition_reasons"
  by (simp_all add: condition_reasons_def)

lemma kept_required_checks:
  assumes "status_invariant env (code_condition env) J" "lawful env" "set found \<subseteq> check_types"
  shows "steps (kept J) (writes J) (required_checks env ps ts found)
    (\<lambda>r w. kept J w \<and> (\<forall>ts. r = Ret ts \<longrightarrow> set ts \<subseteq> check_types))"
  using assms(3)
proof (induction ts arbitrary: found)
  case Nil
  then show ?case by (simp add: steps_ret)
next
  case (Cons t ts)
  show ?case
  proof (cases ps)
    case None
    then show ?thesis by (simp add: steps_ret)
  next
    case (Some p)
    show ?thesis
    proof (cases "map_of GetAllChecks t")
      case None
      then show ?thesis by (simp add: Some steps_ret)
    next
      case (Some check)
      have type: "GetType check = t" using GetType_registered [OF Some] .
      have t: "t \<in> check_types" using Some by (auto simp: check_types_def)
      then have found: "set (List.insert t found) \<subseteq> check_types" using Cons.prems by simp
      have set: "keeps (kept J) (writes J) (SetCondition env (mk_condition (check_condition_type env t) ConditionUnknown
          ReasonCheckNotStarted m))" for m
        by (rule kept_SetCondition [OF assms(1,2)]) (simp add: code_condition_mk t)
      show ?thesis
        using \<open>ps = Some p\<close> Some
        by (simp add: type Let_def del: List.set_insert)
          (intro conjI impI steps_bind [OF keeps_gets] keeps_if steps_bind [OF set]
            Cons.IH [of found, unfolded \<open>ps = Some p\<close>] Cons.IH [OF found, unfolded \<open>ps = Some p\<close>] Cons.prems)
    qed
  qed
qed

lemma kept_GetRequiredCheckRuns:
  assumes "status_invariant env (code_condition env) J" "lawful env" "\<And>tr. is_order (e_order env tr)"
  shows "steps (kept J) (writes J) (GetRequiredCheckRuns env)
    (\<lambda>r w. kept J w \<and> (\<forall>ts. r = Ret ts \<longrightarrow> set ts \<subseteq> check_types))"
proof -
  have order: "steps (kept J) (writes J) (map_order env) (\<lambda>ord w. kept J w \<and> is_order ord)"
    unfolding map_order_def by (rule steps_gets) (simp add: assms(3))
  show ?thesis
    unfolding GetRequiredCheckRuns_def Let_def
  proof (intro steps_bind [OF keeps_gets] steps_bind [OF kept_get_workload] keeps_case_sum)
    fix ord wl
    show "steps (kept J) (writes J) (ret (Ret [])) (\<lambda>r w. kept J w \<and> (\<forall>ts. r = Ret ts \<longrightarrow> set ts \<subseteq> check_types))"
      by (rule steps_ret) simp
    show "steps (kept J) (writes J) (map_order env \<bind> (\<lambda>ord. attempt (required_checks env
        (if wl_Kind wl \<in> {Deployment, StatefulSet, DaemonSet} then Some (wl_Template wl) else None)
        (ord (gm_keys GetAllChecks)) []) (\<lambda>found. map_order env \<bind> (\<lambda>ord'. ret (Ret (ord' found))))))
      (\<lambda>r w. kept J w \<and> (\<forall>ts. r = Ret ts \<longrightarrow> set ts \<subseteq> check_types))" for wl
    proof (rule steps_bind [OF keeps_map_order], rule steps_attempt_fact [OF kept_required_checks [OF assms(1,2)]])
      fix ts :: "string list"
      assume "set ts \<subseteq> check_types"
      then show "steps (kept J) (writes J) (map_order env \<bind> (\<lambda>ord'. ret (Ret (ord' ts))))
          (\<lambda>r w. kept J w \<and> (\<forall>ts. r = Ret ts \<longrightarrow> set ts \<subseteq> check_types))"
        by (intro steps_bind_fact [OF order] steps_ret) (simp add: is_order_set)
    qed simp_all
  qed
qed

lemma kept_all_recorded:
  assumes "status_invariant env ok J" shows "keeps (kept J) (writes J) (all_recorded env ts)"
  by (induction ts) (auto intro!: keeps_ret keeps_attempt keeps_if kept_tests [OF assms])

lemma kept_AllChecksFinished:
  assumes "status_invariant env (code_condition env) J" "lawful env" "\<And>tr. is_order (e_order env tr)"
  shows "keeps (kept J) (writes J) (AllChecksFinished env)"
proof -
  have "keeps (kept J) (writes J) (GetRequiredCheckRuns env)"
    by (rule steps_weaken [OF kept_GetRequiredCheckRuns [OF assms]]) simp_all
  then show ?thesis
    unfolding AllChecksFinished_def
    by (intro emits_intros kept_Refresh [OF assms(1)] kept_tests [OF assms(1)] kept_all_recorded [OF assms(1)])
qed

section \<open>Stages\<close>

text \<open>
  A reconciliation is \<open>calm\<close> as long as it has submitted nothing beyond the \<open>k\<close> submissions before it. A stage
  may submit only if its reply then satisfies \<open>L\<close>.
\<close>

fun is_submit :: "event \<Rightarrow> bool" where
  "is_submit (EvSubmit i j b) \<longleftrightarrow> True"
| "is_submit _ \<longleftrightarrow> False"

definition submissions :: "trace \<Rightarrow> nat" where
  "submissions tr = length (filter is_submit tr)"

definition calm :: "(WorkloadHardeningCheck \<Rightarrow> bool) \<Rightarrow> nat \<Rightarrow> world \<Rightarrow> bool" where
  "calm J k w \<longleftrightarrow> kept J w \<and> submissions (w_trace w) = k"

fun states :: "(WorkloadHardeningCheck \<Rightarrow> bool) \<Rightarrow> event \<Rightarrow> bool" where
  "states J (EvStatusUpdateWHC y) \<longleftrightarrow> J y"
| "states J ev \<longleftrightarrow> True"

definition settled :: "(WorkloadHardeningCheck \<Rightarrow> bool) \<Rightarrow> (reply \<Rightarrow> bool) \<Rightarrow> nat \<Rightarrow> reply option outcome \<Rightarrow> world \<Rightarrow> bool" where
  "settled J L k r w \<longleftrightarrow> kept J w \<and> (case r of
     Ret None \<Rightarrow> submissions (w_trace w) = k
   | Ret (Some v) \<Rightarrow> submissions (w_trace w) = k \<or> L v
   | _ \<Rightarrow> True)"

definition answered :: "(WorkloadHardeningCheck \<Rightarrow> bool) \<Rightarrow> (reply \<Rightarrow> bool) \<Rightarrow> nat \<Rightarrow> reply outcome \<Rightarrow> world \<Rightarrow> bool" where
  "answered J L k r w \<longleftrightarrow> kept J w \<and> (\<forall>v. r = Ret v \<longrightarrow> submissions (w_trace w) = k \<or> L v)"

definition replies :: "(WorkloadHardeningCheck \<Rightarrow> bool) \<Rightarrow> (reply \<Rightarrow> bool) \<Rightarrow> reply outcome \<Rightarrow> world \<Rightarrow> bool" where
  "replies J L r w \<longleftrightarrow> kept J w \<and> (\<forall>v. r = Ret v \<longrightarrow> L v)"

definition waits :: "env \<Rightarrow> (WorkloadHardeningCheck \<Rightarrow> bool) \<Rightarrow> (reply \<Rightarrow> bool) \<Rightarrow> bool" where
  "waits env J L \<longleftrightarrow> (\<forall>x. J x \<longrightarrow> L (requeue_after (GetCheckDuration env x + dur (10 * Second)))
     \<and> L (requeue_after (GetCheckDuration env x + dur (30 * Second)))) \<and> L (requeue_after (dur (30 * Second)))"

lemma states_writes: "writes J ev \<Longrightarrow> states J ev"
  by (cases ev) simp_all

lemma writes_not_submit: "writes J ev \<Longrightarrow> \<not> is_submit ev"
  by (cases ev) simp_all

lemma calm_keeps:
  assumes "keeps (kept J) (writes J) m"
  shows "keeps (calm J k) (states J) m"
  unfolding steps_def
proof (intro allI impI)
  fix w assume c: "calm J k w"
  then obtain evs where evs: "w_trace (snd (run_state m w)) = w_trace w @ evs" "\<forall>ev \<in> set evs. writes J ev"
    and J: "kept J (snd (run_state m w))"
    using assms unfolding steps_def calm_def by blast
  then have "filter is_submit evs = []" by (auto simp: filter_empty_conv dest: writes_not_submit)
  with evs J c show "(\<exists>evs. w_trace (snd (run_state m w)) = w_trace w @ evs \<and> (\<forall>ev \<in> set evs. states J ev))
      \<and> calm J k (snd (run_state m w))"
    by (auto simp: calm_def submissions_def dest: states_writes)
qed

lemma kept_states: "keeps (kept J) (writes J) m \<Longrightarrow> keeps (kept J) (states J) m"
  by (erule steps_weaken) (simp_all add: states_writes)

lemma calm_kept: "steps (kept J) P m Q \<Longrightarrow> steps (calm J k) P m Q"
  by (erule steps_weaken) (simp_all add: calm_def)

lemma steps_attempt:
  assumes "steps I P m (\<lambda>_. R)" "\<And>x. steps R P (f x) Q" "\<And>p w. R w \<Longrightarrow> Q (Panic p) w" "\<And>w. R w \<Longrightarrow> Q NoReturn w"
  shows "steps I P (attempt m f) Q"
  unfolding attempt_def by (rule steps_bind [OF assms(1)]) (intro keeps_case_outcome assms(2) steps_ret assms(3,4))

lemma quiet_stage: "keeps (kept J) (writes J) s \<Longrightarrow> steps (calm J k) (states J) s (settled J L k)"
  by (drule calm_keeps [of J s k], erule steps_weaken)
    (auto simp: settled_def calm_def split: outcome.splits option.splits)

lemma steps_or_else:
  assumes "steps (calm J k) P s (settled J L k)" "steps (calm J k) P rest (answered J L k)"
  shows "steps (calm J k) P (or_else s rest) (answered J L k)"
  unfolding or_else_def attempt_def
proof (rule steps_bind [OF assms(1)])
  fix r :: "reply option outcome"
  consider v where "r = Ret (Some v)" | "r = Ret None" | p where "r = Panic p" | "r = NoReturn"
    by (metis option.exhaust outcome.exhaust)
  then show "steps (settled J L k r) P
      (case r of Ret x \<Rightarrow> (case x of Some v \<Rightarrow> ret (Ret v) | None \<Rightarrow> rest) | Panic m \<Rightarrow> ret (Panic m) | NoReturn \<Rightarrow> ret NoReturn)
      (answered J L k)"
  proof cases
    case 2
    then show ?thesis using assms(2) by (auto simp: settled_def calm_def elim!: steps_weaken)
  qed (auto intro!: steps_ret simp: settled_def answered_def)
qed

text \<open>The last step of a stage that has submitted.\<close>

lemma waits_next_round:
  assumes "waits env J L" "n = 10 \<or> n = 30"
  shows "steps (kept J) P (next_round env n \<bind> reply_with) (settled J L k)"
    "steps (kept J) P (next_round env n \<bind> (\<lambda>v. ret (Ret v))) (replies J L)"
proof -
  have "steps (kept J) P (next_round env n) (\<lambda>v w. kept J w \<and> L v)"
    unfolding next_round_def
    by (rule steps_gets) (use assms in \<open>auto simp: waits_def kept_def\<close>)
  then show "steps (kept J) P (next_round env n \<bind> reply_with) (settled J L k)"
    "steps (kept J) P (next_round env n \<bind> (\<lambda>v. ret (Ret v))) (replies J L)"
    unfolding reply_with_def
    by (rule steps_bind_fact; auto intro!: steps_ret simp: settled_def replies_def)+
qed

lemma kept_submit: "keeps (kept J) (states J) (submit env i job)"
  unfolding submit_def completions_def by (intro emits_intros) simp_all

lemma kept_submits:
  "keeps (kept J) (states J) (submit_final env x sc)"
  "keeps (kept J) (states J) (submit_check env x t)"
  "keeps (kept J) (states J) (submit_baseline env x t scp d)"
  unfolding submit_final_def submit_check_def submit_baseline_def
  by (intro keeps_bind keeps_attempt keeps_if keeps_ret kept_submit kept_states [OF kept_own_pointer]
      kept_states [OF kept_check_context] kept_states [OF kept_is_running])+

section \<open>The stages of a reconciliation\<close>

lemma kept_end_stages:
  assumes "status_invariant env (code_condition env) J" "lawful env" "\<And>tr. is_order (e_order env tr)"
  shows "keeps (kept J) (writes J) (finish_recorded env)"
    "keeps (kept J) (writes J) (analyze_finished env da b x)"
    "keeps (kept J) (writes J) (await_final env)"
    "keeps (kept J) (writes J) (await_baseline env)"
    "keeps (kept J) (writes J) (use_reference env x)"
    "keeps (kept J) (writes J) (abort_failed_baseline env x)"
proof -
  note ops = kept_set_cond [OF assms(1,2)] kept_SetCondition [OF assms(1,2)] kept_tests [OF assms(1)]
    kept_overdues [OF assms(1)] kept_RemoveCheckConditions [OF assms(1,2)] kept_AllChecksFinished [OF assms]
    kept_AnalyzeCheckRuns [OF assms(1,2)] kept_SetRecommendation [OF assms(1,2)] kept_SetBaselineRecorded [OF assms(1,2)]
  show "keeps (kept J) (writes J) (finish_recorded env)"
    unfolding finish_recorded_def
    by (intro keeps_bind keeps_gets keeps_attempt keeps_if keeps_case_option keeps_replies ops) (simp_all add: code_condition_mk)
  show "keeps (kept J) (writes J) (analyze_finished env da b x)"
    unfolding analyze_finished_def run_analysis_def analysis_failed_def
    by (intro keeps_bind keeps_gets keeps_attempt keeps_if keeps_case_option keeps_replies ops) (simp_all add: code_condition_mk)
  show "keeps (kept J) (writes J) (await_final env)"
    unfolding await_final_def half_round_def
    by (intro keeps_bind keeps_gets keeps_attempt keeps_if keeps_case_option keeps_replies ops) (simp_all add: code_condition_mk)
  show "keeps (kept J) (writes J) (await_baseline env)"
    unfolding await_baseline_def
    by (intro keeps_bind keeps_gets keeps_attempt keeps_if keeps_case_option keeps_replies ops) (simp_all add: code_condition_mk)
  show "keeps (kept J) (writes J) (use_reference env x)"
    unfolding use_reference_def
    by (intro keeps_bind keeps_gets keeps_attempt keeps_if keeps_case_option keeps_replies ops) (simp_all add: code_condition_mk)
  show "keeps (kept J) (writes J) (abort_failed_baseline env x)"
    unfolding abort_failed_baseline_def
    by (intro keeps_bind keeps_gets keeps_attempt keeps_if keeps_case_option keeps_replies ops) (simp_all add: code_condition_mk)
qed

lemma settled_simps [simp]: "kept J w \<Longrightarrow> settled J L k (Panic p) w" "kept J w \<Longrightarrow> settled J L k NoReturn w"
  "calm J k w \<Longrightarrow> settled J L k (Ret None) w" "calm J k w \<Longrightarrow> settled J L k r w" "calm J k w \<Longrightarrow> kept J w"
  by (auto simp: settled_def calm_def split: outcome.splits option.splits)

lemma quiet_reply: "steps (calm J k) P (reply_with v) (settled J L k)" "steps (calm J k) P go_on (settled J L k)"
  unfolding reply_with_def go_on_def by (rule steps_ret, simp)+

lemma final_stages:
  assumes "status_invariant env (code_condition env) J" "lawful env" "waits env J L"
  shows "steps (calm J k) (states J) (retry_final env x) (settled J L k)"
    "steps (calm J k) (states J) (start_final env x) (settled J L k)"
proof -
  have submit: "steps (calm J k) (states J) (submit_final env x sc) (\<lambda>_. kept J)" for sc
    by (rule calm_kept [OF kept_submits(1)])
  have round: "steps (kept J) (states J) (next_round env 10 \<bind> reply_with) (settled J L k)"
    by (rule waits_next_round [OF assms(3)]) simp
  show "steps (calm J k) (states J) (retry_final env x) (settled J L k)"
    unfolding retry_final_def half_round_def
    by (intro keeps_if steps_bind [OF calm_keeps [OF kept_is_running]] steps_bind [OF keeps_gets] quiet_reply
        steps_attempt [OF submit] round) simp_all
  have recorded: "keeps (calm J k) (states J) (FinalCheckRecorded env)"
    by (rule calm_keeps [OF kept_tests(3) [OF assms(1)]])
  have started: "steps (calm J k) (states J) (if running then ret (Ret ()) else submit_final env x sc) (\<lambda>_. kept J)" for running sc
    by (intro keeps_if submit steps_ret) simp
  have set: "keeps (kept J) (states J) (set_cond env ConditionTypeFinished ConditionFalse (''Final'' @ ReasonCheckRecording) m)" for m
    by (rule kept_states [OF kept_set_cond [OF assms(1,2)]]) (simp only: code_condition_mk condition_types condition_reasons simp_thms)
  show "steps (calm J k) (states J) (start_final env x) (settled J L k)"
    unfolding start_final_def
    by (intro steps_bind [OF keeps_gets] keeps_if quiet_reply steps_attempt [OF recorded]
        steps_bind [OF calm_keeps [OF kept_is_running]] steps_attempt [OF started] steps_bind [OF set] round) simp_all
qed

lemma record_baseline:
  assumes "status_invariant env (code_condition env) J" "lawful env" "waits env J L"
  shows "steps (kept J) (states J) (recordBaseline env x) (replies J L)"
proof -
  have set: "keeps (kept J) (states J) (set_cond env ConditionTypeFinished ConditionFalse ReasonBaselineRecording m)" for m
    by (rule kept_states [OF kept_set_cond [OF assms(1,2)]]) (simp add: code_condition_mk)
  show ?thesis
    unfolding recordBaseline_def
    by (intro steps_bind [OF kept_states [OF kept_own_pointer]] steps_attempt [OF kept_submits(3)] steps_bind [OF set]
        waits_next_round [OF assms(3)]) (simp_all add: replies_def)
qed

lemma replies_settled:
  assumes "steps (kept J) (states J) m (replies J L)"
  shows "steps (calm J k) (states J) (attempt m reply_with) (settled J L k)"
  unfolding attempt_def reply_with_def
  by (rule calm_kept, rule steps_bind [OF assms])
    (auto intro!: keeps_case_outcome steps_ret simp: replies_def settled_def)

lemma start_baseline_stage:
  assumes "status_invariant env (code_condition env) J" "lawful env" "waits env J L"
  shows "steps (calm J k) (states J) (start_baseline env x) (settled J L k)"
  unfolding start_baseline_def
  by (intro steps_attempt [OF calm_keeps [OF kept_tests(1) [OF assms(1)]]] keeps_if quiet_reply
      replies_settled [OF record_baseline [OF assms]]) simp_all

lemma kept_mark_overdue:
  assumes "status_invariant env (code_condition env) J" "lawful env" "t \<in> check_types"
  shows "keeps (kept J) (writes J) (mark_overdue env t m)"
  unfolding mark_overdue_def check_condition_type_def [symmetric]
  by (rule kept_set_cond [OF assms(1,2)]) (simp add: code_condition_mk assms(3))

lemma kept_parallel_check:
  assumes "status_invariant env (code_condition env) J" "lawful env" "t \<in> check_types"
  shows "keeps (kept J) (states J) (parallel_check env x t)"
  unfolding parallel_check_def start_parallel_def note_crashed_def
  by (intro keeps_bind keeps_attempt keeps_if keeps_ret kept_submits kept_states [OF kept_tests(5) [OF assms(1)]]
      kept_states [OF kept_tests(6) [OF assms(1)]] kept_states [OF kept_overdues(3) [OF assms(1)]]
      kept_states [OF kept_is_running] kept_states [OF kept_mark_overdue [OF assms]])

lemma kept_parallel_checks:
  assumes "status_invariant env (code_condition env) J" "lawful env" "set ts \<subseteq> check_types"
  shows "keeps (kept J) (states J) (parallel_checks env x ts)"
  using assms(3) by (induction ts) (simp_all add: keeps_ret keeps_attempt kept_parallel_check [OF assms(1,2)])

lemma start_sequential_replies:
  assumes "waits env J L"
  shows "steps (kept J) (states J) (start_sequential env x t) (replies J L)"
  unfolding start_sequential_def
  by (intro steps_attempt [OF kept_submits(2)] waits_next_round [OF assms]) (simp_all add: replies_def)

lemma sequential_replies:
  assumes "status_invariant env (code_condition env) J" "lawful env" "waits env J L" "set ts \<subseteq> check_types"
  shows "steps (kept J) (states J) (sequential_checks env x ts) (replies J L)"
  using assms(4)
proof (induction ts)
  case Nil
  have "L (requeue_after (dur (30 * Second)))" using assms(3) unfolding waits_def by (elim conjE)
  then show ?case unfolding sequential_checks.simps by (intro steps_ret) (simp add: replies_def)
next
  case (Cons t ts)
  then have t: "t \<in> check_types" and ts: "steps (kept J) (states J) (sequential_checks env x ts) (replies J L)" by simp_all
  show ?case unfolding sequential_checks.simps
    by (intro steps_attempt [OF kept_states [OF kept_tests(5) [OF assms(1)]]] keeps_if ts
        steps_bind [OF kept_states [OF kept_is_running]] start_sequential_replies [OF assms(3)]
        steps_attempt [OF kept_states [OF kept_overdues(3) [OF assms(1)]]]
        steps_bind [OF kept_states [OF kept_mark_overdue [OF assms(1,2) t]]] waits_next_round [OF assms(3)])
      (simp_all add: replies_def)
qed

lemma recordChecks_replies:
  assumes "status_invariant env (code_condition env) J" "lawful env" "waits env J L" "\<And>tr. is_order (e_order env tr)"
  shows "steps (kept J) (states J) (recordChecks env x) (replies J L)"
proof -
  have required: "steps (kept J) (states J) (GetRequiredCheckRuns env)
      (\<lambda>r w. kept J w \<and> (\<forall>ts. r = Ret ts \<longrightarrow> set ts \<subseteq> check_types))"
    by (rule steps_weaken [OF kept_GetRequiredCheckRuns [OF assms(1,2,4)]]) (simp_all add: states_writes)
  have set: "keeps (kept J) (states J) (set_cond env ConditionTypeFinished ConditionFalse ReasonCheckRecording m)" for m
    by (rule kept_states [OF kept_set_cond [OF assms(1,2)]]) (simp add: code_condition_mk)
  show ?thesis
    unfolding recordChecks_def
  proof (rule steps_attempt_fact [OF required])
    fix ts
    assume ts: "set ts \<subseteq> check_types"
    show "steps (kept J) (states J) (set_cond env ConditionTypeFinished ConditionFalse ReasonCheckRecording
          ''Check recording started'' \<bind> (\<lambda>_. if spec_RunMode (whc_Spec x) = RunModeParallel
            then attempt (parallel_checks env x ts) (\<lambda>_. next_round env 10 \<bind> (\<lambda>v. ret (Ret v)))
            else sequential_checks env x ts)) (replies J L)"
      by (intro steps_bind [OF set] keeps_if steps_attempt [OF kept_parallel_checks [OF assms(1,2) ts]]
          waits_next_round [OF assms(3)] sequential_replies [OF assms(1-3) ts]) (simp_all add: replies_def)
  qed (simp_all add: replies_def)
qed

lemma record_missing_stage:
  assumes "status_invariant env (code_condition env) J" "lawful env" "waits env J L" "\<And>tr. is_order (e_order env tr)"
  shows "steps (calm J k) (states J) (record_missing env x) (settled J L k)"
  unfolding record_missing_def
  by (intro steps_attempt [OF calm_keeps [OF kept_tests(1) [OF assms(1)]]] keeps_if quiet_reply
      steps_attempt [OF calm_keeps [OF kept_AllChecksFinished [OF assms(1,2,4)]]]
      replies_settled [OF recordChecks_replies [OF assms]]) simp_all

lemma reconcile_checks_answered:
  assumes "status_invariant env (code_condition env) J" "lawful env" "waits env J L" "\<And>tr. is_order (e_order env tr)" "J x"
  shows "steps (\<lambda>w. submissions (w_trace w) = k) (states J) (reconcile_checks env da b x) (answered J L k)"
proof -
  have manager: "steps (\<lambda>w. submissions (w_trace w) = k) (states J) (NewWorkloadCheckManager x) (\<lambda>_. calm J k)"
    unfolding NewWorkloadCheckManager_def by (rule steps_modify) (simp add: calm_def assms(5))
  have fall: "steps (calm J k) (states J) (ret (Ret finished_reply)) (answered J L k)"
    by (rule steps_ret) (simp add: answered_def calm_def)
  show ?thesis
    unfolding reconcile_checks_def
    by (intro steps_bind [OF manager] steps_or_else quiet_stage kept_end_stages [OF assms(1,2,4)]
        final_stages [OF assms(1-3)] start_baseline_stage [OF assms(1-3)] record_missing_stage [OF assms(1-4)] fall)
qed

section \<open>The whole reconciliation\<close>

lemma reconcile_answered:
  assumes "status_invariant env (code_condition env) J" "lawful env" "waits env J L" "\<And>tr. is_order (e_order env tr)"
    "e_GetWHC env (w_trace w) ns n = Inr x" "whc_DeletionTimestamp x = None"
  shows "\<exists>evs. w_trace (snd (run_state (Reconcile env da b ns n) w)) = w_trace w @ EvGetWHC ns n # evs \<and> (\<forall>ev \<in> set evs. states J ev)"
    "run_state (Reconcile env da b ns n) w = (Ret v, w') \<Longrightarrow> submissions (w_trace w') = submissions (w_trace w) \<or> L v"
proof -
  let ?k = "submissions (w_trace w)" and ?w = "w\<lparr>w_trace := w_trace w @ [EvGetWHC ns n]\<rparr>"
  define Q where "Q r w \<longleftrightarrow> (\<forall>v. r = Ret v \<longrightarrow> submissions (w_trace w) = ?k \<or> L v)" for r and w :: world
  have k: "submissions (w_trace ?w) = ?k" by (simp add: submissions_def)
  have checks: "steps (\<lambda>w. submissions (w_trace w) = ?k) (states J) (reconcile_checks env da b x) Q"
    by (rule steps_weaken [OF reconcile_checks_answered [OF assms(1-4) status_invariantD(1) [OF assms(1,5)]]])
      (auto simp: answered_def Q_def)
  have finalizer: "steps (\<lambda>w. submissions (w_trace w) = ?k) (states J) (add_finalizer env x) Q"
    by (auto simp: steps_def add_finalizer_def update_whc_def run_simps Q_def submissions_def split: option.splits)
  have "steps (\<lambda>w. submissions (w_trace w) = ?k) (states J) (reconcile_fetched env da b x) Q"
    unfolding reconcile_fetched_def Let_def assms(6)
    by (simp add: checks finalizer) (auto intro!: steps_ret simp: Q_def)
  note fetched = this
  show "\<exists>evs. w_trace (snd (run_state (Reconcile env da b ns n) w)) = w_trace w @ EvGetWHC ns n # evs \<and> (\<forall>ev \<in> set evs. states J ev)"
    using stepsD_trace [OF fetched k] by (auto simp: Reconcile_found [OF assms(5)])
  show "run_state (Reconcile env da b ns n) w = (Ret v, w') \<Longrightarrow> submissions (w_trace w') = ?k \<or> L v"
    using stepsD_post [OF fetched k] by (simp add: Reconcile_found [OF assms(5)] Q_def)
qed

section \<open>The conditions stay within the schema\<close>

text \<open>
  The schema of a condition in \<open>config/crd\<close>: the pattern of its type, an optional DNS subdomain with a slash
  before a qualified name of at most 316 characters in all, and that of its reason, 1 to 1024 characters.
\<close>

definition in_range :: "char \<Rightarrow> char \<Rightarrow> char \<Rightarrow> bool" where
  "in_range a b c \<longleftrightarrow> (of_char a :: nat) \<le> of_char c \<and> (of_char c :: nat) \<le> of_char b"

definition letter :: "char \<Rightarrow> bool" where
  "letter c \<longleftrightarrow> in_range (CHR ''a'') (CHR ''z'') c \<or> in_range (CHR ''A'') (CHR ''Z'') c"

definition alnum :: "char \<Rightarrow> bool" where
  "alnum c \<longleftrightarrow> letter c \<or> in_range (CHR ''0'') (CHR ''9'') c"

definition lower_alnum :: "char \<Rightarrow> bool" where
  "lower_alnum c \<longleftrightarrow> in_range (CHR ''a'') (CHR ''z'') c \<or> in_range (CHR ''0'') (CHR ''9'') c"

definition bounded_by :: "(char \<Rightarrow> bool) \<Rightarrow> (char \<Rightarrow> bool) \<Rightarrow> (char \<Rightarrow> bool) \<Rightarrow> string \<Rightarrow> bool" where
  "bounded_by first inner final s \<longleftrightarrow> s \<noteq> [] \<and> first (hd s) \<and> list_all inner s \<and> final (last s)"

definition dns_subdomain :: "string \<Rightarrow> bool" where
  "dns_subdomain s \<longleftrightarrow> list_all (bounded_by lower_alnum (\<lambda>c. lower_alnum c \<or> c = CHR ''-'') lower_alnum) (str_split (CHR ''.'') s)"

definition qualified_name :: "string \<Rightarrow> bool" where
  "qualified_name = bounded_by alnum (\<lambda>c. alnum c \<or> c \<in> {CHR ''-'', CHR ''_'', CHR ''.''}) alnum"

definition type_admitted :: "string \<Rightarrow> bool" where
  "type_admitted s \<longleftrightarrow> length s \<le> 316 \<and> (case str_split (CHR ''/'') s of
     [n] \<Rightarrow> qualified_name n
   | [d, n] \<Rightarrow> dns_subdomain d \<and> qualified_name n
   | _ \<Rightarrow> False)"

definition reason_admitted :: "string \<Rightarrow> bool" where
  "reason_admitted s \<longleftrightarrow> length s \<le> 1024
     \<and> bounded_by letter (\<lambda>c. alnum c \<or> c \<in> {CHR ''_'', CHR '','', CHR '':''}) (\<lambda>c. alnum c \<or> c = CHR ''_'') s"

definition conditions_admitted :: "WorkloadHardeningCheck \<Rightarrow> bool" where
  "conditions_admitted x \<longleftrightarrow> list_all (\<lambda>c. type_admitted (c_Type c) \<and> reason_admitted (c_Reason c)) (whc_Conditions x)"

text \<open>
  Documented behaviour that the property needs: what the API server answers has passed the schema;
  \<open>SetStatusCondition\<close> takes type and reason of a condition from the list or from the new condition; and the title
  case of a word of letters is a word of letters of the same length.
\<close>

definition schema_enforced :: "env \<Rightarrow> bool" where
  "schema_enforced env \<longleftrightarrow> (\<forall>tr ns n x. e_GetWHC env tr ns n = Inr x \<longrightarrow> conditions_admitted x)
     \<and> (\<forall>tr x y. e_RefreshWHC env tr x = Inr y \<longrightarrow> conditions_admitted y)"

definition set_laws :: "meta_api \<Rightarrow> bool" where
  "set_laws m \<longleftrightarrow> (\<forall>now cs c c'. c' \<in> set (m_Set m now cs c) \<longrightarrow>
     (\<exists>d \<in> set (c # cs). c_Type c' = c_Type d \<and> c_Reason c' = c_Reason d))"

definition title_laws :: "(string \<Rightarrow> string) \<Rightarrow> bool" where
  "title_laws f \<longleftrightarrow> (\<forall>s. list_all letter s \<longrightarrow> list_all letter (f s) \<and> length (f s) = length s)"

lemma letter_alnum: "letter c \<Longrightarrow> alnum c \<and> c \<noteq> CHR ''/''"
proof -
  have "\<not> letter (CHR ''/'')" by (simp add: letter_def in_range_def)
  then show "letter c \<Longrightarrow> alnum c \<and> c \<noteq> CHR ''/''" by (metis alnum_def)
qed

lemma letters_admitted:
  assumes "list_all letter s" "s \<noteq> []" "length s \<le> 316"
  shows "type_admitted s" "reason_admitted s"
proof -
  have sep: "CHR ''/'' \<notin> set s" using assms(1) letter_alnum unfolding list_all_iff by blast
  have ends: "letter (hd s)" "letter (last s)" using assms(1,2) by (simp_all add: list_all_iff)
  have inner: "list_all P s" if "\<And>c. letter c \<Longrightarrow> P c" for P
    by (rule list.pred_mono_strong [OF assms(1)]) (rule that)
  have "qualified_name s"
    unfolding qualified_name_def bounded_by_def
    by (intro conjI assms(2) letter_alnum [THEN conjunct1] ends inner disjI1)
  then show "type_admitted s" using assms(3) by (simp add: type_admitted_def str_split_no_sep [OF sep])
  show "reason_admitted s"
    unfolding reason_admitted_def bounded_by_def
    by (intro conjI assms(2) ends inner disjI1 letter_alnum [THEN conjunct1] order_trans [OF assms(3)]) simp
qed

lemma check_types_letters:
  assumes "t \<in> check_types" shows "list_all letter t" "t \<noteq> []" "length t \<le> 64"
proof -
  have "t \<in> {''user'', ''group'', ''readOnlyRootFilesystem'', ''allowPrivilegeEscalation'', ''dropAllCapabilities''}"
    using assms unfolding check_types_def dom_map_of_conv_image_fst GetAllChecks_eq by simp blast
  then show "list_all letter t" "t \<noteq> []" "length t \<le> 64"
    by (elim insertE emptyE; simp add: letter_def in_range_def)+
qed

lemma code_condition_admitted:
  assumes "title_laws (e_title env)" "code_condition env c"
  shows "type_admitted (c_Type c)" "reason_admitted (c_Reason c)"
proof -
  have "list_all letter (c_Type c) \<and> c_Type c \<noteq> [] \<and> length (c_Type c) \<le> 316"
  proof (cases "c_Type c \<in> check_condition_type env ` check_types")
    case True
    then obtain t where t: "t \<in> check_types" "c_Type c = e_title env t @ ConditionTypeCheck"
      by (auto simp: check_condition_type_def)
    have "list_all letter (e_title env t)" "length (e_title env t) = length t"
      using assms(1) check_types_letters(1) [OF t(1)] by (simp_all add: title_laws_def)
    then show ?thesis using check_types_letters(3) [OF t(1)]
      by (simp add: t(2) ConditionTypeCheck_def letter_def in_range_def)
  next
    case False
    then have "c_Type c \<in> {ConditionTypeFinished, ConditionTypeAnalysis, ConditionTypeFinalCheck, ConditionTypeBaseline}"
      using assms(2) by (simp add: code_condition_def condition_types_def)
    then show ?thesis
      by (elim insertE emptyE; simp add: ConditionTypeFinished_def ConditionTypeAnalysis_def ConditionTypeFinalCheck_def
          ConditionTypeBaseline_def letter_def in_range_def)
  qed
  then show "type_admitted (c_Type c)" using letters_admitted by blast
  have "list_all letter (c_Reason c) \<and> c_Reason c \<noteq> [] \<and> length (c_Reason c) \<le> 316"
    using assms(2) unfolding code_condition_def condition_reasons_def
    by (elim conjE insertE emptyE; simp add: ConditionTypeFinished_def ReasonAnalysisFailed_def ReasonAnalysisRunning_def
        ReasonAnalysisFinished_def ReasonRequeue_def ReasonCheckRecording_def ReasonBaselineRecording_def
        ReasonBaselineRecordingFailed_def ReasonBaselineRecordingFinished_def ReasonCheckNotStarted_def letter_def in_range_def)
  then show "reason_admitted (c_Reason c)" using letters_admitted by blast
qed

lemma conditions_admitted_invariant:
  assumes "schema_enforced env" "status_echo env" "set_laws (e_meta env)" "title_laws (e_title env)"
  shows "status_invariant env (code_condition env) conditions_admitted"
  unfolding status_invariant_def
proof (intro conjI allI impI; (elim conjE)?)
  fix tr ns n x assume "e_GetWHC env tr ns n = Inr x"
  then show "conditions_admitted x" using assms(1) by (simp add: schema_enforced_def)
next
  fix tr x y assume "e_RefreshWHC env tr x = Inr y"
  then show "conditions_admitted y" using assms(1) by (simp add: schema_enforced_def)
next
  fix tr x y assume "conditions_admitted x" "e_StatusUpdateWHC env tr x = (None, y)"
  then show "conditions_admitted y" using assms(2) by (simp add: conditions_admitted_def status_echo_def)
next
  fix now c x assume x: "conditions_admitted x" and c: "code_condition env c"
  have "type_admitted (c_Type c') \<and> reason_admitted (c_Reason c')"
    if c': "c' \<in> set (m_Set (e_meta env) now (whc_Conditions x) c)" for c'
  proof -
    obtain d where d: "d \<in> set (c # whc_Conditions x)" "c_Type c' = c_Type d" "c_Reason c' = c_Reason d"
      using assms(3) c' unfolding set_laws_def by blast
    then show ?thesis using x code_condition_admitted [OF assms(4) c] by (auto simp: conditions_admitted_def list_all_iff)
  qed
  then show "conditions_admitted (with_status (with_conditions (\<lambda>cs. m_Set (e_meta env) now cs c)) x)"
    by (simp add: conditions_admitted_def list_all_iff with_status_def with_conditions_def)
qed (auto simp: conditions_admitted_def with_SecurityContext_def with_status_def with_conditions_def list_all_iff)

text \<open>
  C12. A reconciliation never sends a status that the schema of the custom resource rejects for a condition: in every
  status it sends, each condition has a type and a reason that the patterns and lengths of the CRD admit, if those
  of the resources that the API server answers do. The length of the messages, which quote errors, is left out.
\<close>

theorem status_conditions_admitted:
  assumes "lawful env" and "status_echo env" and "schema_enforced env" and "set_laws (e_meta env)"
    and "title_laws (e_title env)" and "\<And>tr. is_order (e_order env tr)"
    and "e_GetWHC env (w_trace w) ns n = Inr x" and "whc_DeletionTimestamp x = None"
  shows "\<exists>evs. w_trace (snd (run_state (Reconcile env da b ns n) w)) = w_trace w @ EvGetWHC ns n # evs
    \<and> list_all (states conditions_admitted) evs"
proof -
  have waits: "waits env conditions_admitted (\<lambda>_. True)" by (simp add: waits_def)
  show ?thesis
    using reconcile_answered(1) [OF conditions_admitted_invariant [OF assms(3,2,4,5)] assms(1) waits assms(6-8)]
    by (simp add: list_all_iff)
qed

lemma ref_set_laws: "set_laws ref_meta"
proof -
  have "\<exists>d \<in> set (c # cs). c_Type c' = c_Type d \<and> c_Reason c' = c_Reason d" if "c' \<in> set (ref_Set now cs c)" for now cs c c'
    using that by (induction cs) (auto split: if_splits)
  then show ?thesis unfolding set_laws_def ref_meta_def by simp
qed

text \<open>The environment of the witnesses, with an API server that admits nothing else: it answers a fixed resource.\<close>

definition fixed_env :: "WorkloadHardeningCheck \<Rightarrow> env" where
  "fixed_env x = (ref_env x [] [])\<lparr>e_GetWHC := \<lambda>tr ns n. if ns = whc_Namespace x \<and> n = whc_Name x then Inr x else Inl not_found\<rparr>"

lemma fixed_env_lawful: "lawful (fixed_env x)"
  using ref_env_lawful [of x "[]" "[]"]
  by (auto simp: lawful_def api_laws_def fixed_env_def split: if_splits)

lemma fixed_env_laws:
  "status_echo (fixed_env x)" "wrapper_unregistered (fixed_env x)" "set_laws (e_meta (fixed_env x))"
  "title_laws (e_title (fixed_env x))" "is_order (e_order (fixed_env x) tr)"
  "e_GetWHC (fixed_env x) tr ns n = Inr y \<Longrightarrow> y = x \<and> ns = whc_Namespace x \<and> n = whc_Name x"
  "e_RefreshWHC (fixed_env x) tr z = Inl (Errorf ''no kind is registered'')"
  "e_StatusUpdateWHC (fixed_env x) tr z = (None, z)"
  by (simp_all add: fixed_env_def ref_env_def status_echo_def wrapper_unregistered_def ref_set_laws title_laws_def
      is_order_def split: if_splits)

lemma fixed_env_never: "never_completes (fixed_env x)"
  by (simp add: never_completes_def fixed_env_def ref_env_def)

theorem status_conditions_admitted_witness:
  "list_all (states conditions_admitted) (w_trace (snd (run_state
     (Reconcile (fixed_env empty_whc) line_miner False ''apps'' ''whc'') (start_world empty_whc))))"
proof -
  have "e_GetWHC (fixed_env empty_whc) (w_trace (start_world empty_whc)) ''apps'' ''whc'' = Inr empty_whc"
    "whc_DeletionTimestamp empty_whc = None"
    by (simp_all add: fixed_env_def empty_whc_def)
  moreover have "conditions_admitted empty_whc" by (simp add: conditions_admitted_def empty_whc_def)
  then have "schema_enforced (fixed_env empty_whc)"
    by (auto simp: schema_enforced_def fixed_env_laws(7) dest: fixed_env_laws(6))
  ultimately obtain evs where "w_trace (snd (run_state (Reconcile (fixed_env empty_whc) line_miner False ''apps'' ''whc'')
      (start_world empty_whc))) = EvGetWHC ''apps'' ''whc'' # evs" "list_all (states conditions_admitted) evs"
    using status_conditions_admitted [OF fixed_env_lawful fixed_env_laws(1) _ fixed_env_laws(3,4,5),
        of empty_whc "start_world empty_whc" "''apps''" "''whc''" empty_whc line_miner False]
    by (auto simp: start_world_def)
  then show ?thesis by simp
qed

section \<open>A started run is come back to\<close>

text \<open>A reply after which the resource is reconciled again: an error, a requeue, or a time that is not over yet.\<close>

definition lingers :: "reply \<Rightarrow> bool" where
  "lingers v \<longleftrightarrow> snd v \<noteq> None \<or> rr_Requeue (fst v) \<or> 0 < sint (rr_RequeueAfter (fst v))"

text \<open>The recording duration is not negative, and thirty seconds more still fit into 64 bits.\<close>

definition bounded_duration :: "env \<Rightarrow> WorkloadHardeningCheck \<Rightarrow> bool" where
  "bounded_duration env x \<longleftrightarrow> 0 \<le> sint (GetCheckDuration env x) \<and> sint (GetCheckDuration env x) + int (30 * Second) < 2 ^ 63"

definition durations_bounded :: "env \<Rightarrow> bool" where
  "durations_bounded env \<longleftrightarrow> (\<forall>tr ns n x. e_GetWHC env tr ns n = Inr x \<longrightarrow> bounded_duration env x)
     \<and> (\<forall>tr x y. e_RefreshWHC env tr x = Inr y \<longrightarrow> bounded_duration env y)
     \<and> (\<forall>tr x y. e_StatusUpdateWHC env tr x = (None, y) \<longrightarrow> spec_RecordingDuration (whc_Spec y) = spec_RecordingDuration (whc_Spec x))"

lemma bounded_duration_invariant:
  assumes "durations_bounded env" shows "status_invariant env ok (bounded_duration env)"
proof -
  have same: "bounded_duration env y" if "bounded_duration env x" "spec_RecordingDuration (whc_Spec y) = spec_RecordingDuration (whc_Spec x)" for x y
    using that by (simp add: bounded_duration_def GetCheckDuration_def)
  show ?thesis
    using assms unfolding status_invariant_def durations_bounded_def
    by (auto simp: with_SecurityContext_def with_status_def intro: same)
qed

lemma sint_plus_in_range:
  fixes a b :: int64
  assumes "- (2 ^ 63) \<le> sint a + sint b" "sint a + sint b < 2 ^ 63"
  shows "sint (a + b) = sint a + sint b"
proof -
  have "sint (a + b) = signed_take_bit 63 (sint a + sint b)" by (simp add: sint_word_ariths)
  also have "\<dots> = sint a + sint b" using assms by (simp add: signed_take_bit_int_eq_self)
  finally show ?thesis .
qed

lemma bounded_duration_waits: "waits env (bounded_duration env) lingers"
proof -
  have secs: "sint (dur (10 * Second)) = int (10 * Second)" "sint (dur (30 * Second)) = int (30 * Second)"
    by (simp_all add: dur_def Second_def)
  have "lingers (requeue_after (GetCheckDuration env x + dur d))"
    if "bounded_duration env x" "sint (dur d) = int d" "0 < d" "d \<le> 30 * Second" for x d
  proof -
    have "sint (GetCheckDuration env x + dur d) = sint (GetCheckDuration env x) + sint (dur d)"
      using that by (intro sint_plus_in_range) (simp_all add: bounded_duration_def)
    then show ?thesis using that by (simp add: lingers_def requeue_after_def bounded_duration_def)
  qed
  note sum = this
  have "0 < sint (dur (30 * Second))" unfolding secs by (simp add: Second_def)
  then have "lingers (requeue_after (dur (30 * Second)))" by (simp add: lingers_def requeue_after_def)
  moreover have "0 < 10 * Second" "10 * Second \<le> 30 * Second" "0 < 30 * Second" by (simp_all add: Second_def)
  ultimately show ?thesis unfolding waits_def using sum secs by blast
qed


text \<open>A pass over a resource whose final check is to be repeated.\<close>

lemma run_or_else:
  "run_state (or_else s rest) w = (case run_state s w of (r, w') \<Rightarrow> (case r of
     Ret None \<Rightarrow> run_state rest w' | Ret (Some v) \<Rightarrow> (Ret v, w') | Panic p \<Rightarrow> (Panic p, w') | NoReturn \<Rightarrow> (NoReturn, w')))"
  by (simp add: or_else_def run_attempt run_ret split: prod.splits outcome.splits option.splits)

lemma final_requeued:
  assumes "meta_laws (e_meta env)" "wrapper_unregistered env" "never_completes env" "started (w_exec w)"
    "\<not> IsRunning (own_id x ''Final'') (w_exec w)" "\<not> RecommendationExists x"
    "\<not> cond_is env x ConditionTypeBaseline ConditionTrue {ReasonBaselineRecordingFinished, ReasonBaselineRecordingFailed}"
    "m_IsPresentAndEqual (e_meta env) (whc_Conditions x) ConditionTypeFinalCheck ConditionUnknown"
  shows "\<exists>w'. run_state (reconcile_checks env da b x) w = (Ret (requeue_after (GetCheckDuration env x + dur (10 * Second))), w')
    \<and> accepted (w_trace w') = accepted (w_trace w) @ [own_id x ''Final'']"
proof -
  let ?w = "(refreshed (refreshed (fetched x w)))" and ?i = "own_id x ''Final''"
  let ?w1 = "?w\<lparr>w_trace := w_trace ?w @ [EvIsRunning ?i]\<rparr>"
  obtain w' where w': "run_state (submit env ?i (RunCheckJob x ''Final'' None False)) ?w1 = (Ret (), w')" "adds_runs [?i] ?w1 w'"
    using run_submit [OF assms(3), of ?w1 ?i] assms(4,5) by auto
  have none: "GetRecommendedSecurityContext x = None" using assms(6) by (simp add: GetRecommendedSecurityContext_def)
  have "run_state (finish_recorded env) (fetched x w) = (Ret None, fetched x w)"
    using assms(6) by (simp add: finish_recorded_def run_bind run_gets go_on_def run_ret)
  moreover have "run_state (analyze_finished env da b x) (fetched x w) = (Ret None, ?w)"
    using assms(7) by (simp add: analyze_finished_def AllChecksFinished_def run_attempt run_bind run_Refresh [OF assms(2)]
        run_conditions [OF assms(1,2)] run_ret go_on_def)
  moreover have "run_state (retry_final env x) ?w = (Ret (Some (requeue_after (GetCheckDuration env x + dur (10 * Second)))), w')"
    using assms(5,8) w' by (simp add: retry_final_def submit_final_def own_pointer_def none run_bind run_is_running [OF assms(3)]
        run_attempt run_gets run_ret reply_with_def run_next_round adds_runs_def)
  ultimately have "run_state (reconcile_checks env da b x) w = (Ret (requeue_after (GetCheckDuration env x + dur (10 * Second))), w')"
    by (simp add: reconcile_checks_def NewWorkloadCheckManager_def run_bind run_modify run_or_else)
  then show ?thesis using w'(2) by (simp add: adds_runs_def) (simp add: refreshed_def)
qed

lemma accepted_submissions: "length (accepted tr) \<le> submissions tr"
proof (induction tr)
  case (Cons ev tr)
  have "accepted_id ev \<noteq> None \<Longrightarrow> is_submit ev" by (cases ev) auto
  then show ?case using Cons by (auto simp: submissions_def split: option.splits)
qed (simp add: submissions_def)

definition final_again :: WorkloadHardeningCheck where
  "final_again = empty_whc\<lparr>whc_Status := (whc_Status empty_whc)\<lparr>st_Conditions :=
     [mk_condition ConditionTypeFinalCheck ConditionUnknown ReasonRequeue []]\<rparr>\<rparr>"


end
