(* ===== verification/Stranding.thy ===== *)
theory Stranding
  imports Conditions
begin

text \<open>
  Two ways in which a workload check comes to a stop without an outcome: a reconciliation that only reads and
  does not ask to be called again, while the controller ignores changes of the status. One is a recommendation
  that could not be written, the other a recording duration of zero, which the schema admits.
\<close>

section \<open>Passes that only look\<close>

fun looks :: "event \<Rightarrow> bool" where
  "looks EvNow \<longleftrightarrow> True"
| "looks (EvGetWHC ns n) \<longleftrightarrow> True"
| "looks (EvRefreshWHC ns n) \<longleftrightarrow> True"
| "looks (EvGetWorkload k ns n) \<longleftrightarrow> True"
| "looks _ \<longleftrightarrow> False"

definition looked :: "world \<Rightarrow> world \<Rightarrow> bool" where
  "looked w w' \<longleftrightarrow> w_whc w' = w_whc w \<and> (\<exists>evs. w_trace w' = w_trace w @ evs \<and> list_all looks evs)"

lemma looked_refl [simp]: "looked w w"
  by (simp add: looked_def)

lemma looked_trans: "looked w w' \<Longrightarrow> looked w' w'' \<Longrightarrow> looked w w''"
  by (auto simp: looked_def)

lemma looked_refreshed: "looked w (refreshed w)"
  by (simp add: looked_def) (simp add: refreshed_def)

lemma looked_call: "looks ev \<Longrightarrow> looked w (w\<lparr>w_trace := w_trace w @ [ev]\<rparr>)"
  by (simp add: looked_def)

lemma looked_whc: "looked w w' \<Longrightarrow> w_whc w' = w_whc w"
  by (simp add: looked_def)

text \<open>\<open>passes w m r\<close>: from \<open>w\<close> the program \<open>m\<close> only looks and results in \<open>r\<close>.\<close>

definition passes :: "world \<Rightarrow> 'a prog \<Rightarrow> 'a \<Rightarrow> bool" where
  "passes w m r \<longleftrightarrow> (\<exists>w'. run_state m w = (r, w') \<and> looked w w')"

lemma passes_bind:
  assumes "passes w m r" "\<And>w'. w_whc w' = w_whc w \<Longrightarrow> passes w' (f r) s"
  shows "passes w (State_Monad.bind m f) s"
proof -
  obtain w1 where w1: "run_state m w = (r, w1)" "looked w w1" using assms(1) by (auto simp: passes_def)
  obtain w2 where w2: "run_state (f r) w1 = (s, w2)" "looked w1 w2"
    using assms(2) [OF looked_whc [OF w1(2)]] by (auto simp: passes_def)
  then show ?thesis using w1 looked_trans [OF w1(2) w2(2)] by (simp add: passes_def run_bind)
qed

lemma passes_ret: "passes w (ret r) r"
  by (simp add: passes_def run_ret)

lemma passes_gets: "passes w (gets f) (f w)"
  by (simp add: passes_def run_gets)

lemma passes_ask: "looks ev \<Longrightarrow> passes w (ask ev answer) (answer (w_trace w))"
  by (simp add: passes_def run_ask looked_call)

lemma passes_attempt:
  assumes "passes w m (Ret r)" "\<And>w'. w_whc w' = w_whc w \<Longrightarrow> passes w' (f r) s"
  shows "passes w (attempt m f) s"
  unfolding attempt_def by (rule passes_bind [OF assms(1)]) (simp add: assms(2))

lemma passes_or_else:
  assumes "passes w s (Ret None)" "\<And>w'. w_whc w' = w_whc w \<Longrightarrow> passes w' rest r"
  shows "passes w (or_else s rest) r"
  unfolding or_else_def by (rule passes_attempt [OF assms(1)]) (simp add: assms(2))

lemma passes_or_else_reply: "passes w s (Ret (Some v)) \<Longrightarrow> passes w (or_else s rest) (Ret v)"
  unfolding or_else_def by (rule passes_attempt, assumption) (simp only: option.case passes_ret)

lemma passes_tests:
  assumes "meta_laws (e_meta env)" "wrapper_unregistered env" "w_whc w = x"
  shows "passes w (RefreshWorkloadHardeningCheck env) ()"
    "passes w (BaselineRecorded env) (Ret (cond_is env x ConditionTypeBaseline ConditionTrue
      {ReasonBaselineRecordingFinished, ReasonBaselineRecordingFailed}))"
    "passes w (BaselineInProgress env) (Ret (cond_is env x ConditionTypeBaseline ConditionFalse {ReasonBaselineRecording}))"
    "passes w (FinalCheckInProgress env) (Ret (cond_is env x ConditionTypeFinalCheck ConditionFalse {ReasonCheckRecording}))"
    "passes w (CheckRecorded env t) (Ret (check_recorded env x t))"
  by (simp_all add: passes_def run_Refresh [OF assms(2)] run_conditions [OF assms(1,2)] check_recorded_def assms(3) looked_refreshed)

text \<open>The final stages when there is no recommendation.\<close>

lemma passes_without_recommendation:
  assumes "meta_laws (e_meta env)" "wrapper_unregistered env" "w_whc w = x" "\<not> RecommendationExists x"
    "\<not> m_IsPresentAndEqual (e_meta env) (whc_Conditions x) ConditionTypeFinalCheck ConditionUnknown"
    "\<not> cond_is env x ConditionTypeFinalCheck ConditionFalse {ReasonCheckRecording}"
  shows "passes w (finish_recorded env) (Ret None)" "passes w (retry_final env x) (Ret None)"
    "passes w (await_final env) (Ret None)" "passes w (start_final env x) (Ret None)"
proof -
  show "passes w (finish_recorded env) (Ret None)" "passes w (start_final env x) (Ret None)"
    by (simp_all add: passes_def finish_recorded_def start_final_def run_bind run_gets assms(3,4) go_on_def run_ret)
  show "passes w (retry_final env x) (Ret None)"
    using assms(5) by (simp add: retry_final_def go_on_def passes_ret)
  show "passes w (await_final env) (Ret None)"
    unfolding await_final_def
    by (rule passes_attempt [OF passes_tests(4) [OF assms(1-3)]]) (simp add: assms(6) go_on_def passes_ret)
qed

section \<open>A recommendation that was not written\<close>

text \<open>
  The state that a failed \<open>SetRecommendation\<close> leaves behind: its error is dropped and the analysis is marked as
  done (\<open>run_analysis\<close>), so every check is recorded and analysed, but there is no recommendation.
\<close>

definition analysed_without_recommendation :: "env \<Rightarrow> WorkloadHardeningCheck \<Rightarrow> bool" where
  "analysed_without_recommendation env x \<longleftrightarrow>
     \<not> RecommendationExists x
     \<and> m_IsTrue (e_meta env) (whc_Conditions x) ConditionTypeAnalysis
     \<and> \<not> m_IsPresentAndEqual (e_meta env) (whc_Conditions x) ConditionTypeFinalCheck ConditionUnknown
     \<and> \<not> cond_is env x ConditionTypeFinalCheck ConditionFalse {ReasonCheckRecording}
     \<and> cond_is env x ConditionTypeBaseline ConditionTrue {ReasonBaselineRecordingFinished, ReasonBaselineRecordingFailed}
     \<and> \<not> failed_baseline x
     \<and> list_all (check_recorded env x) (gm_keys GetAllChecks)
     \<and> kind_of (to_lower (tr_Kind (spec_TargetRef (whc_Spec x)))) \<noteq> OtherObject"

lemma passes_required_checks:
  assumes "w_whc w = x" "list_all (check_recorded env x) ts" "set ts \<subseteq> dom (map_of GetAllChecks)" "set found \<subseteq> set us"
    "set ts \<subseteq> set us"
  shows "\<exists>found'. passes w (required_checks env (Some ps) ts found) (Ret found') \<and> set found' \<subseteq> set us"
  using assms
proof (induction ts arbitrary: w found)
  case Nil
  then show ?case by (auto intro: passes_ret)
next
  case (Cons t ts)
  obtain check where check: "map_of GetAllChecks t = Some check" using Cons.prems(3) by auto
  obtain c where found: "m_Find (e_meta env) (whc_Conditions x) (check_condition_type env t) = Some c"
    using Cons.prems(2) by (auto simp: check_recorded_def cond_is_def)
  obtain f where f: "passes w (required_checks env (Some ps) ts found) (Ret f)" "set f \<subseteq> set us"
    using Cons.IH [of w found] Cons.prems by auto
  obtain g where g: "passes w (required_checks env (Some ps) ts (List.insert t found)) (Ret g)" "set g \<subseteq> set us"
    using Cons.IH [of w "List.insert t found"] Cons.prems by auto
  show ?case
  proof (cases "ShouldRun check ps")
    case True
    have "passes w (required_checks env (Some ps) (t # ts) found) (Ret g)"
      using g(1) True found by (simp add: check GetType_registered [OF check] Let_def passes_def run_bind run_gets Cons.prems(1))
    then show ?thesis using g(2) by blast
  next
    case False
    then have "passes w (required_checks env (Some ps) (t # ts) found) (Ret f)"
      using f(1) by (simp add: check)
    then show ?thesis using f(2) by blast
  qed
qed

lemma passes_GetWorkloadUnderTest:
  assumes "lawful env" "w_whc w = x"
  shows "(\<exists>e. passes w (GetWorkloadUnderTest env ns) (Inl e))
    \<or> (\<exists>wl. passes w (GetWorkloadUnderTest env ns) (Inr wl) \<and> wl_Kind wl = kind_of (to_lower (tr_Kind (spec_TargetRef (whc_Spec x)))))"
proof -
  let ?k = "kind_of (to_lower (tr_Kind (spec_TargetRef (whc_Spec x))))" and ?n = "tr_Name (spec_TargetRef (whc_Spec x))"
  have looked: "looked w (w\<lparr>w_trace := w_trace w @ [EvGetWorkload ?k ns ?n]\<rparr>)" by (rule looked_call) simp
  show ?thesis
  proof (cases "e_GetWorkload env (w_trace w) ?k ns ?n")
    case (Inl e)
    then show ?thesis using looked assms(2)
      by (cases "IsNotFound e") (auto simp: passes_def GetWorkloadUnderTest_def get_workload_def run_bind run_gets run_ask run_ret Let_def)
  next
    case (Inr wl)
    then show ?thesis using looked assms(2) GetWorkload_key [OF assms(1) Inr]
      by (auto simp: passes_def GetWorkloadUnderTest_def get_workload_def run_bind run_gets run_ask run_ret Let_def)
  qed
qed

lemma passes_AllChecksFinished:
  assumes "lawful env" "wrapper_unregistered env" "\<And>tr. is_order (e_order env tr)" "w_whc w = x"
    "analysed_without_recommendation env x"
  shows "passes w (AllChecksFinished env) (Ret True)"
proof -
  note meta = lawful_laws(1) [OF assms(1)]
  have recorded: "list_all (check_recorded env x) (gm_keys GetAllChecks)"
    and base: "cond_is env x ConditionTypeBaseline ConditionTrue {ReasonBaselineRecordingFinished, ReasonBaselineRecordingFailed}"
    and kind: "kind_of (to_lower (tr_Kind (spec_TargetRef (whc_Spec x)))) \<noteq> OtherObject"
    using assms(5) unfolding analysed_without_recommendation_def by simp_all
  have all: "passes v (all_recorded env ts) (Ret True)" if "w_whc v = x" "set ts \<subseteq> set (gm_keys GetAllChecks)" for v ts
    using that
  proof (induction ts arbitrary: v)
    case Nil
    then show ?case by (simp add: passes_ret)
  next
    case (Cons t ts)
    then have "check_recorded env x t" using recorded by (auto simp: list_all_iff)
    then show ?case unfolding all_recorded.simps
      using Cons by (intro passes_attempt [OF passes_tests(5) [OF meta assms(2) Cons.prems(1)]]) simp
  qed
  have required: "\<exists>ts. passes v (GetRequiredCheckRuns env) (Ret ts) \<and> set ts \<subseteq> set (gm_keys GetAllChecks)" if v: "w_whc v = x" for v
    using passes_GetWorkloadUnderTest [OF assms(1) v, of "whc_Namespace x"]
  proof (elim disjE exE conjE)
    fix e assume "passes v (GetWorkloadUnderTest env (whc_Namespace x)) (Inl e)"
    then have "passes v (GetRequiredCheckRuns env) (Ret [])"
      by (auto simp: passes_def GetRequiredCheckRuns_def run_bind run_gets v run_ret)
    then show ?thesis by (intro exI [of _ "[]"]) simp
  next
    fix wl assume wl: "passes v (GetWorkloadUnderTest env (whc_Namespace x)) (Inr wl)"
      "wl_Kind wl = kind_of (to_lower (tr_Kind (spec_TargetRef (whc_Spec x))))"
    then have "wl_Kind wl \<in> {Deployment, StatefulSet, DaemonSet}" using kind by (cases "wl_Kind wl") auto
    obtain v1 where v1: "run_state (GetWorkloadUnderTest env (whc_Namespace x)) v = (Inr wl, v1)" "looked v v1"
      using wl(1) by (auto simp: passes_def)
    let ?ts = "e_order env (w_trace v1) (gm_keys GetAllChecks)"
    have ts: "set ?ts = set (gm_keys GetAllChecks)" by (rule is_order_set [OF assms(3)])
    then have "list_all (check_recorded env x) ?ts" "set ?ts \<subseteq> dom (map_of GetAllChecks)"
      using recorded by (simp_all add: list_all_iff gm_keys_def set_gm_keys dom_map_of_conv_image_fst)
    then obtain f where f: "passes v1 (required_checks env (Some (wl_Template wl)) ?ts []) (Ret f)" "set f \<subseteq> set (gm_keys GetAllChecks)"
      using passes_required_checks [of v1 x env ?ts "[]" "gm_keys GetAllChecks" "wl_Template wl"] v looked_whc [OF v1(2)] ts by auto
    then obtain v2 where v2: "run_state (required_checks env (Some (wl_Template wl)) ?ts []) v1 = (Ret f, v2)" "looked v1 v2"
      by (auto simp: passes_def)
    have "passes v (GetRequiredCheckRuns env) (Ret (e_order env (w_trace v2) f))"
      using v1 v2 \<open>wl_Kind wl \<in> _\<close> looked_trans [OF v1(2) v2(2)]
      by (simp add: passes_def GetRequiredCheckRuns_def run_bind run_gets v run_map_order run_attempt run_ret Let_def)
    then show ?thesis using f(2) is_order_set [OF assms(3)] by blast
  qed
  show ?thesis
    unfolding AllChecksFinished_def
  proof (rule passes_bind [OF passes_tests(1) [OF meta assms(2,4)]], rule passes_attempt [OF passes_tests(2) [OF meta assms(2)]])
    fix w1 w2 :: world assume w1: "w_whc w1 = w_whc w" and w2: "w_whc w2 = w_whc w1"
    then obtain ts where "passes w2 (GetRequiredCheckRuns env) (Ret ts)" "set ts \<subseteq> set (gm_keys GetAllChecks)"
      using required assms(4) by metis
    then show "passes w2 (if \<not> cond_is env (w_whc w) ConditionTypeBaseline ConditionTrue
        {ReasonBaselineRecordingFinished, ReasonBaselineRecordingFailed} then ret (Ret False)
        else attempt (GetRequiredCheckRuns env) (all_recorded env)) (Ret True)"
      using base all w1 w2 assms(4) by (auto intro: passes_attempt)
  qed simp
qed

text \<open>
  C13. A lost recommendation strands the resource: if every check is recorded and analysed but the recommendation was
  not written, a reconciliation only reads and replies that there is nothing more to do. It makes no further
  attempt, does not set the resource to finished, and is not repeated.
\<close>

theorem lost_recommendation_strands:
  assumes "lawful env" and "wrapper_unregistered env" and "finalizer_laws (e_finalizers env)"
    and "\<And>tr. is_order (e_order env tr)" and "e_GetWHC env (w_trace w) ns n = Inr x"
    and "whc_DeletionTimestamp x = None" and "FinalizerCleanup \<in> set (whc_Finalizers x)"
    and "\<not> m_IsTrue (e_meta env) (whc_Conditions x) ConditionTypeFinished" and "analysed_without_recommendation env x"
  shows "\<exists>evs w'. run_state (Reconcile env da b ns n) w = (Ret finished_reply, w')
    \<and> w_trace w' = w_trace w @ EvGetWHC ns n # evs \<and> list_all looks evs"
proof -
  note meta = lawful_laws(1) [OF assms(1)] and hyps = assms(9) [unfolded analysed_without_recommendation_def]
  have recorded: "cond_is env x ConditionTypeBaseline ConditionTrue {ReasonBaselineRecordingFinished, ReasonBaselineRecordingFailed}"
    using hyps by (elim conjE)
  have not_recording: "cond_is env x ConditionTypeBaseline ConditionFalse {ReasonBaselineRecording} = False"
    using recorded by (auto simp: cond_is_def)
  note BR = passes_tests(2) [OF meta assms(2)] and ACF = passes_AllChecksFinished [OF assms(1,2,4) _ assms(9)]
  have final: "passes w (finish_recorded env) (Ret None)" "passes w (retry_final env x) (Ret None)"
      "passes w (await_final env) (Ret None)" "passes w (start_final env x) (Ret None)" if "w_whc w = x" for w
    using passes_without_recommendation [OF meta assms(2) that] hyps by blast+
  have analyze: "passes w (analyze_finished env da b x) (Ret None)" if "w_whc w = x" for w
    unfolding analyze_finished_def
    by (rule passes_attempt [OF ACF [OF that]]) (use hyps in \<open>simp add: go_on_def passes_ret\<close>)
  have await: "passes w (await_baseline env) (Ret None)" if "w_whc w = x" for w
    unfolding await_baseline_def
    by (rule passes_bind [OF passes_gets], rule passes_attempt [OF passes_tests(3) [OF meta assms(2)]], use that in simp)
      (simp only: not_recording simp_thms if_True go_on_def passes_ret)
  have baseline: "passes w (use_reference env x) (Ret None)" "passes w (start_baseline env x) (Ret None)"
      "passes w (abort_failed_baseline env x) (Ret None)" if "w_whc w = x" for w
    unfolding use_reference_def start_baseline_def abort_failed_baseline_def
    using recorded hyps by (auto intro!: passes_attempt [OF BR [OF that]] simp: go_on_def passes_ret)
  have missing: "passes w (record_missing env x) (Ret None)" if "w_whc w = x" for w
    unfolding record_missing_def
    by (rule passes_attempt [OF BR [OF that]], use recorded in simp, rule passes_attempt [OF ACF])
      (use that in \<open>simp_all add: go_on_def passes_ret\<close>)
  let ?w = "w\<lparr>w_trace := w_trace w @ [EvGetWHC ns n]\<rparr>"
  have "passes (fetched x ?w) (or_else (finish_recorded env) (or_else (analyze_finished env da b x) (or_else (retry_final env x)
      (or_else (await_final env) (or_else (start_final env x) (or_else (await_baseline env) (or_else (use_reference env x)
      (or_else (start_baseline env x) (or_else (abort_failed_baseline env x) (or_else (record_missing env x)
        (ret (Ret finished_reply)))))))))))) (Ret finished_reply)"
    by (intro passes_or_else final analyze await baseline missing passes_ret) simp_all
  then obtain w' where w': "run_state (reconcile_checks env da b x) ?w = (Ret finished_reply, w')" "looked (fetched x ?w) w'"
    by (auto simp: passes_def reconcile_checks_def NewWorkloadCheckManager_def run_bind run_modify)
  have "f_Contains (e_finalizers env) (whc_Finalizers x) FinalizerCleanup"
    using assms(3,7) by (simp add: finalizer_laws_def)
  then have "run_state (Reconcile env da b ns n) w = (Ret finished_reply, w')"
    by (simp add: Reconcile_found [OF assms(5)] reconcile_fetched_def assms(6,8) w'(1))
  then show ?thesis using w'(2) by (auto simp: looked_def)
qed

definition lost_recommendation :: WorkloadHardeningCheck where
  "lost_recommendation = empty_whc\<lparr>whc_Status := (whc_Status empty_whc)\<lparr>st_Conditions :=
     [mk_condition ConditionTypeBaseline ConditionTrue ReasonBaselineRecordingFinished [],
      mk_condition ConditionTypeAnalysis ConditionTrue ReasonAnalysisFinished [],
      mk_condition ConditionTypeFinished ConditionFalse ReasonAnalysisRunning []]
     @ map (\<lambda>t. mk_condition (t @ ConditionTypeCheck) ConditionTrue ReasonCheckRecordingFinished []) (gm_keys GetAllChecks)\<rparr>\<rparr>"

lemma ref_Find_append: "ref_Find (cs @ ds) t = (case ref_Find cs t of None \<Rightarrow> ref_Find ds t | Some c \<Rightarrow> Some c)"
  by (induction cs) simp_all

lemma ref_Find_checks: "ref_Find (map (\<lambda>t. mk_condition (t @ s) v r m) ts) (t @ s) = (if t \<in> set ts then Some (mk_condition (t @ s) v r m) else None)"
  by (induction ts) (auto simp: mk_condition_def)

lemma lost_recommendation_conditions:
  "ref_Find (whc_Conditions lost_recommendation) ConditionTypeBaseline = Some (mk_condition ConditionTypeBaseline ConditionTrue ReasonBaselineRecordingFinished [])"
  "ref_Find (whc_Conditions lost_recommendation) ConditionTypeAnalysis = Some (mk_condition ConditionTypeAnalysis ConditionTrue ReasonAnalysisFinished [])"
  "ref_Find (whc_Conditions lost_recommendation) ConditionTypeFinished = Some (mk_condition ConditionTypeFinished ConditionFalse ReasonAnalysisRunning [])"
  by (simp_all add: lost_recommendation_def mk_condition_def ConditionTypeBaseline_def ConditionTypeAnalysis_def ConditionTypeFinished_def)

lemma lost_recommendation_final: "ref_Find (whc_Conditions lost_recommendation) ConditionTypeFinalCheck = None"
  by (simp add: lost_recommendation_def ref_Find_None mk_condition_def GetAllChecks_eq gm_keys_def ConditionTypeCheck_def
      ConditionTypeBaseline_def ConditionTypeAnalysis_def ConditionTypeFinished_def ConditionTypeFinalCheck_def)

lemma lost_recommendation_checks:
  assumes "t \<in> set (gm_keys GetAllChecks)"
  shows "check_recorded (fixed_env lost_recommendation) lost_recommendation t"
proof -
  have "t @ ConditionTypeCheck \<notin> {ConditionTypeBaseline, ConditionTypeAnalysis, ConditionTypeFinished}"
    using assms by (auto simp: GetAllChecks_eq gm_keys_def ConditionTypeCheck_def ConditionTypeBaseline_def
        ConditionTypeAnalysis_def ConditionTypeFinished_def)
  then have "ref_Find (whc_Conditions lost_recommendation) (t @ ConditionTypeCheck) =
      Some (mk_condition (t @ ConditionTypeCheck) ConditionTrue ReasonCheckRecordingFinished [])"
    using assms by (auto simp: lost_recommendation_def ref_Find_checks mk_condition_def [of ConditionTypeBaseline]
        mk_condition_def [of ConditionTypeAnalysis] mk_condition_def [of ConditionTypeFinished] simp del: set_gm_keys)
  then show ?thesis
    by (simp add: check_recorded_def cond_is_def check_condition_type_def fixed_env_def ref_env_def ref_meta_def mk_condition_def)
qed

theorem lost_recommendation_strands_witness:
  "fst (run_state (Reconcile (fixed_env lost_recommendation) line_miner False ''apps'' ''whc'') (start_world lost_recommendation)) =
    Ret finished_reply"
proof -
  let ?env = "fixed_env lost_recommendation" and ?x = lost_recommendation
  have meta: "e_meta ?env = ref_meta" by (simp add: fixed_env_def ref_env_def)
  note conds = lost_recommendation_conditions lost_recommendation_final
  have x: "whc_DeletionTimestamp ?x = None" "whc_Namespace ?x = ''apps''" "whc_Name ?x = ''whc''"
      "FinalizerCleanup \<in> set (whc_Finalizers ?x)" "\<not> RecommendationExists ?x" "\<not> failed_baseline ?x"
      "tr_Kind (spec_TargetRef (whc_Spec ?x)) = ''Deployment''"
    by (simp_all add: lost_recommendation_def empty_whc_def RecommendationExists_def failed_baseline_def)
  have get: "e_GetWHC ?env (w_trace (start_world ?x)) ''apps'' ''whc'' = Inr ?x"
    using x(2,3) by (simp add: fixed_env_def)
  have unfinished: "\<not> m_IsTrue (e_meta ?env) (whc_Conditions ?x) ConditionTypeFinished"
    unfolding meta by (simp add: ref_meta_def conds) (simp add: mk_condition_def)
  have tests: "m_IsTrue (e_meta ?env) (whc_Conditions ?x) ConditionTypeAnalysis"
      "\<not> m_IsPresentAndEqual (e_meta ?env) (whc_Conditions ?x) ConditionTypeFinalCheck ConditionUnknown"
      "\<not> cond_is ?env ?x ConditionTypeFinalCheck ConditionFalse R"
      "cond_is ?env ?x ConditionTypeBaseline ConditionTrue {ReasonBaselineRecordingFinished, ReasonBaselineRecordingFailed}" for R
    unfolding cond_is_def meta by (simp_all add: ref_meta_def conds) (simp_all add: mk_condition_def)
  have "list_all (check_recorded ?env ?x) (gm_keys GetAllChecks)"
    using lost_recommendation_checks unfolding list_all_iff by blast
  then have "analysed_without_recommendation ?env ?x"
    unfolding analysed_without_recommendation_def by (intro conjI x tests) (simp_all add: x(7) kind_of_Deployment)
  from lost_recommendation_strands [OF fixed_env_lawful fixed_env_laws(2) _ fixed_env_laws(5) get x(1,4) unfinished this,
      of line_miner False] show ?thesis
    using ref_env_finalizers by (auto simp: fixed_env_def)
qed

section \<open>A recording duration of zero\<close>


definition zero_duration :: WorkloadHardeningCheck where
  "zero_duration = empty_whc\<lparr>whc_Spec := (whc_Spec empty_whc)\<lparr>spec_RecordingDuration := ''0s''\<rparr>,
     whc_Status := (whc_Status empty_whc)\<lparr>st_Conditions := [mk_condition ConditionTypeBaseline ConditionFalse ReasonBaselineRecording []]\<rparr>\<rparr>"


end
