(* ===== verification/FinalCheck.thy ===== *)
theory FinalCheck
  imports Conditions
begin

text \<open>
  The final check of a namespace: what its job changes, and which recommendation it tests on which workload. The
  recommendations are those of the finished workload checks, by kind and name of their target.
\<close>

section \<open>The recommendations\<close>

definition check_target :: "WorkloadHardeningCheck \<Rightarrow> string" where
  "check_target c = tr_Kind (spec_TargetRef (whc_Spec c)) @ ''/'' @ tr_Name (spec_TargetRef (whc_Spec c))"

text \<open>Of several checks with one target, the last one that recommends something counts.\<close>

definition last_recommendation :: "WorkloadHardeningCheck list \<Rightarrow> string \<Rightarrow> Recommendation option" where
  "last_recommendation checks t =
     (case filter (\<lambda>c. check_target c = t \<and> whc_Recommendation c \<noteq> None) checks of
        [] \<Rightarrow> None
      | cs \<Rightarrow> whc_Recommendation (last cs))"

lemma recommendations_of_snoc:
  "recommendations_of (checks @ [c]) = (case whc_Recommendation c of
     None \<Rightarrow> recommendations_of checks
   | Some r \<Rightarrow> AList.update (check_target c) r (recommendations_of checks))"
  by (simp add: recommendations_of_def check_target_def split: option.splits)

lemma recommendations_of_lookup: "map_of (recommendations_of checks) t = last_recommendation checks t"
proof (induction checks rule: rev_induct)
  case Nil
  then show ?case by (simp add: recommendations_of_def last_recommendation_def)
next
  case (snoc c checks)
  then show ?case
    by (auto simp: recommendations_of_snoc last_recommendation_def update_conv' split: option.splits list.splits)
qed

section \<open>What the job changes\<close>

text \<open>Documented: the objects that are listed in a namespace lie in it.\<close>

definition lists_in_namespace :: "env \<Rightarrow> bool" where
  "lists_in_namespace env \<longleftrightarrow> (\<forall>tr g ns rs. e_ListResources env tr g ns = Inr rs \<longrightarrow> list_all (\<lambda>r. u_Namespace r = ns) rs)"

definition all_in :: "string \<Rightarrow> (string, Resource list) gomap \<Rightarrow> bool" where
  "all_in ns m \<longleftrightarrow> (\<forall>k. \<forall>r \<in> set (items_of m k). u_Namespace r = ns)"

lemma items_of_update: "items_of (AList.update k v m) k' = (if k' = k then v else items_of m k')"
  by (simp add: items_of_def update_conv')

lemma steps_list_types:
  assumes "lists_in_namespace env" "\<And>g. P (EvListResources g ns)" "\<And>w tr. I w \<Longrightarrow> I (w\<lparr>w_trace := tr\<rparr>)"
  shows "all_in ns m \<Longrightarrow> steps I P (list_types env ns gv rts m) (\<lambda>m w. I w \<and> all_in ns m)"
proof (induction rts arbitrary: m)
  case Nil
  then show ?case by (simp add: steps_ret)
next
  case (Cons rt rts)
  have listed: "steps I P (ask (EvListResources g ns) (\<lambda>tr. e_ListResources env tr g ns))
      (\<lambda>r w. I w \<and> (\<forall>rs. r = Inr rs \<longrightarrow> list_all (\<lambda>r. u_Namespace r = ns) rs))" for g
  proof (rule steps_ask)
    fix w assume "I w"
    show "I (w\<lparr>w_trace := w_trace w @ [EvListResources g ns]\<rparr>) \<and>
        (\<forall>rs. e_ListResources env (w_trace w) g ns = Inr rs \<longrightarrow> list_all (\<lambda>r. u_Namespace r = ns) rs)"
      using assms(1) assms(3) [OF \<open>I w\<close>] unfolding lists_in_namespace_def by blast
  qed (rule assms(2))
  have more: "all_in ns (AList.update k (items_of m k @ rs) m)" if "list_all (\<lambda>r. u_Namespace r = ns) rs" for k rs
    using Cons.prems that by (auto simp: all_in_def items_of_update list_all_iff)
  show ?case
    unfolding list_types.simps Let_def
    by (intro keeps_if Cons.IH Cons.prems keeps_case_sum keeps_case_prod steps_bind_fact [OF listed] more) simp
qed

lemma steps_list_groups:
  assumes "lists_in_namespace env" "\<And>g. P (EvListResources g ns)" "\<And>w tr. I w \<Longrightarrow> I (w\<lparr>w_trace := tr\<rparr>)"
  shows "all_in ns m \<Longrightarrow> steps I P (list_groups env ns ls m) (\<lambda>m w. I w \<and> all_in ns m)"
proof (induction ls arbitrary: m)
  case Nil
  then show ?case by (simp add: steps_ret)
next
  case (Cons l ls)
  show ?case
    unfolding list_groups.simps
    by (intro keeps_if steps_bind_fact [where R = "all_in ns"] steps_list_types assms Cons.IH Cons.prems; assumption?)
qed

lemma steps_GetTopLevelResources:
  assumes "lists_in_namespace env" "\<And>g. P (EvListResources g ns)" "\<And>w tr. I w \<Longrightarrow> I (w\<lparr>w_trace := tr\<rparr>)"
  shows "steps I P (GetTopLevelResources env ns) (\<lambda>rs w. I w \<and> (\<forall>r \<in> set rs. u_Namespace r = ns))"
  unfolding GetTopLevelResources_def getAllResources_def
proof (rule steps_bind_fact [where R = "all_in ns"])
  show "steps I P (list_groups env ns (e_namespacedResources env) []) (\<lambda>m w. I w \<and> all_in ns m)"
    by (rule steps_list_groups) (simp_all add: assms all_in_def items_of_def)
qed (auto simp: all_in_def intro!: steps_bind [OF keeps_map_order] steps_ret)

text \<open>
  The calls of the job of \<open>x\<close>: they stay in the clone \<open>ns\<close> and the status of \<open>x\<close>, and a workload is updated only to
  what it becomes under the recommendation that \<open>x\<close> holds for its kind and name.
\<close>

fun kind_text :: "Kind \<Rightarrow> string" where
  "kind_text Deployment = ''Deployment''"
| "kind_text StatefulSet = ''StatefulSet''"
| "kind_text DaemonSet = ''DaemonSet''"
| "kind_text OtherObject = []"

definition hardened :: "NamespaceHardeningCheck \<Rightarrow> Workload \<Rightarrow> bool" where
  "hardened x wl \<longleftrightarrow> (\<exists>rec wl0 ko. map_of (nst_Recommendations (nhc_Status x)) (kind_text (wl_Kind wl) @ ''/'' @ wl_Name wl) = Some rec
     \<and> ApplySecurityContext ko wl0 (rec_Container rec) (rec_Pod rec) = Inr wl)"

fun final_calls :: "NamespaceHardeningCheck \<Rightarrow> string \<Rightarrow> event \<Rightarrow> bool" where
  "final_calls x ns (EvUpdateWorkload wl) \<longleftrightarrow> wl_Namespace wl = ns \<and> hardened x wl"
| "final_calls x ns (EvStatusUpdateNHC y) \<longleftrightarrow> nhc_Name y = nhc_Name x"
| "final_calls x ns ev \<longleftrightarrow> footprint (Some ns) [] [] ev"

definition on_check :: "NamespaceHardeningCheck \<Rightarrow> world \<Rightarrow> bool" where
  "on_check x w \<longleftrightarrow> w_nhc w = x"

lemma on_check_trace [simp]: "on_check x (w\<lparr>w_trace := tr\<rparr>) = on_check x w"
  by (simp add: on_check_def)

lemma final_calls_clone: "clones src tgt ev \<Longrightarrow> final_calls x tgt ev"
  using clones_footprint [of src tgt ev "[]" "[]"] by (cases ev) (auto simp: clones_def)

lemma exact_kind_text: "exact_kind s = Some k \<Longrightarrow> kind_text k = s \<and> k \<noteq> OtherObject"
  by (auto simp: exact_kind_def split: if_splits)

lemma ApplySecurityContext_key:
  assumes "ApplySecurityContext ko wl con pod = Inr wl'"
  shows "wl_Kind wl' = wl_Kind wl" "wl_Namespace wl' = wl_Namespace wl" "wl_Name wl' = wl_Name wl"
  using assms by (cases "wl_Kind wl"; auto simp: ApplySecurityContext_def)+

lemma final_rolled_out: "keeps (on_check x) (final_calls x ns) (wait_rolled_out fuel env wl)"
  by (induction fuel arbitrary: wl) (auto simp: refetch_workload_def get_workload_def intro!: emits_intros)

lemma final_hardens:
  assumes "lawful env" "u_Namespace r = ns"
  shows "keeps (on_check x) (final_calls x ns) (harden_resource fuel env r)"
proof -
  let ?I = "on_check x" and ?P = "final_calls x ns"
  have apply_rec: "keeps ?I ?P (apply_recommendation fuel env wl rec)"
    if "map_of (nst_Recommendations (nhc_Status x)) (kind_text (wl_Kind wl) @ ''/'' @ wl_Name wl) = Some rec"
      "wl_Namespace wl = ns" "wl_Kind wl \<noteq> OtherObject" for wl rec
  proof -
    have "keeps ?I ?P (update_workload env (case ApplySecurityContext ko wl (rec_Container rec) (rec_Pod rec) of
        Inl e \<Rightarrow> wl | Inr wl' \<Rightarrow> wl'))" for ko
    proof (cases "ApplySecurityContext ko wl (rec_Container rec) (rec_Pod rec)")
      case (Inl e)
      then show ?thesis using that(3) by (cases "wl_Kind wl"; simp add: ApplySecurityContext_def)
    next
      case (Inr wl')
      note key = ApplySecurityContext_key [OF Inr]
      have "hardened x wl'" using that(1) Inr unfolding hardened_def key by blast
      then show ?thesis using that(2) by (simp add: Inr update_workload_def keeps_ask key)
    qed
    then show ?thesis
      unfolding apply_recommendation_def Let_def by (intro emits_intros final_rolled_out)
  qed
  have found: "steps ?I ?P (nhc_GetWorkloadUnderTest env r) (\<lambda>g w. ?I w \<and> (\<forall>h. g = Ret h \<longrightarrow> (\<forall>wl. h = Inr wl \<longrightarrow>
      wl_Namespace wl = ns \<and> wl_Kind wl \<noteq> OtherObject \<and> kind_text (wl_Kind wl) @ ''/'' @ wl_Name wl = resource_id r)))"
    (is "steps ?I ?P _ ?Q")
  proof -
    have fetch: "steps ?I ?P (get_workload env k ns (u_Name r))
        (\<lambda>g w. ?I w \<and> (\<forall>wl. g = Inr wl \<longrightarrow> wl_Kind wl = k \<and> wl_Namespace wl = ns \<and> wl_Name wl = u_Name r))" for k
      unfolding get_workload_def by (rule steps_ask) (auto dest: GetWorkload_key [OF assms(1)])
    have "steps ?I ?P (get_workload env k ns (u_Name r) \<bind> (\<lambda>g. ret (Ret g))) ?Q" if "exact_kind (u_Kind r) = Some k" for k
      using exact_kind_text [OF that]
      by (intro steps_bind_fact [OF fetch] steps_ret) (auto simp: resource_id_def)
    then show ?thesis
      unfolding nhc_GetWorkloadUnderTest_def assms(2) by (intro keeps_if keeps_case_option steps_ret) simp_all
  qed
  have stored: "steps ?I ?P (gets w_nhc) (\<lambda>y w. ?I w \<and> y = x)" by (rule steps_gets) (simp add: on_check_def)
  show ?thesis
    unfolding harden_resource_def
    by (intro keeps_if keeps_ret steps_attempt_fact [OF found] keeps_case_sum steps_bind_fact [OF stored] keeps_case_option apply_rec)
      auto
qed

lemma steps_both:
  assumes "steps I P m Q" "keeps I P' m" shows "steps I (\<lambda>ev. P ev \<and> P' ev) m Q"
  using assms unfolding steps_def by (metis same_append_eq)

fun unwritten :: "event \<Rightarrow> bool" where
  "unwritten (EvUpdateWorkload wl) = False"
| "unwritten (EvStatusUpdateNHC y) = False"
| "unwritten ev = True"

lemma unwritten_final: "footprint (Some ns) [] [] ev \<Longrightarrow> unwritten ev \<Longrightarrow> final_calls x ns ev"
  by (cases ev) simp_all

lemma final_deletes:
  assumes "lawful env" shows "keeps (on_check x) (final_calls x ns) (Delete env ns)"
proof -
  have deletes: "keeps (on_check x) unwritten (Delete env ns)"
    unfolding Delete_def delete_binding_def by (intro emits_intros) simp_all
  have "keeps (on_check x) (footprint (Some ns) [] []) (Delete env ns)"
    by (rule keeps_Delete_any [OF assms]) simp
  from steps_both [OF this deletes] show ?thesis
    by (rule steps_weaken) (simp_all add: unwritten_final)
qed

lemma final_watches: "keeps (on_check x) (final_calls x ns) (all_running fuel env t rs)"
proof -
  have ready: "keeps (on_check x) (final_calls x ns) (wait_ready n env wl t)" for n wl
    by (induction n arbitrary: wl)
      (auto simp: refetch_workload_def get_workload_def VerifyReadiness_def GetPodsForWorkload_def list_pods_def intro!: emits_intros)
  show ?thesis
    by (induction rs) (auto simp: nhc_GetWorkloadUnderTest_def get_workload_def record_event_def intro!: emits_intros ready)
qed

lemma final_hardens_all:
  assumes "lawful env" shows "\<forall>r \<in> set rs. u_Namespace r = ns \<Longrightarrow> keeps (on_check x) (final_calls x ns) (harden_all fuel env rs)"
proof (induction rs)
  case (Cons r rs)
  then have "keeps (on_check x) (final_calls x ns) (harden_resource fuel env r)"
    "keeps (on_check x) (final_calls x ns) (harden_all fuel env rs)"
    by (simp_all add: final_hardens [OF assms])
  then show ?case by (simp add: keeps_attempt)
qed (simp add: keeps_ret)

lemma final_namespace_fresh: "length (target_of x) < 63 \<Longrightarrow> target_of x \<noteq> final_namespace x"
  by (auto simp: final_namespace_def Let_def dest: arg_cong [where f = length] split: if_splits)

lemma final_creates:
  assumes "lawful env" "service_conversion env" "lists_in_namespace env" "length (target_of x) < 63"
  shows "keeps (on_check x) (final_calls x (final_namespace x)) (createFinalCheckRun fuel env)"
proof -
  let ?I = "on_check x" and ?ns = "final_namespace x"
  let ?P = "final_calls x ?ns"
  have stored: "steps ?I ?P (gets w_nhc) (\<lambda>y w. ?I w \<and> y = x)" by (rule steps_gets) (simp add: on_check_def)
  have clone: "keeps ?I ?P (Clone env (target_of x) ?ns (suffix_of x))"
    by (rule steps_weaken [OF keeps_Clone [OF assms(2) final_namespace_fresh [OF assms(4)], of ?I]])
      (simp_all add: final_calls_clone)
  have got: "keeps ?I ?P (ask (EvGetNamespace ?ns) (\<lambda>tr. e_GetNamespace env tr ?ns))" by (rule keeps_ask) simp_all
  have listed: "steps ?I ?P (GetTopLevelResources env ?ns) (\<lambda>rs w. ?I w \<and> (\<forall>r \<in> set rs. u_Namespace r = ?ns))"
    by (rule steps_GetTopLevelResources [OF assms(3)]) simp_all
  have check: "keeps ?I ?P (check_clone fuel env ?ns rs)" if "\<forall>r \<in> set rs. u_Namespace r = ?ns" for rs
    unfolding check_clone_def
    by (intro emits_intros final_hardens_all [OF assms(1) that] final_watches final_deletes assms(1)) simp_all
  have body: "keeps ?I ?P (do {
      ask (EvGetNamespace ?ns) (\<lambda>tr. e_GetNamespace env tr ?ns);
      topLevelResources \<leftarrow> GetTopLevelResources env ?ns;
      if topLevelResources = [] then ret (Ret (True, None)) else check_clone fuel env ?ns topLevelResources })"
    by (intro keeps_bind [OF got] steps_bind_fact [OF listed] keeps_if keeps_ret check)
  have "keeps ?I ?P (attempt (Clone env (target_of x) ?ns (suffix_of x)) (\<lambda>e.
      if (case e of None \<Rightarrow> False | Some err \<Rightarrow> \<not> IsAlreadyExists err) then ret (Ret (False, e))
      else do {
        ask (EvGetNamespace ?ns) (\<lambda>tr. e_GetNamespace env tr ?ns);
        topLevelResources \<leftarrow> GetTopLevelResources env ?ns;
        if topLevelResources = [] then ret (Ret (True, None)) else check_clone fuel env ?ns topLevelResources }))"
    by (rule keeps_attempt [OF clone], rule keeps_if [OF keeps_ret body])
  then show ?thesis
    unfolding createFinalCheckRun_def Let_def by - (rule steps_bind_fact [OF stored], hypsubst, assumption)
qed

text \<open>The condition that reports the outcome is written to the object of the same name.\<close>

fun reports :: "event \<Rightarrow> bool" where
  "reports EvNow = True"
| "reports (EvGetNHC n) = True"
| "reports (EvStatusUpdateNHC y) = True"
| "reports ev = False"

lemma reports_final: "nhc_controls env (nhc_Name x) ev \<Longrightarrow> reports ev \<Longrightarrow> final_calls x ns ev"
  by (cases ev) simp_all

lemma final_reports:
  assumes "lawful env" "nhc_laws env"
  shows "steps (on_check x) (final_calls x ns) (nhc_set env t s r m) (\<lambda>_. anywhere)"
proof -
  have "keeps anywhere reports (nhc_set env t s r m)"
    unfolding nhc_set_def nhc_SetCondition_def nhc_condition_attempt_def nhc_status_attempt_def
    by (intro emits_intros lawful_laws(2) [OF assms(1)]) simp_all
  then have "keeps (named (nhc_Name x)) reports (nhc_set env t s r m)"
    using keeps_nhc_set [OF assms] unfolding steps_def by (simp add: anywhere_def)
  from steps_both [OF keeps_nhc_set [OF assms] this] show ?thesis
    by (rule steps_weaken) (auto simp: on_check_def named_def intro: reports_final)
qed


lemma nhc_env_lists: "lists_in_namespace nhc_env" "service_conversion nhc_env"
  by (simp_all add: lists_in_namespace_def service_conversion_def nhc_env_def ref_env_def without_addresses_def)


section \<open>A clone that exists already\<close>

text \<open>
  Both users of a clone mean to go on with one that exists already, but \<open>Clone\<close> reports it by an error that does not
  say \<open>AlreadyExists\<close>: nothing is recorded, and the final check is reported as failed.
\<close>

lemma existing_clone:
  assumes "e_GetNamespace env (w_trace w) tgt = Inr ns"
  obtains e where "run_state (Clone env src tgt suffix) w = (Ret (Some e), w\<lparr>w_trace := w_trace w @ [EvGetNamespace tgt]\<rparr>)"
    "\<not> IsAlreadyExists e"
  using assms by (simp add: Clone_def run_bind run_ask run_ret)

lemma existing_clone_fails_final:
  assumes "e_GetNamespace env (w_trace w) (final_namespace (w_nhc w)) = Inr ns"
  shows "\<exists>e. run_state (createFinalCheckRun fuel env) w
    = (Ret (False, Some e), w\<lparr>w_trace := w_trace w @ [EvGetNamespace (final_namespace (w_nhc w))]\<rparr>)"
proof -
  obtain e where "run_state (Clone env (target_of (w_nhc w)) (final_namespace (w_nhc w)) (suffix_of (w_nhc w))) w
      = (Ret (Some e), w\<lparr>w_trace := w_trace w @ [EvGetNamespace (final_namespace (w_nhc w))]\<rparr>)" "\<not> IsAlreadyExists e"
    using existing_clone [OF assms] .
  then show ?thesis by (simp add: createFinalCheckRun_def Let_def run_bind run_gets run_attempt run_ret)
qed

lemma existing_clone_stops_recording:
  assumes "\<And>tr. \<exists>ns. e_GetNamespace env tr (baseline_namespace x t) = Inr ns"
  shows "\<exists>e. fst (run_state (recordAllWorkloads fuel env x t) w) = Ret (Some e)"
proof -
  obtain rs w1 where "run_state (GetSupportedWorkloadResources env (target_of x)) w = (rs, w1)" by force
  moreover obtain ns where "e_GetNamespace env (w_trace w1) (baseline_namespace x t) = Inr ns" using assms by blast
  then obtain e where "run_state (Clone env (target_of x) (baseline_namespace x t) (suffix_of x)) w1
      = (Ret (Some e), w1\<lparr>w_trace := w_trace w1 @ [EvGetNamespace (baseline_namespace x t)]\<rparr>)" "\<not> IsAlreadyExists e"
    by (rule existing_clone)
  ultimately show ?thesis by (simp add: recordAllWorkloads_def Let_def run_bind run_attempt run_ret)
qed

end
