(* ===== verification/DeepCopy.thy ===== *)
theory DeepCopy
  imports ApiTypes
begin

text \<open>
  \<open>zz_generated.deepcopy.go\<close> on an explicit memory. Elsewhere in this development a custom resource is a value and
  copying it is no step; here a pointer is an address, so that the deep copies the operator takes (of a resource when
  a manager or a runner is made, of a check run before it is judged, of a security context) are shown to be such values:
  equal to the original and sharing no memory with it. Structs of Kubernetes are of a type \<open>'k\<close> with a
  \<open>DeepCopyInto\<close> of their own, a parameter.
\<close>

section \<open>Memory\<close>

text \<open>
  An address is an index into the memory, a pointer, a slice and a map an optional address (\<open>nil\<close> is \<open>None\<close>). A slice
  points to its elements, a map to its entries. The structs have the fields of the Go types.
\<close>

type_synonym pointer = "nat option"

record Pod_h =
  ph_FSGroup :: pointer
  ph_RunAsUser :: pointer
  ph_RunAsGroup :: pointer
  ph_RunAsNonRoot :: pointer
  ph_SupplementalGroups :: pointer
  ph_SeccompProfile :: pointer

record Container_h =
  ch_RunAsNonRoot :: pointer
  ch_ReadOnlyRootFilesystem :: pointer
  ch_AllowPrivilegeEscalation :: pointer
  ch_CapabilitiesDrop :: pointer
  ch_SeccompProfile :: pointer
  ch_RunAsUser :: pointer
  ch_RunAsGroup :: pointer

record Defaults_h =
  dh_Pod :: pointer
  dh_Container :: pointer

record CheckRun_h =
  rh_Name :: string
  rh_RecordingSuccessfull :: pointer
  rh_CheckSuccessfull :: pointer
  rh_SecurityContext :: pointer
  rh_FailureReason :: string
  rh_LogAnomalies :: pointer
  rh_CpuDeviation :: pointer
  rh_MemoryDeviation :: pointer

record Recommendation_h =
  mh_ContainerSecurityContexts :: pointer
  mh_PodSecurityContext :: pointer

record TargetReference_h =
  th_APIVersion :: string
  th_Kind :: string
  th_Name :: string

record WhcSpec_h =
  wsh_TargetRef :: TargetReference_h
  wsh_BaselineRecordingReference :: pointer
  wsh_RecordingDuration :: string
  wsh_RunMode :: string
  wsh_SecurityContext :: pointer
  wsh_Suffix :: string

record WhcStatus_h =
  wth_Conditions :: pointer
  wth_BaselineRuns :: pointer
  wth_CheckRuns :: pointer
  wth_FinalRun :: pointer
  wth_Recommendation :: pointer

record NhcSpec_h =
  nsh_TargetNamespace :: string
  nsh_RecordingDuration :: string
  nsh_RunMode :: string
  nsh_SecurityContext :: pointer
  nsh_Suffix :: string

record NhcStatus_h =
  nth_Conditions :: pointer
  nth_Recommendations :: pointer

text \<open>\<open>TypeMeta\<close> are two strings; the other metadata is of \<open>'k\<close>.\<close>

record 'k Whc_h =
  wh_TypeMeta :: "string \<times> string"
  wh_ObjectMeta :: 'k
  wh_Spec :: WhcSpec_h
  wh_Status :: WhcStatus_h

record 'k Nhc_h =
  nh_TypeMeta :: "string \<times> string"
  nh_ObjectMeta :: 'k
  nh_Spec :: NhcSpec_h
  nh_Status :: NhcStatus_h

record 'k List_h =
  lh_TypeMeta :: "string \<times> string"
  lh_ListMeta :: 'k
  lh_Items :: pointer

text \<open>What an address can hold; \<open>Zeroed\<close> is memory that \<open>new\<close> or \<open>make\<close> returned and nothing was written to.\<close>

datatype 'k cell =
    Zeroed
  | BoolCell bool
  | IntCell int64
  | IntsCell "int64 list"
  | TextsCell "string list"
  | SeccompCell SeccompProfile
  | PodCell Pod_h
  | ContainerCell Container_h
  | DefaultsCell Defaults_h
  | PointersCell "pointer list"
  | EntriesCell "(string \<times> pointer) list"
  | CheckRunCell CheckRun_h
  | RecommendationCell Recommendation_h
  | TargetReferenceCell TargetReference_h
  | WhcSpecCell WhcSpec_h
  | WhcStatusCell WhcStatus_h
  | NhcSpecCell NhcSpec_h
  | NhcStatusCell NhcStatus_h
  | WhcCell "'k Whc_h"
  | WhcsCell "'k Whc_h list"
  | NhcCell "'k Nhc_h"
  | NhcsCell "'k Nhc_h list"
  | ListCell "'k List_h"
  | K8sCell 'k
  | K8ssCell "'k list"

type_synonym 'k heap = "'k cell list"
type_synonym ('k, 'a) copier = "'a \<Rightarrow> ('k heap, 'a) state"

text \<open>The address of a Go type holds cells of one kind.\<close>

record ('k, 'a) box =
  box_in :: "'a \<Rightarrow> 'k cell"
  box_out :: "'k cell \<Rightarrow> 'a option"

definition new_cell :: "'k cell \<Rightarrow> ('k heap, nat) state" where
  "new_cell c = do { h \<leftarrow> State_Monad.get; State_Monad.set (h @ [c]); ret (length h) }"

definition load :: "nat \<Rightarrow> ('k heap, 'k cell) state" where
  "load a = do { h \<leftarrow> State_Monad.get; ret (h ! a) }"

definition store :: "nat \<Rightarrow> 'k cell \<Rightarrow> ('k heap, unit) state" where
  "store a c = do { h \<leftarrow> State_Monad.get; State_Monad.set (h[a := c]) }"

section \<open>The generated functions\<close>

text \<open>
  The pattern of a pointer field: nil stays nil, and otherwise \<open>*out = new(T)\<close> is filled by the copy of what the
  pointer points to. Memory of the wrong kind under a pointer is excluded by Go's types. The same pattern copies a
  slice or a map, whose elements or entries are copied one by one; Go ranges over the entries of a map in any order,
  which only the addresses of the copies depend on.
\<close>

definition copy_pointer :: "('k, 'a) box \<Rightarrow> ('k, 'a) copier \<Rightarrow> ('k, pointer) copier" where
  "copy_pointer box copy p = (case p of
     None \<Rightarrow> ret None
   | Some a \<Rightarrow> do {
       out \<leftarrow> new_cell Zeroed;
       c \<leftarrow> load a;
       (case box_out box c of
          None \<Rightarrow> ret None
        | Some x \<Rightarrow> do {
            y \<leftarrow> copy x;
            store out (box_in box y);
            ret (Some out) }) })"

definition copy_value :: "('k, 'a) copier" where
  "copy_value x = ret x"

fun copy_elements :: "('k, 'a) copier \<Rightarrow> ('k, 'a list) copier" where
  "copy_elements copy [] = ret []"
| "copy_elements copy (x # xs) = do {
     y \<leftarrow> copy x;
     ys \<leftarrow> copy_elements copy xs;
     ret (y # ys) }"

definition copy_entry :: "('k, 'a) copier \<Rightarrow> ('k, string \<times> 'a) copier" where
  "copy_entry copy kv = do { v \<leftarrow> copy (snd kv); ret (fst kv, v) }"

definition bool_box :: "('k, bool) box" where
  "bool_box = \<lparr>box_in = BoolCell, box_out = (\<lambda>c. case c of BoolCell x \<Rightarrow> Some x | _ \<Rightarrow> None)\<rparr>"

definition int_box :: "('k, int64) box" where
  "int_box = \<lparr>box_in = IntCell, box_out = (\<lambda>c. case c of IntCell x \<Rightarrow> Some x | _ \<Rightarrow> None)\<rparr>"

definition ints_box :: "('k, int64 list) box" where
  "ints_box = \<lparr>box_in = IntsCell, box_out = (\<lambda>c. case c of IntsCell x \<Rightarrow> Some x | _ \<Rightarrow> None)\<rparr>"

definition texts_box :: "('k, string list) box" where
  "texts_box = \<lparr>box_in = TextsCell, box_out = (\<lambda>c. case c of TextsCell x \<Rightarrow> Some x | _ \<Rightarrow> None)\<rparr>"

definition seccomp_box :: "('k, SeccompProfile) box" where
  "seccomp_box = \<lparr>box_in = SeccompCell, box_out = (\<lambda>c. case c of SeccompCell x \<Rightarrow> Some x | _ \<Rightarrow> None)\<rparr>"

definition pod_box :: "('k, Pod_h) box" where
  "pod_box = \<lparr>box_in = PodCell, box_out = (\<lambda>c. case c of PodCell x \<Rightarrow> Some x | _ \<Rightarrow> None)\<rparr>"

definition container_box :: "('k, Container_h) box" where
  "container_box = \<lparr>box_in = ContainerCell, box_out = (\<lambda>c. case c of ContainerCell x \<Rightarrow> Some x | _ \<Rightarrow> None)\<rparr>"

definition defaults_box :: "('k, Defaults_h) box" where
  "defaults_box = \<lparr>box_in = DefaultsCell, box_out = (\<lambda>c. case c of DefaultsCell x \<Rightarrow> Some x | _ \<Rightarrow> None)\<rparr>"

definition pointers_box :: "('k, pointer list) box" where
  "pointers_box = \<lparr>box_in = PointersCell, box_out = (\<lambda>c. case c of PointersCell x \<Rightarrow> Some x | _ \<Rightarrow> None)\<rparr>"

definition entries_box :: "('k, (string \<times> pointer) list) box" where
  "entries_box = \<lparr>box_in = EntriesCell, box_out = (\<lambda>c. case c of EntriesCell x \<Rightarrow> Some x | _ \<Rightarrow> None)\<rparr>"

definition check_run_box :: "('k, CheckRun_h) box" where
  "check_run_box = \<lparr>box_in = CheckRunCell, box_out = (\<lambda>c. case c of CheckRunCell x \<Rightarrow> Some x | _ \<Rightarrow> None)\<rparr>"

definition recommendation_box :: "('k, Recommendation_h) box" where
  "recommendation_box = \<lparr>box_in = RecommendationCell, box_out = (\<lambda>c. case c of RecommendationCell x \<Rightarrow> Some x | _ \<Rightarrow> None)\<rparr>"

definition target_reference_box :: "('k, TargetReference_h) box" where
  "target_reference_box = \<lparr>box_in = TargetReferenceCell,
     box_out = (\<lambda>c. case c of TargetReferenceCell x \<Rightarrow> Some x | _ \<Rightarrow> None)\<rparr>"

definition whc_spec_box :: "('k, WhcSpec_h) box" where
  "whc_spec_box = \<lparr>box_in = WhcSpecCell, box_out = (\<lambda>c. case c of WhcSpecCell x \<Rightarrow> Some x | _ \<Rightarrow> None)\<rparr>"

definition whc_status_box :: "('k, WhcStatus_h) box" where
  "whc_status_box = \<lparr>box_in = WhcStatusCell, box_out = (\<lambda>c. case c of WhcStatusCell x \<Rightarrow> Some x | _ \<Rightarrow> None)\<rparr>"

definition nhc_spec_box :: "('k, NhcSpec_h) box" where
  "nhc_spec_box = \<lparr>box_in = NhcSpecCell, box_out = (\<lambda>c. case c of NhcSpecCell x \<Rightarrow> Some x | _ \<Rightarrow> None)\<rparr>"

definition nhc_status_box :: "('k, NhcStatus_h) box" where
  "nhc_status_box = \<lparr>box_in = NhcStatusCell, box_out = (\<lambda>c. case c of NhcStatusCell x \<Rightarrow> Some x | _ \<Rightarrow> None)\<rparr>"

definition whc_box :: "('k, 'k Whc_h) box" where
  "whc_box = \<lparr>box_in = WhcCell, box_out = (\<lambda>c. case c of WhcCell x \<Rightarrow> Some x | _ \<Rightarrow> None)\<rparr>"

definition whcs_box :: "('k, 'k Whc_h list) box" where
  "whcs_box = \<lparr>box_in = WhcsCell, box_out = (\<lambda>c. case c of WhcsCell x \<Rightarrow> Some x | _ \<Rightarrow> None)\<rparr>"

definition nhc_box :: "('k, 'k Nhc_h) box" where
  "nhc_box = \<lparr>box_in = NhcCell, box_out = (\<lambda>c. case c of NhcCell x \<Rightarrow> Some x | _ \<Rightarrow> None)\<rparr>"

definition nhcs_box :: "('k, 'k Nhc_h list) box" where
  "nhcs_box = \<lparr>box_in = NhcsCell, box_out = (\<lambda>c. case c of NhcsCell x \<Rightarrow> Some x | _ \<Rightarrow> None)\<rparr>"

definition list_box :: "('k, 'k List_h) box" where
  "list_box = \<lparr>box_in = ListCell, box_out = (\<lambda>c. case c of ListCell x \<Rightarrow> Some x | _ \<Rightarrow> None)\<rparr>"

definition k8s_box :: "('k, 'k) box" where
  "k8s_box = \<lparr>box_in = K8sCell, box_out = (\<lambda>c. case c of K8sCell x \<Rightarrow> Some x | _ \<Rightarrow> None)\<rparr>"

definition k8ss_box :: "('k, 'k list) box" where
  "k8ss_box = \<lparr>box_in = K8ssCell, box_out = (\<lambda>c. case c of K8ssCell x \<Rightarrow> Some x | _ \<Rightarrow> None)\<rparr>"

definition good_box :: "('k, 'a) box \<Rightarrow> bool" where
  "good_box b \<longleftrightarrow> (\<forall>x. box_out b (box_in b x) = Some x)"

lemmas box_defs = bool_box_def int_box_def ints_box_def texts_box_def seccomp_box_def pod_box_def container_box_def
  defaults_box_def pointers_box_def entries_box_def check_run_box_def recommendation_box_def target_reference_box_def
  whc_spec_box_def whc_status_box_def nhc_spec_box_def nhc_status_box_def whc_box_def whcs_box_def nhc_box_def
  nhcs_box_def list_box_def k8s_box_def k8ss_box_def

lemma boxes [simp]:
  "good_box bool_box" "good_box int_box" "good_box ints_box" "good_box texts_box" "good_box seccomp_box"
  "good_box pod_box" "good_box container_box" "good_box defaults_box" "good_box pointers_box" "good_box entries_box"
  "good_box check_run_box" "good_box recommendation_box" "good_box target_reference_box" "good_box whc_spec_box"
  "good_box whc_status_box" "good_box nhc_spec_box" "good_box nhc_status_box" "good_box whc_box" "good_box whcs_box"
  "good_box nhc_box" "good_box nhcs_box" "good_box list_box" "good_box k8s_box" "good_box k8ss_box"
  by (simp_all add: good_box_def box_defs)

text \<open>\<open>DeepCopyInto\<close> for each type, a type before those that contain it.\<close>

definition SeccompProfile_DeepCopyInto :: "('k, SeccompProfile) copier" where
  "SeccompProfile_DeepCopyInto x = ret x"

definition TargetReference_DeepCopyInto :: "('k, TargetReference_h) copier" where
  "TargetReference_DeepCopyInto x = ret x"

definition PodSecurityContextDefaults_DeepCopyInto :: "('k, Pod_h) copier" where
  "PodSecurityContextDefaults_DeepCopyInto x = do {
     fsGroup \<leftarrow> copy_pointer int_box copy_value (ph_FSGroup x);
     runAsUser \<leftarrow> copy_pointer int_box copy_value (ph_RunAsUser x);
     runAsGroup \<leftarrow> copy_pointer int_box copy_value (ph_RunAsGroup x);
     runAsNonRoot \<leftarrow> copy_pointer bool_box copy_value (ph_RunAsNonRoot x);
     supplementalGroups \<leftarrow> copy_pointer ints_box copy_value (ph_SupplementalGroups x);
     seccompProfile \<leftarrow> copy_pointer seccomp_box copy_value (ph_SeccompProfile x);
     ret (x\<lparr>ph_FSGroup := fsGroup, ph_RunAsUser := runAsUser, ph_RunAsGroup := runAsGroup,
       ph_RunAsNonRoot := runAsNonRoot, ph_SupplementalGroups := supplementalGroups,
       ph_SeccompProfile := seccompProfile\<rparr>) }"

definition ContainerSecurityContextDefaults_DeepCopyInto :: "('k, Container_h) copier" where
  "ContainerSecurityContextDefaults_DeepCopyInto x = do {
     runAsNonRoot \<leftarrow> copy_pointer bool_box copy_value (ch_RunAsNonRoot x);
     readOnlyRootFilesystem \<leftarrow> copy_pointer bool_box copy_value (ch_ReadOnlyRootFilesystem x);
     allowPrivilegeEscalation \<leftarrow> copy_pointer bool_box copy_value (ch_AllowPrivilegeEscalation x);
     capabilitiesDrop \<leftarrow> copy_pointer texts_box copy_value (ch_CapabilitiesDrop x);
     seccompProfile \<leftarrow> copy_pointer seccomp_box copy_value (ch_SeccompProfile x);
     runAsUser \<leftarrow> copy_pointer int_box copy_value (ch_RunAsUser x);
     runAsGroup \<leftarrow> copy_pointer int_box copy_value (ch_RunAsGroup x);
     ret (x\<lparr>ch_RunAsNonRoot := runAsNonRoot, ch_ReadOnlyRootFilesystem := readOnlyRootFilesystem,
       ch_AllowPrivilegeEscalation := allowPrivilegeEscalation, ch_CapabilitiesDrop := capabilitiesDrop,
       ch_SeccompProfile := seccompProfile, ch_RunAsUser := runAsUser, ch_RunAsGroup := runAsGroup\<rparr>) }"

definition SecurityContextDefaults_DeepCopyInto :: "('k, Defaults_h) copier" where
  "SecurityContextDefaults_DeepCopyInto x = do {
     pod \<leftarrow> copy_pointer pod_box PodSecurityContextDefaults_DeepCopyInto (dh_Pod x);
     container \<leftarrow> copy_pointer container_box ContainerSecurityContextDefaults_DeepCopyInto (dh_Container x);
     ret (x\<lparr>dh_Pod := pod, dh_Container := container\<rparr>) }"

definition CheckRun_DeepCopyInto :: "('k, CheckRun_h) copier" where
  "CheckRun_DeepCopyInto x = do {
     recordingSuccessfull \<leftarrow> copy_pointer bool_box copy_value (rh_RecordingSuccessfull x);
     checkSuccessfull \<leftarrow> copy_pointer bool_box copy_value (rh_CheckSuccessfull x);
     securityContext \<leftarrow> copy_pointer defaults_box SecurityContextDefaults_DeepCopyInto (rh_SecurityContext x);
     logAnomalies \<leftarrow> copy_pointer entries_box (copy_elements (copy_entry (copy_pointer texts_box copy_value))) (rh_LogAnomalies x);
     cpuDeviation \<leftarrow> copy_pointer bool_box copy_value (rh_CpuDeviation x);
     memoryDeviation \<leftarrow> copy_pointer bool_box copy_value (rh_MemoryDeviation x);
     ret (x\<lparr>rh_RecordingSuccessfull := recordingSuccessfull, rh_CheckSuccessfull := checkSuccessfull,
       rh_SecurityContext := securityContext, rh_LogAnomalies := logAnomalies,
       rh_CpuDeviation := cpuDeviation, rh_MemoryDeviation := memoryDeviation\<rparr>) }"

definition Recommendation_DeepCopyInto :: "('k, 'k) copier \<Rightarrow> ('k, Recommendation_h) copier" where
  "Recommendation_DeepCopyInto k8s x = do {
     containerSecurityContexts \<leftarrow> copy_pointer k8s_box k8s (mh_ContainerSecurityContexts x);
     podSecurityContext \<leftarrow> copy_pointer k8s_box k8s (mh_PodSecurityContext x);
     ret (x\<lparr>mh_ContainerSecurityContexts := containerSecurityContexts, mh_PodSecurityContext := podSecurityContext\<rparr>) }"

definition WorkloadHardeningCheckSpec_DeepCopyInto :: "('k, WhcSpec_h) copier" where
  "WorkloadHardeningCheckSpec_DeepCopyInto x = do {
     baselineRecordingReference \<leftarrow> copy_pointer texts_box copy_value (wsh_BaselineRecordingReference x);
     securityContext \<leftarrow> copy_pointer defaults_box SecurityContextDefaults_DeepCopyInto (wsh_SecurityContext x);
     ret (x\<lparr>wsh_BaselineRecordingReference := baselineRecordingReference, wsh_SecurityContext := securityContext\<rparr>) }"

definition WorkloadHardeningCheckStatus_DeepCopyInto :: "('k, 'k) copier \<Rightarrow> ('k, WhcStatus_h) copier" where
  "WorkloadHardeningCheckStatus_DeepCopyInto k8s x = do {
     conditions \<leftarrow> copy_pointer k8ss_box (copy_elements k8s) (wth_Conditions x);
     baselineRuns \<leftarrow> copy_pointer pointers_box (copy_elements (copy_pointer check_run_box CheckRun_DeepCopyInto)) (wth_BaselineRuns x);
     checkRuns \<leftarrow> copy_pointer entries_box (copy_elements (copy_entry (copy_pointer check_run_box CheckRun_DeepCopyInto))) (wth_CheckRuns x);
     finalRun \<leftarrow> copy_pointer check_run_box CheckRun_DeepCopyInto (wth_FinalRun x);
     recommendation \<leftarrow> copy_pointer recommendation_box (Recommendation_DeepCopyInto k8s) (wth_Recommendation x);
     ret (x\<lparr>wth_Conditions := conditions, wth_BaselineRuns := baselineRuns, wth_CheckRuns := checkRuns,
       wth_FinalRun := finalRun, wth_Recommendation := recommendation\<rparr>) }"

definition WorkloadHardeningCheck_DeepCopyInto :: "('k, 'k) copier \<Rightarrow> ('k, 'k Whc_h) copier" where
  "WorkloadHardeningCheck_DeepCopyInto k8s x = do {
     objectMeta \<leftarrow> k8s (wh_ObjectMeta x);
     spec \<leftarrow> WorkloadHardeningCheckSpec_DeepCopyInto (wh_Spec x);
     status \<leftarrow> WorkloadHardeningCheckStatus_DeepCopyInto k8s (wh_Status x);
     ret (x\<lparr>wh_ObjectMeta := objectMeta, wh_Spec := spec, wh_Status := status\<rparr>) }"

definition WorkloadHardeningCheckList_DeepCopyInto :: "('k, 'k) copier \<Rightarrow> ('k, 'k List_h) copier" where
  "WorkloadHardeningCheckList_DeepCopyInto k8s x = do {
     listMeta \<leftarrow> k8s (lh_ListMeta x);
     items \<leftarrow> copy_pointer whcs_box (copy_elements (WorkloadHardeningCheck_DeepCopyInto k8s)) (lh_Items x);
     ret (x\<lparr>lh_ListMeta := listMeta, lh_Items := items\<rparr>) }"

definition NamespaceHardeningCheckSpec_DeepCopyInto :: "('k, NhcSpec_h) copier" where
  "NamespaceHardeningCheckSpec_DeepCopyInto x = do {
     securityContext \<leftarrow> copy_pointer defaults_box SecurityContextDefaults_DeepCopyInto (nsh_SecurityContext x);
     ret (x\<lparr>nsh_SecurityContext := securityContext\<rparr>) }"

definition NamespaceHardeningCheckStatus_DeepCopyInto :: "('k, 'k) copier \<Rightarrow> ('k, NhcStatus_h) copier" where
  "NamespaceHardeningCheckStatus_DeepCopyInto k8s x = do {
     conditions \<leftarrow> copy_pointer k8ss_box (copy_elements k8s) (nth_Conditions x);
     recommendations \<leftarrow> copy_pointer entries_box
       (copy_elements (copy_entry (copy_pointer recommendation_box (Recommendation_DeepCopyInto k8s)))) (nth_Recommendations x);
     ret (x\<lparr>nth_Conditions := conditions, nth_Recommendations := recommendations\<rparr>) }"

definition NamespaceHardeningCheck_DeepCopyInto :: "('k, 'k) copier \<Rightarrow> ('k, 'k Nhc_h) copier" where
  "NamespaceHardeningCheck_DeepCopyInto k8s x = do {
     objectMeta \<leftarrow> k8s (nh_ObjectMeta x);
     spec \<leftarrow> NamespaceHardeningCheckSpec_DeepCopyInto (nh_Spec x);
     status \<leftarrow> NamespaceHardeningCheckStatus_DeepCopyInto k8s (nh_Status x);
     ret (x\<lparr>nh_ObjectMeta := objectMeta, nh_Spec := spec, nh_Status := status\<rparr>) }"

definition NamespaceHardeningCheckList_DeepCopyInto :: "('k, 'k) copier \<Rightarrow> ('k, 'k List_h) copier" where
  "NamespaceHardeningCheckList_DeepCopyInto k8s x = do {
     listMeta \<leftarrow> k8s (lh_ListMeta x);
     items \<leftarrow> copy_pointer nhcs_box (copy_elements (NamespaceHardeningCheck_DeepCopyInto k8s)) (lh_Items x);
     ret (x\<lparr>lh_ListMeta := listMeta, lh_Items := items\<rparr>) }"

text \<open>
  \<open>DeepCopy\<close> of a type is the pattern of a pointer: nil is returned as nil, and otherwise a new value is filled.
  \<open>DeepCopyObject\<close> turns a nil pointer into a nil interface.
\<close>

definition SeccompProfile_DeepCopy :: "('k, pointer) copier" where
  "SeccompProfile_DeepCopy = copy_pointer seccomp_box SeccompProfile_DeepCopyInto"

definition TargetReference_DeepCopy :: "('k, pointer) copier" where
  "TargetReference_DeepCopy = copy_pointer target_reference_box TargetReference_DeepCopyInto"

definition PodSecurityContextDefaults_DeepCopy :: "('k, pointer) copier" where
  "PodSecurityContextDefaults_DeepCopy = copy_pointer pod_box PodSecurityContextDefaults_DeepCopyInto"

definition ContainerSecurityContextDefaults_DeepCopy :: "('k, pointer) copier" where
  "ContainerSecurityContextDefaults_DeepCopy = copy_pointer container_box ContainerSecurityContextDefaults_DeepCopyInto"

definition SecurityContextDefaults_DeepCopy :: "('k, pointer) copier" where
  "SecurityContextDefaults_DeepCopy = copy_pointer defaults_box SecurityContextDefaults_DeepCopyInto"

definition CheckRun_DeepCopy :: "('k, pointer) copier" where
  "CheckRun_DeepCopy = copy_pointer check_run_box CheckRun_DeepCopyInto"

definition Recommendation_DeepCopy :: "('k, 'k) copier \<Rightarrow> ('k, pointer) copier" where
  "Recommendation_DeepCopy k8s = copy_pointer recommendation_box (Recommendation_DeepCopyInto k8s)"

definition WorkloadHardeningCheckSpec_DeepCopy :: "('k, pointer) copier" where
  "WorkloadHardeningCheckSpec_DeepCopy = copy_pointer whc_spec_box WorkloadHardeningCheckSpec_DeepCopyInto"

definition WorkloadHardeningCheckStatus_DeepCopy :: "('k, 'k) copier \<Rightarrow> ('k, pointer) copier" where
  "WorkloadHardeningCheckStatus_DeepCopy k8s = copy_pointer whc_status_box (WorkloadHardeningCheckStatus_DeepCopyInto k8s)"

definition WorkloadHardeningCheck_DeepCopy :: "('k, 'k) copier \<Rightarrow> ('k, pointer) copier" where
  "WorkloadHardeningCheck_DeepCopy k8s = copy_pointer whc_box (WorkloadHardeningCheck_DeepCopyInto k8s)"

definition WorkloadHardeningCheckList_DeepCopy :: "('k, 'k) copier \<Rightarrow> ('k, pointer) copier" where
  "WorkloadHardeningCheckList_DeepCopy k8s = copy_pointer list_box (WorkloadHardeningCheckList_DeepCopyInto k8s)"

definition NamespaceHardeningCheckSpec_DeepCopy :: "('k, pointer) copier" where
  "NamespaceHardeningCheckSpec_DeepCopy = copy_pointer nhc_spec_box NamespaceHardeningCheckSpec_DeepCopyInto"

definition NamespaceHardeningCheckStatus_DeepCopy :: "('k, 'k) copier \<Rightarrow> ('k, pointer) copier" where
  "NamespaceHardeningCheckStatus_DeepCopy k8s = copy_pointer nhc_status_box (NamespaceHardeningCheckStatus_DeepCopyInto k8s)"

definition NamespaceHardeningCheck_DeepCopy :: "('k, 'k) copier \<Rightarrow> ('k, pointer) copier" where
  "NamespaceHardeningCheck_DeepCopy k8s = copy_pointer nhc_box (NamespaceHardeningCheck_DeepCopyInto k8s)"

definition NamespaceHardeningCheckList_DeepCopy :: "('k, 'k) copier \<Rightarrow> ('k, pointer) copier" where
  "NamespaceHardeningCheckList_DeepCopy k8s = copy_pointer list_box (NamespaceHardeningCheckList_DeepCopyInto k8s)"

definition WorkloadHardeningCheck_DeepCopyObject :: "('k, 'k) copier \<Rightarrow> ('k, pointer) copier" where
  "WorkloadHardeningCheck_DeepCopyObject k8s p = do {
     c \<leftarrow> WorkloadHardeningCheck_DeepCopy k8s p;
     if c \<noteq> None then ret c else ret None }"

definition WorkloadHardeningCheckList_DeepCopyObject :: "('k, 'k) copier \<Rightarrow> ('k, pointer) copier" where
  "WorkloadHardeningCheckList_DeepCopyObject k8s p = do {
     c \<leftarrow> WorkloadHardeningCheckList_DeepCopy k8s p;
     if c \<noteq> None then ret c else ret None }"

definition NamespaceHardeningCheck_DeepCopyObject :: "('k, 'k) copier \<Rightarrow> ('k, pointer) copier" where
  "NamespaceHardeningCheck_DeepCopyObject k8s p = do {
     c \<leftarrow> NamespaceHardeningCheck_DeepCopy k8s p;
     if c \<noteq> None then ret c else ret None }"

definition NamespaceHardeningCheckList_DeepCopyObject :: "('k, 'k) copier \<Rightarrow> ('k, pointer) copier" where
  "NamespaceHardeningCheckList_DeepCopyObject k8s p = do {
     c \<leftarrow> NamespaceHardeningCheckList_DeepCopy k8s p;
     if c \<noteq> None then ret c else ret None }"

section \<open>What a copy promises\<close>

text \<open>
  \<open>view h x\<close> is what one sees of \<open>x\<close> in the memory \<open>h\<close> by following all pointers, with the addresses met on the
  way; it is \<open>None\<close> if there is an address without a value of the right kind.
\<close>

type_synonym ('k, 'a, 't) view = "'k heap \<Rightarrow> 'a \<Rightarrow> ('t \<times> nat list) option"

definition value_view :: "('k, 'a, 'a) view" where
  "value_view h x = Some (x, [])"

definition pointer_view :: "('k, 'a) box \<Rightarrow> ('k, 'a, 't) view \<Rightarrow> ('k, pointer, 't option) view" where
  "pointer_view box v h p = (case p of
     None \<Rightarrow> Some (None, [])
   | Some a \<Rightarrow>
       (if a < length h then (case box_out box (h ! a) of
          None \<Rightarrow> None
        | Some x \<Rightarrow> map_option (\<lambda>(t, A). (Some t, a # A)) (v h x))
        else None))"

definition pair_view :: "('k, 'a, 't) view \<Rightarrow> ('k, 'b, 'u) view \<Rightarrow> ('k, 'a \<times> 'b, 't \<times> 'u) view" where
  "pair_view v w h xy = (case v h (fst xy) of
     None \<Rightarrow> None
   | Some (t, A) \<Rightarrow> map_option (\<lambda>(u, B). ((t, u), A @ B)) (w h (snd xy)))"

fun list_view :: "('k, 'a, 't) view \<Rightarrow> ('k, 'a list, 't list) view" where
  "list_view v h [] = Some ([], [])"
| "list_view v h (x # xs) = (case v h x of
     None \<Rightarrow> None
   | Some (t, A) \<Rightarrow> map_option (\<lambda>(ts, B). (t # ts, A @ B)) (list_view v h xs))"

definition entry_view :: "('k, 'a, 't) view \<Rightarrow> ('k, string \<times> 'a, string \<times> 't) view" where
  "entry_view v = pair_view value_view v"

text \<open>A struct is seen through its fields, given as nested pairs.\<close>

definition struct_view :: "('a \<Rightarrow> 'b) \<Rightarrow> ('t \<Rightarrow> 'u) \<Rightarrow> ('k, 'b, 't) view \<Rightarrow> ('k, 'a, 'u) view" where
  "struct_view parts g v h x = map_option (\<lambda>(t, A). (g t, A)) (v h (parts x))"

text \<open>
  The contract of a \<open>DeepCopyInto\<close>: it only adds to the memory, and the copy looks like the original and is made of
  added memory only. A view depends on the addresses it has met, and on nothing else.
\<close>

definition unchanged_but :: "nat list \<Rightarrow> 'k heap \<Rightarrow> 'k heap \<Rightarrow> bool" where
  "unchanged_but A h g \<longleftrightarrow> length h \<le> length g \<and> (\<forall>a < length h. a \<notin> set A \<longrightarrow> g ! a = h ! a)"

lemma unchanged_butD:
  "unchanged_but A h g \<Longrightarrow> a < length h \<Longrightarrow> a \<notin> set A \<Longrightarrow> a < length g \<and> g ! a = h ! a"
  by (auto simp: unchanged_but_def)

locale copying =
  fixes view :: "('k, 'a, 't) view" and copy :: "('k, 'a) copier"
  assumes bounded: "view h x = Some (t, A) \<Longrightarrow> a \<in> set A \<Longrightarrow> a < length h"
    and local: "view h x = Some (t, A) \<Longrightarrow> (\<And>a. a \<in> set A \<Longrightarrow> a < length g \<and> g ! a = h ! a) \<Longrightarrow> view g x = Some (t, A)"
    and copies: "view h x = Some (t, A) \<Longrightarrow> \<exists>y ys B. run_state (copy x) h = (y, h @ ys)
      \<and> view (h @ ys) y = Some (t, B) \<and> (\<forall>b \<in> set B. length h \<le> b)"
begin

lemma extended: "view h x = Some (t, A) \<Longrightarrow> view (h @ ys) x = Some (t, A)"
  by (rule local, assumption) (auto dest: bounded simp: nth_append)

text \<open>
  A value and its deep copy: the two look the same and share no address, so that whatever is written through one of
  them, the other looks as before.
\<close>

lemma independent:
  assumes "view h x = Some (t, A)"
  shows "\<exists>y ys B. run_state (copy x) h = (y, h @ ys) \<and> view (h @ ys) x = Some (t, A) \<and> view (h @ ys) y = Some (t, B)
    \<and> set A \<inter> set B = {}
    \<and> (\<forall>g. unchanged_but A (h @ ys) g \<longrightarrow> view g y = Some (t, B)) \<and> (\<forall>g. unchanged_but B (h @ ys) g \<longrightarrow> view g x = Some (t, A))"
proof -
  obtain y ys B where y: "run_state (copy x) h = (y, h @ ys)" "view (h @ ys) y = Some (t, B)" "\<forall>b \<in> set B. length h \<le> b"
    using copies [OF assms] by blast
  have x: "view (h @ ys) x = Some (t, A)" by (rule extended [OF assms])
  have disjoint: "set A \<inter> set B = {}" using bounded [OF assms] y(3) by fastforce
  have "view g y = Some (t, B)" if "unchanged_but A (h @ ys) g" for g
    by (rule local [OF y(2)], rule unchanged_butD [OF that bounded [OF y(2)]]) (use disjoint in auto)
  moreover have "view g x = Some (t, A)" if "unchanged_but B (h @ ys) g" for g
    by (rule local [OF x], rule unchanged_butD [OF that bounded [OF x]]) (use disjoint in auto)
  ultimately show ?thesis using y(1,2) x disjoint by blast
qed

lemma bounded_list: "list_view view h xs = Some (ts, A) \<Longrightarrow> a \<in> set A \<Longrightarrow> a < length h"
  by (induction xs arbitrary: ts A) (auto split: option.splits dest: bounded)

lemma local_list:
  "list_view view h xs = Some (ts, A) \<Longrightarrow> (\<And>a. a \<in> set A \<Longrightarrow> a < length g \<and> g ! a = h ! a) \<Longrightarrow>
   list_view view g xs = Some (ts, A)"
proof (induction xs arbitrary: ts A)
  case (Cons x xs)
  obtain t A1 us A2 where x: "view h x = Some (t, A1)" and xs: "list_view view h xs = Some (us, A2)"
    and ts: "ts = t # us" "A = A1 @ A2" using Cons.prems(1) by (auto split: option.splits)
  have "view g x = Some (t, A1)" by (rule local [OF x]) (use Cons.prems(2) ts in simp)
  moreover have "list_view view g xs = Some (us, A2)" by (rule Cons.IH [OF xs]) (use Cons.prems(2) ts in simp)
  ultimately show ?case by (simp add: ts)
qed simp

lemma copies_list:
  "list_view view h xs = Some (ts, A) \<Longrightarrow> \<exists>zs ys B. run_state (copy_elements copy xs) h = (zs, h @ ys)
     \<and> list_view view (h @ ys) zs = Some (ts, B) \<and> (\<forall>b \<in> set B. length h \<le> b)"
proof (induction xs arbitrary: h ts A)
  case Nil
  then show ?case by auto
next
  case (Cons x xs)
  obtain t A1 us A2 where x: "view h x = Some (t, A1)" and xs: "list_view view h xs = Some (us, A2)"
    and ts: "ts = t # us" using Cons.prems by (auto split: option.splits)
  obtain y ys1 B1 where y: "run_state (copy x) h = (y, h @ ys1)" "view (h @ ys1) y = Some (t, B1)" "\<forall>b \<in> set B1. length h \<le> b"
    using copies [OF x] by blast
  have "list_view view (h @ ys1) xs = Some (us, A2)"
    by (rule local_list [OF xs]) (auto dest: bounded_list [OF xs] simp: nth_append)
  from Cons.IH [OF this] obtain zs ys2 B2 where zs: "run_state (copy_elements copy xs) (h @ ys1) = (zs, (h @ ys1) @ ys2)"
    "list_view view ((h @ ys1) @ ys2) zs = Some (us, B2)" "\<forall>b \<in> set B2. length (h @ ys1) \<le> b" by blast
  have "view ((h @ ys1) @ ys2) y = Some (t, B1)" by (rule extended [OF y(2)])
  then show ?case using y zs
    by (intro exI [of _ "y # zs"] exI [of _ "ys1 @ ys2"] exI [of _ "B1 @ B2"]) (auto simp: ts)
qed

lemma elements: "copying (list_view view) (copy_elements copy)"
  by unfold_locales (fact bounded_list local_list copies_list)+

lemma pointers:
  assumes "good_box box"
  shows "copying (pointer_view box view) (copy_pointer box copy)"
proof unfold_locales
  fix h :: "'k heap" and p t A a
  assume "pointer_view box view h p = Some (t, A)" "a \<in> set A"
  then show "a < length h" by (auto simp: pointer_view_def split: option.splits if_splits dest: bounded)
next
  fix h g :: "'k heap" and p t A
  assume v: "pointer_view box view h p = Some (t, A)" and same: "\<And>a. a \<in> set A \<Longrightarrow> a < length g \<and> g ! a = h ! a"
  show "pointer_view box view g p = Some (t, A)"
  proof (cases p)
    case None
    then show ?thesis using v by (simp add: pointer_view_def)
  next
    case (Some a)
    then obtain x t' A' where x: "box_out box (h ! a) = Some x" "view h x = Some (t', A')" and A: "A = a # A'" "t = Some t'"
      using v by (auto simp: pointer_view_def split: option.splits if_splits)
    have "view g x = Some (t', A')" by (rule local [OF x(2)]) (use same A in simp)
    then show ?thesis using same [of a] x A Some by (simp add: pointer_view_def)
  qed
next
  fix h :: "'k heap" and p t A
  assume v: "pointer_view box view h p = Some (t, A)"
  show "\<exists>q ys B. run_state (copy_pointer box copy p) h = (q, h @ ys) \<and> pointer_view box view (h @ ys) q = Some (t, B)
      \<and> (\<forall>b \<in> set B. length h \<le> b)"
  proof (cases p)
    case None
    then show ?thesis using v by (simp add: copy_pointer_def pointer_view_def)
  next
    case (Some a)
    then obtain x t' A' where a: "a < length h" "box_out box (h ! a) = Some x" and x: "view h x = Some (t', A')" and t: "t = Some t'"
      using v by (auto simp: pointer_view_def split: option.splits if_splits)
    from copies [OF extended [OF x, of "[Zeroed]"]] obtain y ys B where
      y: "run_state (copy x) (h @ [Zeroed]) = (y, (h @ [Zeroed]) @ ys)"
        "view ((h @ [Zeroed]) @ ys) y = Some (t', B)" "\<forall>b \<in> set B. length (h @ [Zeroed]) \<le> b" by blast
    let ?g = "h @ box_in box y # ys"
    have "view ?g y = Some (t', B)"
    proof (rule local [OF y(2)])
      fix b assume "b \<in> set B"
      then have "length h < b" "b < length ((h @ [Zeroed]) @ ys)" using y(3) bounded [OF y(2)] by auto
      then show "b < length ?g \<and> ?g ! b = ((h @ [Zeroed]) @ ys) ! b" by (simp add: nth_append nth_Cons')
    qed
    then have "pointer_view box view ?g (Some (length h)) = Some (t, length h # B)"
      using assms by (simp add: pointer_view_def good_box_def t)
    moreover have "run_state (copy_pointer box copy p) h = (Some (length h), ?g)"
      using a y(1) by (simp add: copy_pointer_def Some new_cell_def load_def store_def nth_append list_update_append)
    moreover have "\<forall>b \<in> set (length h # B). length h \<le> b" using y(3) by auto
    ultimately show ?thesis by blast
  qed
qed

end

subsection \<open>Composition\<close>

definition copy_pair :: "('k, 'a) copier \<Rightarrow> ('k, 'b) copier \<Rightarrow> ('k, 'a \<times> 'b) copier" where
  "copy_pair c d xy = do { x \<leftarrow> c (fst xy); y \<leftarrow> d (snd xy); ret (x, y) }"

lemma copying_value: "copying value_view copy_value"
  by unfold_locales (auto simp: value_view_def copy_value_def)

lemma copying_pair:
  assumes "copying v c" "copying w d"
  shows "copying (pair_view v w) (copy_pair c d)"
proof unfold_locales
  fix h :: "'a heap" and xy t A a
  assume "pair_view v w h xy = Some (t, A)" "a \<in> set A"
  then show "a < length h"
    by (auto simp: pair_view_def split: option.splits dest: copying.bounded [OF assms(1)] copying.bounded [OF assms(2)])
next
  fix h g :: "'a heap" and xy t A
  assume v: "pair_view v w h xy = Some (t, A)" and same: "\<And>a. a \<in> set A \<Longrightarrow> a < length g \<and> g ! a = h ! a"
  then obtain t1 A1 t2 A2 where x: "v h (fst xy) = Some (t1, A1)" and y: "w h (snd xy) = Some (t2, A2)"
    and A: "A = A1 @ A2" "t = (t1, t2)" by (auto simp: pair_view_def split: option.splits)
  have "v g (fst xy) = Some (t1, A1)" by (rule copying.local [OF assms(1) x]) (use same A in simp)
  moreover have "w g (snd xy) = Some (t2, A2)" by (rule copying.local [OF assms(2) y]) (use same A in simp)
  ultimately show "pair_view v w g xy = Some (t, A)" by (simp add: pair_view_def A)
next
  fix h :: "'a heap" and xy t A
  assume "pair_view v w h xy = Some (t, A)"
  then obtain t1 A1 t2 A2 where x: "v h (fst xy) = Some (t1, A1)" and y: "w h (snd xy) = Some (t2, A2)" and t: "t = (t1, t2)"
    by (auto simp: pair_view_def split: option.splits)
  obtain x' ys1 B1 where x': "run_state (c (fst xy)) h = (x', h @ ys1)" "v (h @ ys1) x' = Some (t1, B1)" "\<forall>b \<in> set B1. length h \<le> b"
    using copying.copies [OF assms(1) x] by blast
  obtain y' ys2 B2 where y': "run_state (d (snd xy)) (h @ ys1) = (y', (h @ ys1) @ ys2)"
    "w ((h @ ys1) @ ys2) y' = Some (t2, B2)" "\<forall>b \<in> set B2. length (h @ ys1) \<le> b"
    using copying.copies [OF assms(2) copying.extended [OF assms(2) y, of ys1]] by blast
  have "v ((h @ ys1) @ ys2) x' = Some (t1, B1)" by (rule copying.extended [OF assms(1) x'(2)])
  then show "\<exists>xy' ys B. run_state (copy_pair c d xy) h = (xy', h @ ys) \<and> pair_view v w (h @ ys) xy' = Some (t, B)
      \<and> (\<forall>b \<in> set B. length h \<le> b)"
    using x' y' by (intro exI [of _ "(x', y')"] exI [of _ "ys1 @ ys2"] exI [of _ "B1 @ B2"])
      (auto simp: copy_pair_def pair_view_def t)
qed

lemma copying_struct:
  assumes "copying v c" "\<And>x u. parts (rebuild x u) = u" "\<And>x. copy x = do { u \<leftarrow> c (parts x); ret (rebuild x u) }"
  shows "copying (struct_view parts f v) copy"
proof unfold_locales
  fix h :: "'a heap" and x t A a
  assume "struct_view parts f v h x = Some (t, A)" "a \<in> set A"
  then show "a < length h" by (auto simp: struct_view_def dest: copying.bounded [OF assms(1)])
next
  fix h g :: "'a heap" and x t A
  assume "struct_view parts f v h x = Some (t, A)" and same: "\<And>a. a \<in> set A \<Longrightarrow> a < length g \<and> g ! a = h ! a"
  then obtain t' where t': "v h (parts x) = Some (t', A)" "t = f t'" by (auto simp: struct_view_def)
  have "v g (parts x) = Some (t', A)" by (rule copying.local [OF assms(1) t'(1) same])
  then show "struct_view parts f v g x = Some (t, A)" by (simp add: struct_view_def t'(2))
next
  fix h :: "'a heap" and x t A
  assume "struct_view parts f v h x = Some (t, A)"
  then obtain t' where t': "v h (parts x) = Some (t', A)" "t = f t'" by (auto simp: struct_view_def)
  from copying.copies [OF assms(1) t'(1)]
  show "\<exists>y ys B. run_state (copy x) h = (y, h @ ys) \<and> struct_view parts f v (h @ ys) y = Some (t, B) \<and> (\<forall>b \<in> set B. length h \<le> b)"
    by (auto simp: assms(2,3) struct_view_def t'(2))
qed

lemma copying_entry: "copying v c \<Longrightarrow> copying (entry_view v) (copy_entry c)"
  using copying_pair [OF copying_value, of v c]
  by (simp add: copy_entry_def [abs_def] copy_pair_def [abs_def] copy_value_def entry_view_def)

named_theorems copyings

lemmas [copyings] = copying_value copying_pair copying_entry copying.elements copying.pointers

subsection \<open>The types\<close>

lemmas copy_structs = case_prod_unfold copy_pair_def copy_value_def

text \<open>
  What is seen of the security-context types are the records of theory \<open>ApiTypes\<close>; of the other structs all
  fields as a tuple, in the order of the source.
\<close>

definition PodSecurityContextDefaults_view :: "('k, Pod_h, PodSecurityContextDefaults) view" where
  "PodSecurityContextDefaults_view = struct_view
     (\<lambda>x. (ph_FSGroup x, ph_RunAsUser x, ph_RunAsGroup x, ph_RunAsNonRoot x, ph_SupplementalGroups x, ph_SeccompProfile x))
     (\<lambda>(a, b, c, d, e, f). \<lparr>pod_FSGroup = a, pod_RunAsUser = b, pod_RunAsGroup = c, pod_RunAsNonRoot = d,
        pod_SupplementalGroups = e, pod_SeccompProfile = f\<rparr>)
     (pair_view (pointer_view int_box value_view) (pair_view (pointer_view int_box value_view)
       (pair_view (pointer_view int_box value_view) (pair_view (pointer_view bool_box value_view)
       (pair_view (pointer_view ints_box value_view) (pointer_view seccomp_box value_view))))))"

lemma copying_Pod [copyings]: "copying PodSecurityContextDefaults_view PodSecurityContextDefaults_DeepCopyInto"
  unfolding PodSecurityContextDefaults_view_def
  by (rule copying_struct [where rebuild = "\<lambda>x (a, b, c, d, e, f). x\<lparr>
        ph_FSGroup := a, ph_RunAsUser := b, ph_RunAsGroup := c,
      ph_RunAsNonRoot := d, ph_SupplementalGroups := e, ph_SeccompProfile := f\<rparr>"], (rule copyings boxes)+)
    (simp_all add: copy_structs PodSecurityContextDefaults_DeepCopyInto_def)

definition ContainerSecurityContextDefaults_view where
  "ContainerSecurityContextDefaults_view = struct_view
     (\<lambda>x. (ch_RunAsNonRoot x, ch_ReadOnlyRootFilesystem x, ch_AllowPrivilegeEscalation x, ch_CapabilitiesDrop x,
       ch_SeccompProfile x, ch_RunAsUser x, ch_RunAsGroup x))
     (\<lambda>(a, b, c, d, e, f, g). \<lparr>con_RunAsNonRoot = a, con_ReadOnlyRootFilesystem = b, con_AllowPrivilegeEscalation = c,
        con_CapabilitiesDrop = d, con_SeccompProfile = e, con_RunAsUser = f, con_RunAsGroup = g\<rparr>)
     (pair_view (pointer_view bool_box value_view) (pair_view (pointer_view bool_box value_view)
       (pair_view (pointer_view bool_box value_view) (pair_view (pointer_view texts_box value_view)
       (pair_view (pointer_view seccomp_box value_view) (pair_view (pointer_view int_box value_view)
       (pointer_view int_box value_view)))))))"

lemma copying_ContainerSecurityContextDefaults [copyings]:
  "copying ContainerSecurityContextDefaults_view ContainerSecurityContextDefaults_DeepCopyInto"
  unfolding ContainerSecurityContextDefaults_view_def
  by (rule copying_struct [where rebuild = "\<lambda>x (a, b, c, d, e, f, g). x\<lparr>
        ch_RunAsNonRoot := a, ch_ReadOnlyRootFilesystem := b, ch_AllowPrivilegeEscalation := c,
      ch_CapabilitiesDrop := d, ch_SeccompProfile := e, ch_RunAsUser := f, ch_RunAsGroup := g\<rparr>"],
      (rule copyings boxes | assumption)+)
    (simp_all add: copy_structs ContainerSecurityContextDefaults_DeepCopyInto_def)

definition SecurityContextDefaults_view where
  "SecurityContextDefaults_view = struct_view
     (\<lambda>x. (dh_Pod x, dh_Container x))
     (\<lambda>(a, b). \<lparr>scd_Pod = a, scd_Container = b\<rparr>)
     (pair_view (pointer_view pod_box PodSecurityContextDefaults_view)
       (pointer_view container_box ContainerSecurityContextDefaults_view))"

lemma copying_SecurityContextDefaults [copyings]:
  "copying SecurityContextDefaults_view SecurityContextDefaults_DeepCopyInto"
  unfolding SecurityContextDefaults_view_def
  by (rule copying_struct [where rebuild = "\<lambda>x (a, b). x\<lparr>dh_Pod := a, dh_Container := b\<rparr>"],
      (rule copyings boxes | assumption)+)
    (simp_all add: copy_structs SecurityContextDefaults_DeepCopyInto_def)

definition CheckRun_view where
  "CheckRun_view = struct_view
     (\<lambda>x. (rh_Name x, rh_RecordingSuccessfull x, rh_CheckSuccessfull x, rh_SecurityContext x, rh_FailureReason x,
       rh_LogAnomalies x, rh_CpuDeviation x, rh_MemoryDeviation x))
     (\<lambda>t. t)
     (pair_view value_view (pair_view (pointer_view bool_box value_view)
       (pair_view (pointer_view bool_box value_view)
       (pair_view (pointer_view defaults_box SecurityContextDefaults_view) (pair_view value_view
       (pair_view (pointer_view entries_box (list_view (entry_view (pointer_view texts_box value_view))))
       (pair_view (pointer_view bool_box value_view) (pointer_view bool_box value_view))))))))"

lemma copying_CheckRun [copyings]: "copying CheckRun_view CheckRun_DeepCopyInto"
  unfolding CheckRun_view_def
  by (rule copying_struct [where rebuild = "\<lambda>x (a, b, c, d, e, f, g, i). x\<lparr>
        rh_Name := a, rh_RecordingSuccessfull := b, rh_CheckSuccessfull := c, rh_SecurityContext := d,
      rh_FailureReason := e, rh_LogAnomalies := f, rh_CpuDeviation := g, rh_MemoryDeviation := i\<rparr>"],
      (rule copyings boxes | assumption)+)
    (simp_all add: copy_structs CheckRun_DeepCopyInto_def)

definition Recommendation_view where
  "Recommendation_view vk = struct_view
     (\<lambda>x. (mh_ContainerSecurityContexts x, mh_PodSecurityContext x))
     (\<lambda>t. t)
     (pair_view (pointer_view k8s_box vk) (pointer_view k8s_box vk))"

lemma copying_Recommendation [copyings]:
  "copying vk k8s \<Longrightarrow> copying (Recommendation_view vk) (Recommendation_DeepCopyInto k8s)"
  unfolding Recommendation_view_def
  by (rule copying_struct [where rebuild = "\<lambda>x (a, b). x\<lparr>
        mh_ContainerSecurityContexts := a, mh_PodSecurityContext := b\<rparr>"],
      (rule copyings boxes | assumption)+)
    (simp_all add: copy_structs Recommendation_DeepCopyInto_def)

definition WorkloadHardeningCheckSpec_view where
  "WorkloadHardeningCheckSpec_view = struct_view
     (\<lambda>x. (wsh_TargetRef x, wsh_BaselineRecordingReference x, wsh_RecordingDuration x, wsh_RunMode x, wsh_SecurityContext x,
       wsh_Suffix x))
     (\<lambda>t. t)
     (pair_view value_view (pair_view (pointer_view texts_box value_view) (pair_view value_view
       (pair_view value_view (pair_view (pointer_view defaults_box SecurityContextDefaults_view) value_view)))))"

lemma copying_WorkloadHardeningCheckSpec [copyings]:
  "copying WorkloadHardeningCheckSpec_view WorkloadHardeningCheckSpec_DeepCopyInto"
  unfolding WorkloadHardeningCheckSpec_view_def
  by (rule copying_struct [where rebuild = "\<lambda>x (a, b, c, d, e, f). x\<lparr>
        wsh_TargetRef := a, wsh_BaselineRecordingReference := b, wsh_RecordingDuration := c, wsh_RunMode := d,
      wsh_SecurityContext := e, wsh_Suffix := f\<rparr>"],
      (rule copyings boxes | assumption)+)
    (simp_all add: copy_structs WorkloadHardeningCheckSpec_DeepCopyInto_def)

definition WorkloadHardeningCheckStatus_view where
  "WorkloadHardeningCheckStatus_view vk = struct_view
     (\<lambda>x. (wth_Conditions x, wth_BaselineRuns x, wth_CheckRuns x, wth_FinalRun x, wth_Recommendation x))
     (\<lambda>t. t)
     (pair_view (pointer_view k8ss_box (list_view vk))
       (pair_view (pointer_view pointers_box (list_view (pointer_view check_run_box CheckRun_view)))
       (pair_view (pointer_view entries_box (list_view (entry_view (pointer_view check_run_box CheckRun_view))))
       (pair_view (pointer_view check_run_box CheckRun_view)
       (pointer_view recommendation_box (Recommendation_view vk))))))"

lemma copying_WorkloadHardeningCheckStatus [copyings]:
  "copying vk k8s \<Longrightarrow>
   copying (WorkloadHardeningCheckStatus_view vk) (WorkloadHardeningCheckStatus_DeepCopyInto k8s)"
  unfolding WorkloadHardeningCheckStatus_view_def
  by (rule copying_struct [where rebuild = "\<lambda>x (a, b, c, d, e). x\<lparr>
        wth_Conditions := a, wth_BaselineRuns := b, wth_CheckRuns := c, wth_FinalRun := d, wth_Recommendation := e\<rparr>"],
      (rule copyings boxes | assumption)+)
    (simp_all add: copy_structs WorkloadHardeningCheckStatus_DeepCopyInto_def)

definition WorkloadHardeningCheck_view where
  "WorkloadHardeningCheck_view vk = struct_view
     (\<lambda>x. (wh_TypeMeta x, wh_ObjectMeta x, wh_Spec x, wh_Status x))
     (\<lambda>t. t)
     (pair_view value_view (pair_view vk (pair_view WorkloadHardeningCheckSpec_view
       (WorkloadHardeningCheckStatus_view vk))))"

lemma copying_WorkloadHardeningCheck [copyings]:
  "copying vk k8s \<Longrightarrow>
   copying (WorkloadHardeningCheck_view vk) (WorkloadHardeningCheck_DeepCopyInto k8s)"
  unfolding WorkloadHardeningCheck_view_def
  by (rule copying_struct [where rebuild = "\<lambda>x (a, b, c, d). x\<lparr>
        wh_TypeMeta := a, wh_ObjectMeta := b, wh_Spec := c, wh_Status := d\<rparr>"],
      (rule copyings boxes | assumption)+)
    (simp_all add: copy_structs WorkloadHardeningCheck_DeepCopyInto_def)

definition WorkloadHardeningCheckList_view where
  "WorkloadHardeningCheckList_view vk = struct_view
     (\<lambda>x. (lh_TypeMeta x, lh_ListMeta x, lh_Items x))
     (\<lambda>t. t)
     (pair_view value_view (pair_view vk (pointer_view whcs_box (list_view (WorkloadHardeningCheck_view vk)))))"

lemma copying_WorkloadHardeningCheckList [copyings]:
  "copying vk k8s \<Longrightarrow>
   copying (WorkloadHardeningCheckList_view vk) (WorkloadHardeningCheckList_DeepCopyInto k8s)"
  unfolding WorkloadHardeningCheckList_view_def
  by (rule copying_struct [where rebuild = "\<lambda>x (a, b, c). x\<lparr>
        lh_TypeMeta := a, lh_ListMeta := b, lh_Items := c\<rparr>"],
      (rule copyings boxes | assumption)+)
    (simp_all add: copy_structs WorkloadHardeningCheckList_DeepCopyInto_def)

definition NamespaceHardeningCheckSpec_view where
  "NamespaceHardeningCheckSpec_view = struct_view
     (\<lambda>x. (nsh_TargetNamespace x, nsh_RecordingDuration x, nsh_RunMode x, nsh_SecurityContext x, nsh_Suffix x))
     (\<lambda>t. t)
     (pair_view value_view (pair_view value_view (pair_view value_view
       (pair_view (pointer_view defaults_box SecurityContextDefaults_view) value_view))))"

lemma copying_NamespaceHardeningCheckSpec [copyings]:
  "copying NamespaceHardeningCheckSpec_view NamespaceHardeningCheckSpec_DeepCopyInto"
  unfolding NamespaceHardeningCheckSpec_view_def
  by (rule copying_struct [where rebuild = "\<lambda>x (a, b, c, d, e). x\<lparr>
        nsh_TargetNamespace := a, nsh_RecordingDuration := b, nsh_RunMode := c, nsh_SecurityContext := d,
      nsh_Suffix := e\<rparr>"],
      (rule copyings boxes | assumption)+)
    (simp_all add: copy_structs NamespaceHardeningCheckSpec_DeepCopyInto_def)

definition NamespaceHardeningCheckStatus_view where
  "NamespaceHardeningCheckStatus_view vk = struct_view
     (\<lambda>x. (nth_Conditions x, nth_Recommendations x))
     (\<lambda>t. t)
     (pair_view (pointer_view k8ss_box (list_view vk))
       (pointer_view entries_box (list_view (entry_view (pointer_view recommendation_box (Recommendation_view vk))))))"

lemma copying_NamespaceHardeningCheckStatus [copyings]:
  "copying vk k8s \<Longrightarrow>
   copying (NamespaceHardeningCheckStatus_view vk) (NamespaceHardeningCheckStatus_DeepCopyInto k8s)"
  unfolding NamespaceHardeningCheckStatus_view_def
  by (rule copying_struct [where rebuild = "\<lambda>x (a, b). x\<lparr>
        nth_Conditions := a, nth_Recommendations := b\<rparr>"],
      (rule copyings boxes | assumption)+)
    (simp_all add: copy_structs NamespaceHardeningCheckStatus_DeepCopyInto_def)

definition NamespaceHardeningCheck_view where
  "NamespaceHardeningCheck_view vk = struct_view
     (\<lambda>x. (nh_TypeMeta x, nh_ObjectMeta x, nh_Spec x, nh_Status x))
     (\<lambda>t. t)
     (pair_view value_view (pair_view vk (pair_view NamespaceHardeningCheckSpec_view
       (NamespaceHardeningCheckStatus_view vk))))"

lemma copying_NamespaceHardeningCheck [copyings]:
  "copying vk k8s \<Longrightarrow>
   copying (NamespaceHardeningCheck_view vk) (NamespaceHardeningCheck_DeepCopyInto k8s)"
  unfolding NamespaceHardeningCheck_view_def
  by (rule copying_struct [where rebuild = "\<lambda>x (a, b, c, d). x\<lparr>
        nh_TypeMeta := a, nh_ObjectMeta := b, nh_Spec := c, nh_Status := d\<rparr>"],
      (rule copyings boxes | assumption)+)
    (simp_all add: copy_structs NamespaceHardeningCheck_DeepCopyInto_def)

definition NamespaceHardeningCheckList_view where
  "NamespaceHardeningCheckList_view vk = struct_view
     (\<lambda>x. (lh_TypeMeta x, lh_ListMeta x, lh_Items x))
     (\<lambda>t. t)
     (pair_view value_view (pair_view vk (pointer_view nhcs_box (list_view (NamespaceHardeningCheck_view vk)))))"

lemma copying_NamespaceHardeningCheckList [copyings]:
  "copying vk k8s \<Longrightarrow>
   copying (NamespaceHardeningCheckList_view vk) (NamespaceHardeningCheckList_DeepCopyInto k8s)"
  unfolding NamespaceHardeningCheckList_view_def
  by (rule copying_struct [where rebuild = "\<lambda>x (a, b, c). x\<lparr>
        lh_TypeMeta := a, lh_ListMeta := b, lh_Items := c\<rparr>"],
      (rule copyings boxes | assumption)+)
    (simp_all add: copy_structs NamespaceHardeningCheckList_DeepCopyInto_def)

lemma copying_plain [copyings]:
  "copying value_view SeccompProfile_DeepCopyInto" "copying value_view TargetReference_DeepCopyInto"
  using copying_value
  by (simp_all add: SeccompProfile_DeepCopyInto_def [abs_def] TargetReference_DeepCopyInto_def [abs_def] copy_value_def [abs_def])

interpretation security_context: copying SecurityContextDefaults_view SecurityContextDefaults_DeepCopyInto
  by (rule copying_SecurityContextDefaults)

interpretation check_run: copying CheckRun_view CheckRun_DeepCopyInto
  by (rule copying_CheckRun)

section \<open>Deep copies are independent\<close>

definition independent_copy :: "('k, 'a, 't) view \<Rightarrow> ('k, 'a) copier \<Rightarrow> bool" where
  "independent_copy view copy \<longleftrightarrow> (\<forall>h x t A. view h x = Some (t, A) \<longrightarrow>
     (\<exists>y ys B. run_state (copy x) h = (y, h @ ys) \<and> view (h @ ys) x = Some (t, A) \<and> view (h @ ys) y = Some (t, B)
        \<and> set A \<inter> set B = {}
        \<and> (\<forall>g. unchanged_but A (h @ ys) g \<longrightarrow> view g y = Some (t, B))
        \<and> (\<forall>g. unchanged_but B (h @ ys) g \<longrightarrow> view g x = Some (t, A))))"

lemma copying_independent: "copying view copy \<Longrightarrow> independent_copy view copy"
  unfolding independent_copy_def by (intro allI impI) (rule copying.independent)

text \<open>Handing out the pointer itself, as the manager does with the security context of a specification, is none.\<close>

lemma shared_pointer_dependent:
  "\<not> independent_copy (pointer_view defaults_box SecurityContextDefaults_view) (copy_value :: ('k, pointer) copier)"
proof
  let ?view = "pointer_view defaults_box SecurityContextDefaults_view"
  let ?h = "[DefaultsCell \<lparr>dh_Pod = None, dh_Container = None\<rparr>] :: 'k heap"
  let ?t = "Some \<lparr>scd_Pod = None, scd_Container = None\<rparr>"
  note seen = pointer_view_def defaults_box_def SecurityContextDefaults_view_def struct_view_def pair_view_def
  assume "independent_copy ?view (copy_value :: ('k, pointer) copier)"
  moreover have "?view ?h (Some 0) = Some (?t, [0])" by (simp add: seen)
  ultimately obtain y ys B where y: "run_state (copy_value (Some 0)) ?h = (y, ?h @ ys)" and B: "?view (?h @ ys) y = Some (?t, B)"
    "set [0] \<inter> set B = {}" unfolding independent_copy_def by meson
  have "y = Some 0" "ys = []" using y by (simp_all add: copy_value_def)
  then show False using B by (simp add: seen)
qed

lemma deep_copy_objects:
  "WorkloadHardeningCheck_DeepCopyObject k8s = WorkloadHardeningCheck_DeepCopy k8s"
  "WorkloadHardeningCheckList_DeepCopyObject k8s = WorkloadHardeningCheckList_DeepCopy k8s"
  "NamespaceHardeningCheck_DeepCopyObject k8s = NamespaceHardeningCheck_DeepCopy k8s"
  "NamespaceHardeningCheckList_DeepCopyObject k8s = NamespaceHardeningCheckList_DeepCopy k8s"
proof -
  have object: "do { c \<leftarrow> m; if c \<noteq> None then ret c else ret None } = m" for m :: "('k heap, pointer) state"
  proof -
    have "(\<lambda>c. if c \<noteq> None then ret c else ret None) = (ret :: pointer \<Rightarrow> ('k heap, pointer) state)" by (rule ext) auto
    then show ?thesis by simp
  qed
  show "WorkloadHardeningCheck_DeepCopyObject k8s = WorkloadHardeningCheck_DeepCopy k8s"
    by (rule ext) (simp only: WorkloadHardeningCheck_DeepCopyObject_def object)
  show "WorkloadHardeningCheckList_DeepCopyObject k8s = WorkloadHardeningCheckList_DeepCopy k8s"
    by (rule ext) (simp only: WorkloadHardeningCheckList_DeepCopyObject_def object)
  show "NamespaceHardeningCheck_DeepCopyObject k8s = NamespaceHardeningCheck_DeepCopy k8s"
    by (rule ext) (simp only: NamespaceHardeningCheck_DeepCopyObject_def object)
  show "NamespaceHardeningCheckList_DeepCopyObject k8s = NamespaceHardeningCheckList_DeepCopy k8s"
    by (rule ext) (simp only: NamespaceHardeningCheckList_DeepCopyObject_def object)
qed

lemmas deep_copies = WorkloadHardeningCheck_DeepCopy_def WorkloadHardeningCheckList_DeepCopy_def
  NamespaceHardeningCheck_DeepCopy_def NamespaceHardeningCheckList_DeepCopy_def Recommendation_DeepCopy_def
  CheckRun_DeepCopy_def SecurityContextDefaults_DeepCopy_def

text \<open>
  C40. The generated deep copies are copies: of a resource of either kind, a list of them, a check run, a recommendation
  or a security context, whatever is reachable from it, the copy looks like the original in every field, nil and
  empty kept apart, copying changes nothing that exists, and the two share no memory, so that no write through one of
  them is seen through the other.
\<close>

theorem deep_copies_independent:
  assumes "copying vk (k8s :: ('k, 'k) copier)"
  shows "independent_copy (pointer_view whc_box (WorkloadHardeningCheck_view vk)) (WorkloadHardeningCheck_DeepCopyObject k8s)
    \<and> independent_copy (pointer_view list_box (WorkloadHardeningCheckList_view vk)) (WorkloadHardeningCheckList_DeepCopyObject k8s)
    \<and> independent_copy (pointer_view nhc_box (NamespaceHardeningCheck_view vk)) (NamespaceHardeningCheck_DeepCopyObject k8s)
    \<and> independent_copy (pointer_view list_box (NamespaceHardeningCheckList_view vk)) (NamespaceHardeningCheckList_DeepCopyObject k8s)
    \<and> independent_copy (pointer_view recommendation_box (Recommendation_view vk)) (Recommendation_DeepCopy k8s)
    \<and> independent_copy (pointer_view check_run_box CheckRun_view) (CheckRun_DeepCopy :: ('k, pointer) copier)
    \<and> independent_copy (pointer_view defaults_box SecurityContextDefaults_view) (SecurityContextDefaults_DeepCopy :: ('k, pointer) copier)"
  unfolding deep_copy_objects deep_copies by (intro conjI copying_independent copyings boxes assms)

text \<open>
  A check run whose security context runs as user 1000: after it was copied, user 0 is written to the original.
\<close>

definition user_run :: "string heap" where
  "user_run = [
     CheckRunCell \<lparr>rh_Name = ''user'', rh_RecordingSuccessfull = None, rh_CheckSuccessfull = None, rh_SecurityContext = Some 1,
       rh_FailureReason = [], rh_LogAnomalies = None, rh_CpuDeviation = None, rh_MemoryDeviation = None\<rparr>,
     DefaultsCell \<lparr>dh_Pod = Some 2, dh_Container = None\<rparr>,
     PodCell \<lparr>ph_FSGroup = None, ph_RunAsUser = Some 3, ph_RunAsGroup = None, ph_RunAsNonRoot = None,
       ph_SupplementalGroups = None, ph_SeccompProfile = None\<rparr>,
     IntCell 1000]"

theorem deep_copies_independent_witness:
  "let (q, g) = run_state (CheckRun_DeepCopy (Some 0)) user_run
   in map_option fst (pointer_view check_run_box CheckRun_view (g[3 := IntCell 0]) q)
      = map_option fst (pointer_view check_run_box CheckRun_view user_run (Some 0))"
proof -
  let ?view = "pointer_view check_run_box CheckRun_view"
  have "copying value_view (copy_value :: (string, string) copier)" by (rule copying_value)
  then have "independent_copy ?view (CheckRun_DeepCopy :: (string, pointer) copier)" by - (drule deep_copies_independent, simp)
  moreover obtain t where t: "?view user_run (Some 0) = Some (t, [0, 1, 2, 3])"
    by (simp add: user_run_def pointer_view_def box_defs CheckRun_view_def SecurityContextDefaults_view_def
        PodSecurityContextDefaults_view_def struct_view_def pair_view_def value_view_def)
  ultimately obtain q ys B where q: "run_state (CheckRun_DeepCopy (Some 0)) user_run = (q, user_run @ ys)"
    "\<forall>g. unchanged_but [0, 1, 2, 3] (user_run @ ys) g \<longrightarrow> ?view g q = Some (t, B)"
    unfolding independent_copy_def by meson
  moreover have "unchanged_but [0, 1, 2, 3] (user_run @ ys) ((user_run @ ys)[3 := IntCell 0])"
    by (simp add: unchanged_but_def)
  ultimately show ?thesis by (simp add: t)
qed

end
