(* ===== verification/Naming.thy ===== *)
theory Naming
  imports FinalCheck
begin

text \<open>
  The names the operator makes up against the rules of the API server: the names of the clones, and the workload
  checks that a namespace check creates, with their names, labels and specifications.
\<close>

section \<open>Rules\<close>

text \<open>
  The documented syntax of names and labels, and the patterns of \<open>config/crd\<close> for the two specifications. The
  suffix of an admitted namespace check is set, since the webhook requires it.
\<close>

definition label_char :: "char \<Rightarrow> bool" where
  "label_char c \<longleftrightarrow> lower_alnum c \<or> c = CHR ''-''"

definition label_text :: "string \<Rightarrow> bool" where
  "label_text = bounded_by lower_alnum label_char lower_alnum"

definition dns_label :: "string \<Rightarrow> bool" where
  "dns_label s \<longleftrightarrow> label_text s \<and> length s \<le> 63"

definition label_value :: "string \<Rightarrow> bool" where
  "label_value s \<longleftrightarrow> (s = [] \<or> qualified_name s) \<and> length s \<le> 63"

definition duration_admitted :: "string \<Rightarrow> bool" where
  "duration_admitted s \<longleftrightarrow> 2 \<le> length s \<and> list_all is_digit (butlast s) \<and> last s \<in> {CHR ''s'', CHR ''m'', CHR ''h''}"

definition mode_admitted :: "string \<Rightarrow> bool" where
  "mode_admitted m \<longleftrightarrow> m \<in> {RunModeParallel, RunModeSequential}"

definition suffix_admitted :: "string \<Rightarrow> bool" where
  "suffix_admitted s \<longleftrightarrow> list_all label_char s \<and> length s \<le> 15"

definition whc_spec_admitted :: "WorkloadHardeningCheckSpec \<Rightarrow> bool" where
  "whc_spec_admitted s \<longleftrightarrow> suffix_admitted (spec_Suffix s) \<and> duration_admitted (spec_RecordingDuration s)
     \<and> mode_admitted (spec_RunMode s)
     \<and> tr_Kind (spec_TargetRef s) \<in> {''Deployment'', ''StatefulSet'', ''DaemonSet''}
     \<and> label_text (tr_Name (spec_TargetRef s)) \<and> length (tr_Name (spec_TargetRef s)) \<le> 253"

definition whc_admitted :: "WorkloadHardeningCheck \<Rightarrow> bool" where
  "whc_admitted x \<longleftrightarrow> whc_spec_admitted (whc_Spec x) \<and> dns_subdomain (whc_Name x) \<and> length (whc_Name x) \<le> 253
     \<and> dns_label (whc_Namespace x) \<and> list_all (\<lambda>(k, v). label_value v) (whc_Labels x)"

definition nhc_admitted :: "NamespaceHardeningCheck \<Rightarrow> bool" where
  "nhc_admitted x \<longleftrightarrow> list_all lower_alnum (suffix_of x) \<and> suffix_of x \<noteq> [] \<and> length (suffix_of x) \<le> 5
     \<and> dns_label (target_of x) \<and> duration_admitted (nspec_RecordingDuration (nhc_Spec x))
     \<and> mode_admitted (nspec_RunMode (nhc_Spec x)) \<and> qualified_name (nhc_Name x)"

lemma ascii_lower_label: "label_char c \<Longrightarrow> ascii_lower c = c"
  by (auto simp: label_char_def lower_alnum_def in_range_def ascii_lower_def Let_def)

lemma to_lower_label: "list_all label_char s \<Longrightarrow> to_lower s = s"
  by (induction s) (simp_all add: to_lower_Cons ascii_lower_label)

lemma label_chars:
  "label_char (CHR ''-'')" "\<not> lower_alnum (CHR ''-'')" "\<not> label_char (CHR ''.'')" "\<not> lower_alnum (CHR ''.'')"
  "lower_alnum c \<Longrightarrow> label_char c" "lower_alnum c \<Longrightarrow> alnum c"
  by (auto simp: label_char_def lower_alnum_def in_range_def alnum_def letter_def)

lemma label_text_simps: "label_text s \<longleftrightarrow> s \<noteq> [] \<and> lower_alnum (hd s) \<and> list_all label_char s \<and> lower_alnum (last s)"
  by (simp add: label_text_def bounded_by_def)

section \<open>The names of the clones\<close>

definition run_types :: "string set" where
  "run_types = {''baseline'', ''baseline-2'', ''Final''} \<union> check_types"

lemma run_types_eq: "run_types = {''baseline'', ''baseline-2'', ''Final'', ''allowPrivilegeEscalation'', ''dropAllCapabilities'',
    ''group'', ''readOnlyRootFilesystem'', ''user''}"
  unfolding run_types_def check_types_def GetAllChecks_eq dom_map_of_conv_image_fst by (simp only: list.set image_insert fst_conv) auto

lemma run_type_dash: "map lower_alnum (to_lower ''baseline-2'') = map (\<lambda>i. i \<noteq> 8) [0..<10]"
  by code_simp

lemma run_type_alnum: "t \<in> run_types \<Longrightarrow> t \<noteq> ''baseline-2'' \<Longrightarrow> list_all lower_alnum (to_lower t)"
  unfolding run_types_eq by (elim insertE emptyE; hypsubst; code_simp)

lemma run_type_chars:
  assumes "t \<in> run_types"
  shows "t \<noteq> []" "i < length t \<Longrightarrow> lower_alnum (to_lower t ! i) \<longleftrightarrow> \<not> (t = ''baseline-2'' \<and> i = 8)" "list_all label_char (to_lower t)"
proof -
  show "t \<noteq> []" using assms unfolding run_types_eq by blast
  show "lower_alnum (to_lower t ! i) \<longleftrightarrow> \<not> (t = ''baseline-2'' \<and> i = 8)" if i: "i < length t"
  proof (cases "t = ''baseline-2''")
    case True
    then have "i < 10" using i by simp
    then have "map lower_alnum (to_lower ''baseline-2'') ! i \<longleftrightarrow> i \<noteq> 8" unfolding run_type_dash by simp
    then show ?thesis using True i by (simp only: nth_map length_to_lower) simp
  next
    case False
    then show ?thesis using run_type_alnum [OF assms False] i by (simp add: list_all_length)
  qed
  show "list_all label_char (to_lower t)"
  proof (cases "t = ''baseline-2''")
    case True
    show ?thesis unfolding True by code_simp
  next
    case False
    then show ?thesis using run_type_alnum [OF assms False] label_chars(5) unfolding list_all_iff by blast
  qed
qed

text \<open>
  C30. The clone of a run gets a name that a namespace may have, for every run of an admitted resource but one: the
  second baseline, when the namespace, cut to 45 characters, and the suffix have 52 characters together, gets a name
  that is cut behind the dash of its type and ends with it. With the default suffix of eight that is
  every namespace whose name has 44 characters.
\<close>

theorem clone_name_valid_iff:
  assumes "dns_label (whc_Namespace x)" and "suffix_admitted (spec_Suffix (whc_Spec x))" and "t \<in> run_types"
  shows "dns_label (generateTargetNamespaceName x t) \<longleftrightarrow>
    \<not> (t = ''baseline-2'' \<and> min 45 (length (whc_Namespace x)) + length (spec_Suffix (whc_Spec x)) = 52)"
proof -
  let ?ns = "whc_Namespace x" and ?s = "spec_Suffix (whc_Spec x)"
  define b where "b = take 45 ?ns"
  define k where "k = length b + length ?s + 2"
  have ns: "?ns \<noteq> []" "lower_alnum (hd ?ns)" "list_all label_char ?ns" using assms(1) by (simp_all add: dns_label_def label_text_simps)
  have b: "b \<noteq> []" "lower_alnum (hd b)" "list_all label_char b" "length b \<le> 45"
    using ns by (simp_all add: b_def) (meson in_set_takeD list_all_iff)
  have s: "list_all label_char ?s" "length ?s \<le> 15" using assms(2) by (simp_all add: suffix_admitted_def)
  define full where "full = b @ ''-'' @ ?s @ ''-'' @ to_lower t"
  have "to_lower (b @ ''-'' @ ?s @ ''-'' @ t) = full"
    unfolding full_def to_lower_append to_lower_label [OF b(3)] to_lower_label [OF s(1)]
    using to_lower_label [of "''-''"] label_chars(1) by simp
  moreover have "(if length ?ns > 45 then take 45 ?ns else ?ns) = b" by (simp add: b_def)
  ultimately have name: "generateTargetNamespaceName x t = take 63 full"
    unfolding generateTargetNamespaceName_def Let_def by (simp only:) simp
  have inner: "list_all label_char full" using b(3) s(1) run_type_chars(3) [OF assms(3)] label_chars(1) by (simp add: full_def)
  then have chars: "list_all label_char (take 63 full)" by (meson in_set_takeD list_all_iff)
  have nonempty: "take 63 full \<noteq> []" "hd (take 63 full) = hd b" using b(1) by (simp_all add: full_def hd_append)
  have k: "k \<le> 62" "full ! (k + i) = to_lower t ! i" for i
    using b(4) s(2) by (simp_all add: k_def full_def nth_append)
  have len: "length full = k + length t" by (simp add: full_def k_def)
  have "0 < length t" using run_type_chars(1) [OF assms(3)] by simp
  have ends: "last (take 63 full) = to_lower t ! (min 62 (k + length t - 1) - k)"
  proof -
    have "last (take 63 full) = full ! (min 62 (k + length t - 1))"
    proof (cases "length full \<le> 63")
      case True
      then have "min 62 (k + length t - 1) = length full - 1" using len by simp
      then show ?thesis using True nonempty(1) by (simp add: last_conv_nth)
    next
      case False
      then have "min 62 (k + length t - 1) = 62" using len by simp
      then show ?thesis using False nonempty(1) by (simp add: last_conv_nth)
    qed
    also have "min 62 (k + length t - 1) = k + (min 62 (k + length t - 1) - k)"
      using k(1) \<open>0 < length t\<close> by (simp only: min_def split: if_splits) arith
    finally show ?thesis by (simp only: k(2))
  qed
  have "min 62 (k + length t - 1) - k < length t"
    using \<open>0 < length t\<close> by (simp only: min_def split: if_splits) arith
  then have "lower_alnum (last (take 63 full)) \<longleftrightarrow> \<not> (t = ''baseline-2'' \<and> min 62 (k + length t - 1) - k = 8)"
    unfolding ends by (rule run_type_chars(2) [OF assms(3)])
  moreover have "t = ''baseline-2'' \<Longrightarrow> min 62 (k + length t - 1) - k = 8 \<longleftrightarrow> min 45 (length ?ns) + length ?s = 52"
  proof -
    have "min 62 (k + 10 - 1) - k = 8 \<longleftrightarrow> k = 54" using k(1) by (simp only: min_def split: if_splits) arith
    moreover have "k = 54 \<longleftrightarrow> min 45 (length ?ns) + length ?s = 52" by (auto simp: k_def b_def min.commute)
    moreover have "t = ''baseline-2'' \<Longrightarrow> length t = 10" by simp
    ultimately show "t = ''baseline-2'' \<Longrightarrow> min 62 (k + length t - 1) - k = 8 \<longleftrightarrow> min 45 (length ?ns) + length ?s = 52"
      by (simp only:)
  qed
  ultimately show ?thesis
    using chars nonempty b(2) unfolding name dns_label_def label_text_simps by auto
qed

definition crowded :: WorkloadHardeningCheck where
  "crowded = empty_whc\<lparr>whc_Namespace := replicate 44 CHR ''a'',
     whc_Spec := (whc_Spec empty_whc)\<lparr>spec_Suffix := replicate 8 CHR ''b''\<rparr>\<rparr>"

theorem clone_name_valid_iff_witness:
  "dns_label (generateTargetNamespaceName crowded ''baseline'') \<and> \<not> dns_label (generateTargetNamespaceName crowded ''baseline-2'')"
proof -
  have a: "lower_alnum (CHR ''a'')" "lower_alnum (CHR ''b'')" by (simp_all add: lower_alnum_def in_range_def)
  then have "dns_label (whc_Namespace crowded)" "suffix_admitted (spec_Suffix (whc_Spec crowded))"
    by (simp_all add: crowded_def dns_label_def label_text_simps suffix_admitted_def label_chars(5) list_all_iff last_replicate hd_replicate)
  moreover have "''baseline'' \<in> run_types" "''baseline-2'' \<in> run_types" by (simp_all add: run_types_def)
  ultimately show ?thesis
    using clone_name_valid_iff [of crowded "''baseline''"] clone_name_valid_iff [of crowded "''baseline-2''"]
    by (simp add: crowded_def)
qed

text \<open>
  The clones of a namespace check: the name of the final one is cut too, and may end with either dash before the
  cut; those of the baselines are not cut.
\<close>

lemma last_take_nth: "s \<noteq> [] \<Longrightarrow> 0 < n \<Longrightarrow> last (take n s) = s ! (min n (length s) - 1)"
  by (simp add: last_conv_nth min.commute)

lemma final_namespace_valid_iff:
  assumes "nhc_admitted x"
  shows "dns_label (final_namespace x) \<longleftrightarrow> length (target_of x) \<noteq> 62 \<and> length (target_of x) + length (suffix_of x) \<noteq> 61"
proof -
  let ?n = "length (target_of x)" and ?s = "length (suffix_of x)"
  have target: "target_of x \<noteq> []" "lower_alnum (hd (target_of x))" "list_all label_char (target_of x)" "lower_alnum (last (target_of x))"
      "?n \<le> 63" and suffix: "list_all lower_alnum (suffix_of x)" "suffix_of x \<noteq> []" "?s \<le> 5"
    using assms by (simp_all add: nhc_admitted_def dns_label_def label_text_simps)
  define full where "full = target_of x @ ''-'' @ suffix_of x @ ''-final''"
  have name: "final_namespace x = take 63 full" by (simp add: final_namespace_def full_def Let_def)
  have len: "length full = ?n + ?s + 7" by (simp add: full_def)
  have final: "list_all lower_alnum ''final''" by code_simp
  have "list_all label_char full"
    using target(3) suffix(1) final label_chars(1,5) by (auto simp: full_def list_all_iff)
  then have chars: "list_all label_char (take 63 full)" by (meson in_set_takeD list_all_iff)
  have start: "take 63 full \<noteq> []" "hd (take 63 full) = hd (target_of x)" using target(1) by (simp_all add: full_def hd_append)
  have behind: "lower_alnum (full ! i) \<longleftrightarrow> i \<noteq> ?n \<and> i \<noteq> ?n + ?s + 1" if "?n - 1 \<le> i" "i < length full" for i
  proof -
    have "list_all lower_alnum (last (target_of x) # suffix_of x @ ''final'')" using target(4) suffix(1) final by simp
    then have each: "lower_alnum c" if "c \<in> insert (last (target_of x)) (set (suffix_of x) \<union> set ''final'')" for c
      using that by (simp only: list_all_iff list.set set_append)
    consider "i = ?n - 1" | "i = ?n" | "?n < i" "i < ?n + ?s + 1" | "i = ?n + ?s + 1" | "?n + ?s + 1 < i" using \<open>?n - 1 \<le> i\<close> by linarith
    then show ?thesis
    proof cases
      case 1
      then have "full ! i = last (target_of x)" using target(1) by (simp add: full_def nth_append last_conv_nth)
      moreover have "0 < ?n" using target(1) by simp
      then have "i \<noteq> ?n \<and> i \<noteq> ?n + ?s + 1" using 1 by arith
      ultimately show ?thesis using each by simp
    next
      case 2
      then show ?thesis using label_chars(2) by (simp add: full_def nth_append)
    next
      case 3
      define k where "k = i - ?n - 1"
      have k: "i = ?n + Suc k" "k < ?s" using 3 by (simp_all add: k_def)
      have "full ! i = suffix_of x ! k" using k(2) by (simp add: full_def k(1) nth_append)
      then have "full ! i \<in> set (suffix_of x)" using k(2) by simp
      then show ?thesis using 3 each by simp
    next
      case 4
      then show ?thesis using label_chars(2) by (simp add: full_def nth_append nth_Cons')
    next
      case 5
      define k where "k = i - (?n + ?s + 2)"
      have k: "i = ?n + Suc (?s + Suc k)" "k < length ''final''" using 5 \<open>i < length full\<close> len by (simp_all add: k_def)
      have "full ! i = ''final'' ! k" by (simp add: full_def k(1) nth_append)
      then have "full ! i \<in> set ''final''" using nth_mem [OF k(2)] by simp
      then have "lower_alnum (full ! i)" by (intro each insertI2 UnI2)
      then show ?thesis using 5 by simp
    qed
  qed
  define i where "i = min 63 (length full) - 1"
  have i: "?n - 1 \<le> i" "i < length full" "i = ?n \<or> i = ?n + ?s + 1 \<longleftrightarrow> ?n = 62 \<or> ?n + ?s = 61"
    using target(5) len suffix(2) by (auto simp: i_def min_def)
  have "last (take 63 full) = full ! i" unfolding i_def by (rule last_take_nth) (use start in auto)
  then have "lower_alnum (last (take 63 full)) \<longleftrightarrow> \<not> (i = ?n \<or> i = ?n + ?s + 1)" using behind [OF i(1,2)] by simp
  then show ?thesis
    using chars start target(2) i(3) unfolding name dns_label_def label_text_simps by auto
qed

lemma baseline_namespace_valid_iff:
  assumes "nhc_admitted x" "t \<in> {''baseline'', ''baseline-2''}"
  shows "dns_label (baseline_namespace x t) \<longleftrightarrow> length (target_of x) + length (suffix_of x) + length t + 2 \<le> 63"
proof -
  have "list_all label_char t \<and> t \<noteq> [] \<and> lower_alnum (last t)" using assms(2) by (elim insertE emptyE; hypsubst; code_simp)
  then have "label_text (baseline_namespace x t)"
    using assms(1) label_chars(1,5) by (auto simp: nhc_admitted_def dns_label_def label_text_simps baseline_namespace_def list_all_iff hd_append)
  then show ?thesis by (simp add: dns_label_def baseline_namespace_def add.assoc)
qed

section \<open>The workload checks of a namespace check\<close>

lemma label_text_subdomain: "label_text s \<Longrightarrow> dns_subdomain s"
proof -
  assume s: "label_text s"
  then have "CHR ''.'' \<notin> set s" using label_chars(3) by (auto simp: label_text_simps list_all_iff)
  then show ?thesis using s
    by (simp add: dns_subdomain_def str_split_no_sep label_text_def label_char_def [abs_def])
qed

lemma subdomain_label_text: "dns_subdomain s \<Longrightarrow> CHR ''.'' \<notin> set s \<Longrightarrow> label_text s"
  by (simp add: dns_subdomain_def str_split_no_sep label_text_def label_char_def [abs_def])

lemma label_text_qualified: "label_text s \<Longrightarrow> qualified_name s"
proof -
  assume s: "label_text s"
  have "alnum c \<or> c \<in> {CHR ''-'', CHR ''_'', CHR ''.''}" if "label_char c" for c
    using that label_chars(6) by (auto simp: label_char_def)
  then show ?thesis using s label_chars(6)
    by (auto simp: label_text_simps qualified_name_def bounded_by_def list_all_iff)
qed

definition kind_names :: "string set" where
  "kind_names = {''Deployment'', ''StatefulSet'', ''DaemonSet''}"

lemma kind_names_lower: "k \<in> kind_names \<Longrightarrow> to_lower k \<noteq> [] \<and> list_all lower_alnum (to_lower k)"
  unfolding kind_names_def by (elim insertE emptyE; hypsubst; code_simp)

lemma managed_by_value: "label_value ManagedByValue"
  by code_simp

lemma check_name_label:
  assumes "u_Kind r \<in> kind_names" "label_text (u_Name r)" "list_all lower_alnum (suffix_of x)" "suffix_of x \<noteq> []"
  shows "label_text (check_name x r)"
    "length (check_name x r) = length (u_Kind r) + length (u_Name r) + length (suffix_of x) + 2"
proof -
  have k: "to_lower (u_Kind r) \<noteq> []" "list_all lower_alnum (to_lower (u_Kind r))" using kind_names_lower [OF assms(1)] by simp_all
  have n: "list_all label_char (u_Name r)" using assms(2) by (simp add: label_text_simps)
  have s: "list_all label_char (suffix_of x)" using assms(3) label_chars(5) by (simp add: list_all_iff)
  have name: "check_name x r = to_lower (u_Kind r) @ ''-'' @ u_Name r @ ''-'' @ suffix_of x"
    unfolding check_name_def to_lower_append to_lower_label [OF n] to_lower_label [OF s]
    using to_lower_label [of "''-''"] label_chars(1) by simp
  have "lower_alnum (hd (to_lower (u_Kind r)))" "lower_alnum (last (suffix_of x))"
    using k assms(3,4) by (simp_all add: list_all_iff)
  moreover have "list_all label_char (to_lower (u_Kind r))" using k(2) label_chars(5) by (simp add: list_all_iff)
  ultimately show "label_text (check_name x r)"
    using k(1) n s assms(4) label_chars(1) by (simp add: name label_text_simps hd_append)
  show "length (check_name x r) = length (u_Kind r) + length (u_Name r) + length (suffix_of x) + 2" by (simp add: name)
qed

text \<open>
  C17. Which of the workload checks that an admitted namespace check creates the API server admits: those whose
  workload has a name without a dot that, with its kind and the suffix, is short enough for the label that carries the
  name of the check, provided that the name of the namespace check itself fits in a label. So a deployment
  whose name has more than 46 characters, or a dot, is never checked, with a suffix of five.
\<close>

theorem created_check_admitted_iff:
  assumes "nhc_admitted x" and "u_Kind r \<in> kind_names" and "dns_subdomain (u_Name r)" and "length (u_Name r) \<le> 253"
    and "list_all lower_alnum random" and "length random = 8"
  shows "whc_admitted (new_workload_check x r random) \<longleftrightarrow> CHR ''.'' \<notin> set (u_Name r)
    \<and> length (u_Kind r) + length (u_Name r) + length (suffix_of x) + 2 \<le> 63 \<and> length (nhc_Name x) \<le> 63"
proof -
  let ?y = "new_workload_check x r random"
  have x: "list_all lower_alnum (suffix_of x)" "suffix_of x \<noteq> []" "length (suffix_of x) \<le> 5" "dns_label (target_of x)"
      "duration_admitted (nspec_RecordingDuration (nhc_Spec x))" "mode_admitted (nspec_RunMode (nhc_Spec x))" "qualified_name (nhc_Name x)"
    using assms(1) by (simp_all add: nhc_admitted_def)
  have suffix: "suffix_admitted (suffix_of x @ ''-'' @ random)"
    using x(1,3) assms(5,6) label_chars(1,5) by (auto simp: suffix_admitted_def list_all_iff)
  have spec: "whc_spec_admitted (whc_Spec ?y) \<longleftrightarrow> label_text (u_Name r)"
    using suffix x(5,6) assms(2,4) by (simp add: whc_spec_admitted_def new_workload_check_def kind_names_def)
  have labels: "list_all (\<lambda>(k, v). label_value v) (whc_Labels ?y) \<longleftrightarrow> label_value (check_name x r) \<and> label_value (nhc_Name x)"
    using managed_by_value by (auto simp: new_workload_check_def)
  have nhc: "label_value (nhc_Name x) \<longleftrightarrow> length (nhc_Name x) \<le> 63" using x(7) by (simp add: label_value_def)
  have dot: "label_text (u_Name r) \<longleftrightarrow> CHR ''.'' \<notin> set (u_Name r)"
    using subdomain_label_text [OF assms(3)] label_chars(3) by (auto simp: label_text_simps list_all_iff)
  have named: "dns_subdomain (check_name x r)"
      "label_value (check_name x r) \<longleftrightarrow> length (u_Kind r) + length (u_Name r) + length (suffix_of x) + 2 \<le> 63"
      "length (check_name x r) = length (u_Kind r) + length (u_Name r) + length (suffix_of x) + 2" if "label_text (u_Name r)"
    using check_name_label [OF assms(2) that x(1,2)] label_text_subdomain label_text_qualified by (auto simp: label_value_def)
  have "whc_Name ?y = check_name x r" "whc_Namespace ?y = target_of x" by (simp_all add: new_workload_check_def)
  then show ?thesis using spec labels nhc dot named x(4) unfolding whc_admitted_def by auto
qed

text \<open>A deployment with a name of 47 characters, and one with a name of 46.\<close>

theorem created_check_admitted_iff_witness:
  "let x = ref_nhc\<lparr>nhc_Spec := (nhc_Spec ref_nhc)\<lparr>nspec_Suffix := ''abcde''\<rparr>\<rparr>;
       deployment = (\<lambda>n. web_resource\<lparr>u_Name := replicate n CHR ''a''\<rparr>)
   in \<not> whc_admitted (new_workload_check x (deployment 47) ''bcdfghjk'') \<and> whc_admitted (new_workload_check x (deployment 46) ''bcdfghjk'')"
proof -
  let ?x = "ref_nhc\<lparr>nhc_Spec := (nhc_Spec ref_nhc)\<lparr>nspec_Suffix := ''abcde''\<rparr>\<rparr>"
  let ?r = "\<lambda>n. web_resource\<lparr>u_Name := replicate n CHR ''a''\<rparr>"
  have x: "nhc_admitted ?x" by code_simp
  have random: "list_all lower_alnum ''bcdfghjk''" by code_simp
  have a: "lower_alnum (CHR ''a'')" "label_char (CHR ''a'')" by code_simp+
  have name: "dns_subdomain (u_Name (?r n))" if "0 < n" for n
    using that a by (intro label_text_subdomain) (simp add: label_text_simps list_all_iff hd_replicate last_replicate)
  have kind: "u_Kind (?r n) \<in> kind_names" "length (u_Kind (?r n)) = 10" for n by (simp_all add: web_resource_def kind_names_def)
  have "whc_admitted (new_workload_check ?x (?r n) ''bcdfghjk'') \<longleftrightarrow> n \<le> 46" if "0 < n" "n \<le> 253" for n
    using created_check_admitted_iff [OF x kind(1) name [OF that(1)] _ random] that(2) kind(2) by (auto simp: ref_nhc_def)
  then show ?thesis by (simp add: Let_def)
qed

end
