(* ===== verification/Spec2Isabelle.thy ===== *)
theory Spec2Isabelle
  imports Checks Executor Webhooks Resume Startup Waiting Stranding FinalCheck DeepCopy Naming
begin

text \<open>
  A model of the operator \<open>orakel-of-funk-operator\<close> and the properties that make it correct.

  \<^bold>\<open>The program.\<close> A \<open>WorkloadHardeningCheck\<close> names a workload. The operator clones the workload's namespace,
  once per hardening check (run as a user, read-only root, ...), applies that check's security context to
  the clone of the workload, records the logs and resource usage of its pods, and compares them with baselines
  recorded without any change. The checks whose logs show no anomaly are merged into a recommendation, and a
  final run tests the recommendation itself. A \<open>NamespaceHardeningCheck\<close> does this for all workloads of a
  namespace: it records their baselines in one clone, creates a workload check for each of them, and tests all
  recommendations together.

  \<^bold>\<open>Parts and theories.\<close> The order is that of the calls, callees first.
  \<^item> \<open>Prelude\<close>, \<open>Duration\<close>, \<open>Regexp\<close>: Go's strings (lists of bytes), results that may panic or not return,
    durations as 64-bit words with \<open>time.ParseDuration\<close>, and the fragment of \<open>regexp\<close> the program uses.
  \<^item> \<open>ApiTypes\<close>: \<open>api/v1alpha1\<close>. \<open>SecurityContextUtil\<close>: \<open>pkg/util/securitycontext\<close>. \<open>Checks\<close>: \<open>pkg/checks\<close>.
  \<^item> \<open>DeepCopy\<close>: \<open>zz_generated.deepcopy.go\<close> on an explicit memory of addresses.
  \<^item> \<open>Executor\<close>: \<open>internal/executor/executor.go\<close>, the registry of running checks and their contexts.
  \<^item> \<open>World\<close>, \<open>Effects\<close>, \<open>Reference\<close>: the calls to the outside, their documented laws, and one cluster
    that satisfies them.
  \<^item> \<open>WorkloadUtil\<close>, \<open>WhcOps\<close>: \<open>pkg/util/workload\<close> and \<open>pkg/workloadhardeningcheck\<close>, reading workloads and
    writing the conditions of a custom resource. \<open>Valkey\<close>: \<open>internal/valkey\<close>, the store of recordings.
  \<^item> \<open>Oracle\<close>: \<open>pkg/orakel\<close>, the comparison of logs. \<open>Manager\<close>: \<open>internal/workload\<close>, the analysis of all
    runs, the recommendation and the choice of the next checks.
  \<^item> \<open>Namespaces\<close>: \<open>internal/namespace\<close>, cloning and deleting. \<open>Recording\<close>: \<open>internal/recording\<close>, logs and metrics.
  \<^item> \<open>Runner\<close>: \<open>internal/runner\<close>, one run of one check, from the clone to the published outcome.
  \<^item> \<open>Dispatch\<close>, \<open>WorkloadController\<close>, \<open>NamespaceController\<close>: \<open>internal/controller\<close>, the reconciliations and the
    functions they submit to the executor.
  \<^item> \<open>Conditions\<close>, \<open>Stranding\<close>, \<open>FinalCheck\<close>, \<open>Naming\<close>: properties of the reconciliations as a whole: the conditions
    they write against the schema, when they ask to be repeated and when a resource is left alone, what a final check
    changes, and the made-up names and objects against the rules of the API server.
  \<^item> \<open>Webhooks\<close>: \<open>internal/webhook\<close>, the admission of both resources. \<open>Resume\<close>: \<open>internal/executor/resume.go\<close>.
  \<^item> \<open>Waiting\<close>: \<open>pkg/util/wait\<close>. \<open>Startup\<close>: \<open>cmd/main.go\<close>, the command line, the TLS options of the servers and
    the calls that set up the manager, with the \<open>SetupWithManager\<close> functions and \<open>NewValKeyClient\<close>.

  \<^bold>\<open>How code is modelled.\<close> A pure function is a function on records; a nil pointer is \<open>None\<close>, and where the code
  dereferences one the model panics (\<open>outcome\<close>). An effectful function is a program in the state monad over
  \<open>world\<close>: a call to the API server, Valkey, the clock or the random source appends an \<open>event\<close> to the trace and
  is answered by a field of \<open>env\<close>, a function of the calls so far. The properties hold for every such
  answer; what they need of it is named (\<open>lawful\<close>, \<open>service_conversion\<close>, \<open>clock_runs\<close>, \<open>schema_enforced\<close>,
  \<open>lists_in_namespace\<close>, \<open>polling\<close>, ...) and is documented behaviour of Kubernetes or of the Go library. Answers may change from call to call, so that other
  processes and failing calls are covered. The state is what the code keeps: the copy of the custom resource
  that is being worked on, the workload objects held by pointer, the executor, and a store of security contexts,
  because checks share one through a pointer; that a deep copy is a value of its own is shown in theory \<open>DeepCopy\<close>. Errors are values, with every early return of the code a branch.

  \<^bold>\<open>Concurrency.\<close> The executor is a step relation over submissions, cancellations and ends of runs in any
  order. Goroutines within a function (log and metrics recorders) are lists of tasks that are interleaved
  as \<open>e_next\<close> or \<open>e_permutation\<close> chooses. Between two calls of a reconciliation runs may end (\<open>e_completed\<close>). A
  submitted run is a \<open>Job\<close>, and its program is given separately (\<open>run_check_job\<close>, \<open>record_all_job\<close>, \<open>final_check_job\<close>).

  \<^bold>\<open>Loops.\<close> Loops that wait for the cluster take fuel, and \<open>NoReturn\<close> is the result of a loop that used it up.
  A safety property holds for any fuel. That a loop ends is proved as such: 25 rounds of five seconds exhaust the
  two minutes of the readiness loop (\<open>readiness_wait_returns\<close>), the log recorder returns as soon as the
  pods are assigned (\<open>wait_pods_returns\<close>). Loops without an end are shown to be ones (\<open>rollout_wait_unbounded\<close>,
  \<open>silent_recorder_blocks\<close>).

  \<^bold>\<open>What the lemmas show.\<close> Merging contexts is an overlay of field maps, so a user's value is never lost, and
  merging recommendations does not depend on their order. The registry of the executor holds exactly the active
  runs in every reachable state. A run, whatever fails, touches only its clone and the status of its resource, and
  a recording counts only once it is stored; cloning and deleting are inverse on cluster role bindings. The
  triples \<open>steps\<close> and \<open>keeps\<close> of theory \<open>Effects\<close> carry such footprints through a program. The reconciliations are
  shown to start what is missing and nothing else, to stop after a failed baseline, and to clean up in order;
  admission keeps the names that runs are found by. Every condition they write is one the schema admits, and a
  reconciliation that starts a run asks to be repeated; two ways are shown in which a resource is stranded all the same.
  The start-up makes its calls in order and stops at the first that fails. The properties below tie the controller to the runner.

  \<^bold>\<open>Not modelled.\<close> What the calls of \<open>cmd/main.go\<close> do inside controller-runtime, the registration of the scheme, the
  constructors of the clients, and log output are left out. The API server, its validation of schemas, the kubelet, Valkey, the
  drain miner and the JSON codec are fields of \<open>env\<close> and \<open>drain_api\<close>.
\<close>

section \<open>From the reconciliation to the runs\<close>

lemma clone_is_another: "length (whc_Namespace x) \<le> 45 \<Longrightarrow> generateTargetNamespaceName x t \<noteq> whc_Namespace x"
proof -
  assume short: "length (whc_Namespace x) \<le> 45"
  have "length (generateTargetNamespaceName x t) \<noteq> length (whc_Namespace x)"
    using short by (simp add: generateTargetNamespaceName_def Let_def)
  then show ?thesis by auto
qed

text \<open>
  A submission that is for \<open>x\<close>, under the identifier of its check type, of a run whose every call stays within
  the clone of that type and the status of \<open>x\<close>.
\<close>

definition confined_submission :: "nat \<Rightarrow> env \<Rightarrow> 'd drain_api \<Rightarrow> WorkloadHardeningCheck \<Rightarrow> event \<Rightarrow> bool" where
  "confined_submission fuel env da x ev \<longleftrightarrow> (\<forall>i y t scp d b. ev = EvSubmit i (RunCheckJob y t scp d) b \<longrightarrow>
     y = x \<and> i = own_id x t
     \<and> steps anywhere (footprint (Some (generateTargetNamespaceName x t)) (whc_Namespace x) (whc_Name x))
         (run_check_job fuel env da y t scp d) (\<lambda>_ _. True))"

text \<open>
  C3. Everything a reconciliation sets in motion stays in the clones: for a resource in a namespace of at most 45
  characters, every run that its reconciliation submits works on that resource, is registered under its identifier,
  and, when it runs, from any state and whatever the cluster answers, changes nothing but the clone of its check
  type, the bindings labelled with it, the status of the resource and the stored recordings.
\<close>

theorem submitted_runs_confined:
  assumes "lawful env" and "service_conversion env" and "e_GetWHC env (w_trace w) ns n = Inr x"
    and "whc_DeletionTimestamp x = None" and "length ns \<le> 45"
  shows "list_all (confined_submission fuel env da x)
    (drop (length (w_trace w)) (w_trace (snd (run_state (Reconcile env da b ns n) w))))"
proof -
  have "whc_Namespace x = ns" using GetWHC_key [OF assms(1,3)] by simp
  then have another: "generateTargetNamespaceName x t \<noteq> whc_Namespace x" for t
    using clone_is_another [of x t] assms(5) by simp
  have confined: "confined_submission fuel env da x ev" if "controls UNIV x ev" for ev
    using that run_check_job_confined [OF assms(1,2) another] by (auto simp: confined_submission_def)
  have fetch: "confined_submission fuel env da x (EvGetWHC ns n)" by (simp add: confined_submission_def)
  have "steps anywhere (controls UNIV x) (reconcile_fetched env da b x) (\<lambda>_. anywhere)"
    by (rule steps_reconcile_fetched [OF assms(1,4)])
  from stepsD_trace [OF this anywhere, of "w\<lparr>w_trace := w_trace w @ [EvGetWHC ns n]\<rparr>"] show ?thesis
    using confined fetch by (auto simp: Reconcile_found [OF assms(3)] list_all_iff)
qed

theorem submitted_runs_confined_witness:
  "list_all (confined_submission 9 (ref_env empty_whc [] []) line_miner empty_whc)
    (w_trace (snd (run_state (Reconcile (ref_env empty_whc [] []) line_miner False ''apps'' ''whc'') (start_world empty_whc))))"
proof -
  have "e_GetWHC (ref_env empty_whc [] []) (w_trace (start_world empty_whc)) ''apps'' ''whc'' = Inr empty_whc"
    "whc_DeletionTimestamp empty_whc = None" "service_conversion (ref_env empty_whc [] [])"
    by (simp_all add: ref_env_def start_world_def empty_whc_def service_conversion_def without_addresses_def)
  from submitted_runs_confined [OF ref_env_lawful this(3,1,2), of 9 line_miner False] show ?thesis
    by (simp add: start_world_def)
qed

end
